theory Spec2Isabelle
  imports Main "HOL-Library.Word"
begin

section \<open>Traces and source locations\<close>

text \<open>
  Addresses are machine pointers (\<^verbatim>\<open>void *\<close>, \<^verbatim>\<open>uintptr_t\<close>, \<^verbatim>\<open>Dwarf_Addr\<close>):
  64-bit words, so that the address arithmetic of the resolvers wraps as it does in the
  program.
\<close>

type_synonym address = "64 word"
type_synonym u32 = "32 word"

text \<open>
  Modelled from the spec: \<^verbatim>\<open>SourceLoc\<close> is declared in \<^verbatim>\<open>backward/resolve.hpp\<close>, which
  is not part of the sources at hand. The spec gives it as
  \<^verbatim>\<open>{ filename: string?, function: string?, line: u32, column: u32 }\<close>, the empty
  strings and a zero line being the unknown sentinel. The field \<^verbatim>\<open>function\<close> is
  written \<open>func\<close> here.
\<close>

record SourceLoc =
  func :: string
  filename :: string
  line :: u32
  col :: u32

definition SourceLoc_unknown :: SourceLoc where
  "SourceLoc_unknown = \<lparr>func = [], filename = [], line = 0, col = 0\<rparr>"

text \<open>\<^verbatim>\<open>struct Trace\<close> and \<^verbatim>\<open>struct ResolvedTrace : public Trace\<close>.\<close>

record Trace =
  addr :: address
  idx :: nat

record ResolvedTrace = Trace +
  object_filename :: string
  object_function :: string
  source :: SourceLoc
  inliners :: "SourceLoc list"

text \<open>\<^verbatim>\<open>ResolvedTrace(Trace(addr, i))\<close>: every other member default-constructed.\<close>

definition ResolvedTrace_of :: "address \<Rightarrow> nat \<Rightarrow> ResolvedTrace" where
  "ResolvedTrace_of a i =
     \<lparr>addr = a, idx = i, object_filename = [], object_function = [],
      source = SourceLoc_unknown, inliners = []\<rparr>"

section \<open>The facade \<^verbatim>\<open>backward::resolve\<close> and its address cache\<close>

text \<open>
  The backend is the object behind \<^verbatim>\<open>TraceResolverImplBase\<close>: its two virtual
  methods, over a backend state \<open>'s\<close> that the calls may change.
\<close>

record 's TraceResolver =
  load_addresses :: "'s \<Rightarrow> address list \<Rightarrow> 's"
  backend_resolve :: "'s \<Rightarrow> ResolvedTrace \<Rightarrow> ResolvedTrace \<times> 's"

text \<open>
  The function-local statics of \<^verbatim>\<open>backward::resolve\<close>: the resolver and the map
  \<^verbatim>\<open>locs\<close>. The field \<open>calls\<close> is a log of the effect
  \<^verbatim>\<open>resolver.resolve(...)\<close>: each invocation with the trace passed and the trace
  returned, oldest first. The program has no such variable; nothing reads the log.
\<close>

record 's facade =
  resolver :: 's
  locs :: "address \<rightharpoonup> SourceLoc"
  calls :: "(ResolvedTrace \<times> ResolvedTrace) list"

definition facade_init :: "'s \<Rightarrow> 's facade" where
  "facade_init r = \<lparr>resolver = r, locs = Map.empty, calls = []\<rparr>"

text \<open>The body of the \<^verbatim>\<open>for\<close> loop at index \<open>i\<close>.\<close>

definition resolve_step ::
  "'s TraceResolver \<Rightarrow> address list \<Rightarrow> nat \<Rightarrow> 's facade \<times> SourceLoc list
     \<Rightarrow> 's facade \<times> SourceLoc list" where
  "resolve_step B addresses i = (\<lambda>(st, ret).
     let a = addresses ! i in
     case locs st a of
       Some v \<Rightarrow> (st, ret[i := v])
     | None \<Rightarrow>
         let t = ResolvedTrace_of a i;
             (res, r') = backend_resolve B (resolver st) t;
             st' = st\<lparr>resolver := r', locs := (locs st)(a \<mapsto> source res),
                      calls := calls st @ [(t, res)]\<rparr>
         in (st', ret[i := source res]))"

text \<open>
  \<^verbatim>\<open>for(auto i = 0u; i < addresses.size(); ++i)\<close>: the counter is an
  \<^verbatim>\<open>unsigned\<close>, 32 bits wide, compared with a \<^verbatim>\<open>size_t\<close>. It wraps to 0 after
  \<open>2^32 - 1\<close>, so on a batch of \<open>2^32\<close> addresses or more the loop never ends:
  the result is \<open>None\<close>.
\<close>

partial_function (option) resolve_loop ::
  "'s TraceResolver \<Rightarrow> address list \<Rightarrow> u32 \<Rightarrow> 's facade \<times> SourceLoc list
     \<Rightarrow> ('s facade \<times> SourceLoc list) option" where
  "resolve_loop B addresses i s =
     (if unat i < length addresses
      then resolve_loop B addresses (i + 1) (resolve_step B addresses (unat i) s)
      else Some s)"

declare resolve_loop.simps [code]

text \<open>
  \<^verbatim>\<open>backward::resolve\<close>. The lock is held over the whole body, so the body is one
  atomic step of the state. The allocator argument is unused by the program.
\<close>

definition resolve ::
  "'s TraceResolver \<Rightarrow> 's facade \<Rightarrow> address list \<Rightarrow> (SourceLoc list \<times> 's facade) option" where
  "resolve B st addresses =
     (let ret = replicate (length addresses) SourceLoc_unknown;
          st1 = st\<lparr>resolver := load_addresses B (resolver st) addresses\<rparr>
      in case resolve_loop B addresses 0 (st1, ret) of
           None \<Rightarrow> None
         | Some (st2, ret2) \<Rightarrow> Some (ret2, st2))"

text \<open>A process run: the batches resolved one after the other on the same statics.\<close>

fun run_batches ::
  "'s TraceResolver \<Rightarrow> 's facade \<Rightarrow> address list list
     \<Rightarrow> (SourceLoc list list \<times> 's facade) option" where
  "run_batches B st [] = Some ([], st)"
| "run_batches B st (b # bs) =
     (case resolve B st b of
        None \<Rightarrow> None
      | Some (ret, st') \<Rightarrow>
          (case run_batches B st' bs of
             None \<Rightarrow> None
           | Some (rets, st'') \<Rightarrow> Some (ret # rets, st'')))"

text \<open>
  The loop from index \<open>i\<close> on, by recursion on the number of remaining addresses:
  what \<open>resolve_loop\<close> computes when the counter does not wrap.
\<close>

function loop_from ::
  "'s TraceResolver \<Rightarrow> address list \<Rightarrow> nat \<Rightarrow> 's facade \<times> SourceLoc list
     \<Rightarrow> 's facade \<times> SourceLoc list" where
  "loop_from B addresses i s =
     (if i < length addresses
      then loop_from B addresses (Suc i) (resolve_step B addresses i s)
      else s)"
  by pat_completeness auto
termination
  by (relation "measure (\<lambda>(B, addresses, i, s). length addresses - i)") auto

declare loop_from.simps [simp del]

text \<open>
  Two predicates for the proofs. \<open>logged_call\<close>: a log entry is a call of the batch, the
  trace \<^verbatim>\<open>Trace(addresses[k], k)\<close> and what the backend returned for it in some
  backend state. \<open>cache_grows\<close>: from \<open>st\<close> to \<open>st'\<close> the cache keeps every entry,
  and the new log entries are exactly the new keys, each logged once and cached with the
  source location the backend returned.
\<close>

definition logged_call ::
  "'s TraceResolver \<Rightarrow> address list \<Rightarrow> ResolvedTrace \<times> ResolvedTrace \<Rightarrow> bool" where
  "logged_call B addresses c \<longleftrightarrow>
     (\<exists>k < length addresses. \<exists>r.
        fst c = ResolvedTrace_of (addresses ! k) k \<and>
        snd c = fst (backend_resolve B r (fst c)))"

definition cache_grows ::
  "(ResolvedTrace \<times> ResolvedTrace \<Rightarrow> bool) \<Rightarrow> 's facade \<Rightarrow> 's facade \<Rightarrow> bool" where
  "cache_grows P st st' \<longleftrightarrow>
     locs st \<subseteq>\<^sub>m locs st' \<and>
     (\<exists>cs. calls st' = calls st @ cs \<and>
        distinct (map (\<lambda>c. addr (fst c)) cs) \<and>
        dom (locs st') = dom (locs st) \<union> (\<lambda>c. addr (fst c)) ` set cs \<and>
        dom (locs st) \<inter> (\<lambda>c. addr (fst c)) ` set cs = {} \<and>
        (\<forall>c \<in> set cs. locs st' (addr (fst c)) = Some (source (snd c)) \<and> P c))"

text \<open>
  A backend for the worked examples: its state counts the calls of \<^verbatim>\<open>resolve\<close>, and
  the source location it returns records the address and the count.
\<close>

definition demo_backend :: "nat TraceResolver" where
  "demo_backend =
     \<lparr>load_addresses = (\<lambda>s as. s),
      backend_resolve = (\<lambda>s t.
         (t\<lparr>source := \<lparr>func = ''f'', filename = ''a.c'', line = ucast (addr t), col = of_nat s\<rparr>\<rparr>,
          Suc s))\<rparr>"

section \<open>Debug information entries\<close>

text \<open>The tags of debug information entries that the resolvers distinguish.\<close>

datatype dw_tag =
    DW_TAG_compile_unit
  | DW_TAG_subprogram
  | DW_TAG_inlined_subroutine
  | DW_TAG_namespace
  | DW_TAG_class_type
  | DW_TAG_structure_type
  | DW_TAG_union_type
  | DW_TAG_enumeration_type
  | DW_TAG_const_type
  | DW_TAG_pointer_type
  | DW_TAG_reference_type
  | DW_TAG_restrict_type
  | DW_TAG_rvalue_reference_type
  | DW_TAG_volatile_type
  | DW_TAG_typedef
  | DW_TAG_base_type
  | DW_TAG_formal_parameter
  | DW_TAG_other nat

text \<open>
  \<^verbatim>\<open>demangler_impl::demangle\<close>: the result of \<^verbatim>\<open>abi::__cxa_demangle\<close> when there is
  one, the name itself otherwise. \<^verbatim>\<open>__cxa_demangle\<close> is a parameter.
\<close>

definition demangle :: "(string \<Rightarrow> string option) \<Rightarrow> string \<Rightarrow> string" where
  "demangle cxa_demangle funcname =
     (case cxa_demangle funcname of Some result \<Rightarrow> result | None \<Rightarrow> funcname)"

section \<open>The libdw backend: \<^verbatim>\<open>TraceResolverLinuxImpl<trace_resolver_tag::libdw>\<close>\<close>

text \<open>
  What the calls of libdw return is data of the model. An entry carries the results of
  the calls the resolver makes on it: \<^verbatim>\<open>dwarf_tag\<close>, \<^verbatim>\<open>dwarf_diename\<close>, the flag
  \<^verbatim>\<open>dwarf_formflag\<close> leaves for \<^verbatim>\<open>DW_AT_declaration\<close> (false when the attribute is
  absent), \<^verbatim>\<open>dwarf_hasattr\<close> for the two bounds, \<^verbatim>\<open>dwarf_lowpc\<close> and
  \<^verbatim>\<open>dwarf_highpc\<close> (\<open>None\<close> when the call fails), \<^verbatim>\<open>dwarf_formudata\<close> on
  \<^verbatim>\<open>DW_AT_high_pc\<close>, the pairs \<^verbatim>\<open>dwarf_ranges\<close> yields, the values
  \<^verbatim>\<open>dwarf_formudata\<close> leaves for the call file, line and column (0 when absent), and
  the file table of the entry's unit (\<open>None\<close> when \<^verbatim>\<open>dwarf_diecu\<close> or
  \<^verbatim>\<open>dwarf_getsrcfiles\<close> gives none) as the function \<^verbatim>\<open>dwarf_filesrc\<close> reads it.
  The children are the entries \<^verbatim>\<open>dwarf_child\<close> and \<^verbatim>\<open>dwarf_siblingof\<close> walk.
\<close>

record dw_attrs =
  dw_tag_of :: dw_tag
  dw_diename :: "string option"
  dw_declaration :: bool
  dw_hasattr_low_pc :: bool
  dw_hasattr_high_pc :: bool
  dw_lowpc :: "address option"
  dw_highpc :: "address option"
  dw_high_pc_udata :: "address option"
  dw_ranges :: "(address \<times> address) list"
  dw_call_file :: "64 word"
  dw_call_line :: "64 word"
  dw_call_column :: "64 word"
  dw_srcfiles :: "(64 word \<Rightarrow> string option) option"

datatype dw_die = Dw_die (dw_attrs_of: dw_attrs) (dw_children: "dw_die list")

text \<open>A line record: \<^verbatim>\<open>dwarf_linesrc\<close>, and the numbers left by \<^verbatim>\<open>dwarf_lineno\<close>
  and \<^verbatim>\<open>dwarf_linecol\<close> in variables initialised to 0.\<close>

record dw_line =
  dw_linesrc :: "string option"
  dw_lineno :: int
  dw_linecol :: int

text \<open>A compilation unit of a module: its entry and \<^verbatim>\<open>dwarf_getsrc_die\<close>.\<close>

record dw_cu =
  dw_cudie :: dw_die
  dw_getsrc_die :: "address \<Rightarrow> dw_line option"

text \<open>
  A module: \<^verbatim>\<open>dwfl_module_info\<close>, \<^verbatim>\<open>dwfl_module_addrname\<close>,
  \<^verbatim>\<open>dwfl_module_addrdie\<close> (the unit and the bias) and the units
  \<^verbatim>\<open>dwfl_module_nextcu\<close> enumerates, each with its bias. A session: the result of
  \<^verbatim>\<open>dwfl_linux_proc_report\<close> and \<^verbatim>\<open>dwfl_addrmodule\<close>.
\<close>

record dwfl_module =
  dwfl_module_name :: "string option"
  dwfl_module_addrname :: "address \<Rightarrow> string option"
  dwfl_module_addrdie :: "address \<Rightarrow> (dw_cu \<times> address) option"
  dwfl_module_cus :: "(dw_cu \<times> address) list"

record dwfl =
  dwfl_linux_proc_report :: int
  dwfl_addrmodule :: "address \<Rightarrow> dwfl_module option"

text \<open>
  The members of the resolver. \<open>dwfl_begin_calls\<close> counts the calls of
  \<^verbatim>\<open>dwfl_begin\<close> made so far: a log of that effect, which the program does not keep.
\<close>

record dw_resolver =
  dwfl_handle_initialized :: bool
  dwfl_handle :: "dwfl option"
  dwfl_begin_calls :: nat

definition dw_resolver_init :: dw_resolver where
  "dw_resolver_init =
     \<lparr>dwfl_handle_initialized = False, dwfl_handle = None, dwfl_begin_calls = 0\<rparr>"

definition die_has_pc_dw :: "dw_attrs \<Rightarrow> address \<Rightarrow> bool" where
  "die_has_pc_dw die pc =
     (if dw_hasattr_low_pc die \<and> dw_hasattr_high_pc die then
        (case dw_lowpc die of
           None \<Rightarrow> False
         | Some low \<Rightarrow>
             (case dw_highpc die of
                Some high \<Rightarrow> low \<le> pc \<and> pc < high
              | None \<Rightarrow>
                  (case dw_high_pc_udata die of
                     None \<Rightarrow> False
                   | Some v \<Rightarrow> low \<le> pc \<and> pc < low + v)))
      else list_ex (\<lambda>(low, high). low \<le> pc \<and> pc < high) (dw_ranges die))"

fun find_fundie_by_pc_dw :: "dw_die \<Rightarrow> address \<Rightarrow> dw_die option"
  and find_fundie_loop_dw :: "dw_die list \<Rightarrow> address \<Rightarrow> dw_die option" where
  "find_fundie_by_pc_dw (Dw_die a cs) pc = find_fundie_loop_dw cs pc"
| "find_fundie_loop_dw [] pc = None"
| "find_fundie_loop_dw (d # ds) pc =
     (if (dw_tag_of (dw_attrs_of d) = DW_TAG_subprogram \<or>
          dw_tag_of (dw_attrs_of d) = DW_TAG_inlined_subroutine) \<and>
         die_has_pc_dw (dw_attrs_of d) pc
      then Some d
      else if \<not> dw_declaration (dw_attrs_of d) then
        (case find_fundie_by_pc_dw d pc of
           Some indie \<Rightarrow> Some indie
         | None \<Rightarrow> find_fundie_loop_dw ds pc)
      else find_fundie_loop_dw ds pc)"

definition die_call_file_dw :: "dw_attrs \<Rightarrow> string option" where
  "die_call_file_dw die =
     (if dw_call_file die = 0 then None
      else case dw_srcfiles die of
             None \<Rightarrow> None
           | Some files \<Rightarrow> files (dw_call_file die))"

text \<open>\<^verbatim>\<open>inliners_search_cb::operator()\<close> of this backend, on the trace it refers to.\<close>

definition inliners_search_cb_dw :: "dw_attrs \<Rightarrow> ResolvedTrace \<Rightarrow> ResolvedTrace" where
  "inliners_search_cb_dw die trace =
     (case dw_tag_of die of
        DW_TAG_subprogram \<Rightarrow>
          (case dw_diename die of
             Some name \<Rightarrow> trace\<lparr>source := (source trace)\<lparr>func := name\<rparr>\<rparr>
           | None \<Rightarrow> trace)
      | DW_TAG_inlined_subroutine \<Rightarrow>
          (let sloc = SourceLoc_unknown;
               sloc = (case dw_diename die of
                         Some name \<Rightarrow> sloc\<lparr>func := name\<rparr> | None \<Rightarrow> sloc);
               sloc = (case die_call_file_dw die of
                         Some name \<Rightarrow> sloc\<lparr>filename := name\<rparr> | None \<Rightarrow> sloc);
               sloc = sloc\<lparr>line := ucast (dw_call_line die), col := ucast (dw_call_column die)\<rparr>
           in trace\<lparr>inliners := inliners trace @ [sloc]\<rparr>)
      | _ \<Rightarrow> trace)"

fun deep_first_search_by_pc_dw ::
    "dw_die \<Rightarrow> address \<Rightarrow> ResolvedTrace \<Rightarrow> bool \<times> ResolvedTrace"
  and dfs_loop_dw ::
    "dw_die list \<Rightarrow> address \<Rightarrow> bool \<Rightarrow> ResolvedTrace \<Rightarrow> bool \<times> ResolvedTrace" where
  "deep_first_search_by_pc_dw (Dw_die a cs) pc trace = dfs_loop_dw cs pc False trace"
| "dfs_loop_dw [] pc branch_has_pc trace = (branch_has_pc, trace)"
| "dfs_loop_dw (d # ds) pc branch_has_pc trace =
     (let (b1, t1) = (if \<not> dw_declaration (dw_attrs_of d)
                      then deep_first_search_by_pc_dw d pc trace
                      else (branch_has_pc, trace));
          b2 = (if \<not> b1 then die_has_pc_dw (dw_attrs_of d) pc else b1);
          t2 = (if b2 then inliners_search_cb_dw (dw_attrs_of d) t1 else t1)
      in dfs_loop_dw ds pc b2 t2)"

text \<open>
  The resolution once a session handle is there: from \<^verbatim>\<open>dwfl_addrmodule\<close> to the end
  of \<^verbatim>\<open>resolve\<close>.
\<close>

definition resolve_in_session_dw ::
  "(string \<Rightarrow> string option) \<Rightarrow> dwfl \<Rightarrow> ResolvedTrace \<Rightarrow> ResolvedTrace" where
  "resolve_in_session_dw cxa_demangle session trace =
     (let trace_addr = addr trace;
          module = dwfl_addrmodule session trace_addr;
          trace = (case module of
                     None \<Rightarrow> trace
                   | Some m \<Rightarrow>
                       (let trace = (case dwfl_module_name m of
                                       Some n \<Rightarrow> trace\<lparr>object_filename := n\<rparr>
                                     | None \<Rightarrow> trace)
                        in case dwfl_module_addrname m trace_addr of
                             Some s \<Rightarrow> trace\<lparr>object_function := demangle cxa_demangle s\<rparr>
                           | None \<Rightarrow> trace));
          cudie = (case module of
                     None \<Rightarrow> None
                   | Some m \<Rightarrow>
                       (case dwfl_module_addrdie m trace_addr of
                          Some c \<Rightarrow> Some c
                        | None \<Rightarrow>
                            find (\<lambda>(cu, mod_bias).
                                    find_fundie_by_pc_dw (dw_cudie cu) (trace_addr - mod_bias) \<noteq> None)
                              (dwfl_module_cus m)))
      in case cudie of
           None \<Rightarrow> trace
         | Some (cu, mod_bias) \<Rightarrow>
             (let trace = (case dw_getsrc_die cu (trace_addr - mod_bias) of
                             None \<Rightarrow> trace
                           | Some srcloc \<Rightarrow>
                               (let src = (case dw_linesrc srcloc of
                                             Some f \<Rightarrow> (source trace)\<lparr>filename := f\<rparr>
                                           | None \<Rightarrow> source trace)
                                in trace\<lparr>source := src\<lparr>line := of_int (dw_lineno srcloc),
                                                        col := of_int (dw_linecol srcloc)\<rparr>\<rparr>));
                  trace = snd (deep_first_search_by_pc_dw (dw_cudie cu)
                                 (trace_addr - mod_bias) trace)
              in if func (source trace) = []
                 then trace\<lparr>source := (source trace)\<lparr>func := object_function trace\<rparr>\<rparr>
                 else trace))"

text \<open>
  \<^verbatim>\<open>resolve\<close>. \<open>dwfl_begin n\<close> is what the call number \<open>n\<close> of \<^verbatim>\<open>dwfl_begin\<close> in
  the process returns (\<open>None\<close> for a null session).
\<close>

definition resolve_dw ::
  "(string \<Rightarrow> string option) \<Rightarrow> (nat \<Rightarrow> dwfl option) \<Rightarrow> dw_resolver \<Rightarrow> ResolvedTrace
     \<Rightarrow> ResolvedTrace \<times> dw_resolver" where
  "resolve_dw cxa_demangle dwfl_begin st trace =
     (if \<not> dwfl_handle_initialized st then
        (let h = dwfl_begin (dwfl_begin_calls st);
             st = st\<lparr>dwfl_handle := h, dwfl_handle_initialized := True,
                     dwfl_begin_calls := Suc (dwfl_begin_calls st)\<rparr>
         in case h of
              None \<Rightarrow> (trace, st)
            | Some session \<Rightarrow>
                if dwfl_linux_proc_report session < 0 then (trace, st)
                else (resolve_in_session_dw cxa_demangle session trace, st))
      else
        (case dwfl_handle st of
           None \<Rightarrow> (trace, st)
         | Some session \<Rightarrow> (resolve_in_session_dw cxa_demangle session trace, st)))"

text \<open>The calls of \<^verbatim>\<open>resolve\<close> of a process, one after the other on the same resolver.\<close>

fun resolve_all_dw ::
  "(string \<Rightarrow> string option) \<Rightarrow> (nat \<Rightarrow> dwfl option) \<Rightarrow> dw_resolver \<Rightarrow> ResolvedTrace list
     \<Rightarrow> ResolvedTrace list \<times> dw_resolver" where
  "resolve_all_dw cxa_demangle dwfl_begin st [] = ([], st)"
| "resolve_all_dw cxa_demangle dwfl_begin st (t # ts) =
     (let (r, st1) = resolve_dw cxa_demangle dwfl_begin st t;
          (rs, st2) = resolve_all_dw cxa_demangle dwfl_begin st1 ts
      in (r # rs, st2))"

text \<open>
  For the worked example: a process in which the first call of \<^verbatim>\<open>dwfl_begin\<close> returns
  a null session and any later call would return a session that knows one module.
\<close>

definition demo_dwfl :: dwfl where
  "demo_dwfl =
     \<lparr>dwfl_linux_proc_report = 0,
      dwfl_addrmodule = (\<lambda>a. Some
        \<lparr>dwfl_module_name = Some ''/bin/app'',
         dwfl_module_addrname = (\<lambda>a. Some ''main''),
         dwfl_module_addrdie = (\<lambda>a. None),
         dwfl_module_cus = []\<rparr>)\<rparr>"

definition demo_dwfl_begin :: "nat \<Rightarrow> dwfl option" where
  "demo_dwfl_begin n = (if n = 0 then None else Some demo_dwfl)"

section \<open>The libdwarf backend: \<^verbatim>\<open>TraceResolverLinuxImpl<trace_resolver_tag::libdwarf>\<close>\<close>

subsection \<open>What libelf, libdwarf and the dynamic linker return\<close>

text \<open>
  The libraries are outside the program: what their calls return is data of the model,
  named after the calls. \<open>None\<close> stands for every result other than \<^verbatim>\<open>DW_DLV_OK\<close>
  (or for a null pointer).

  A line record \<^verbatim>\<open>Dwarf_Line\<close>.
\<close>

record dwarf_line =
  dwarf_lineaddr :: "address option"
  dwarf_linesrc :: "string option"
  dwarf_lineno :: "64 word option"
  dwarf_lineoff_b :: "64 word option"

text \<open>
  A debug information entry \<^verbatim>\<open>Dwarf_Die\<close>. \<^verbatim>\<open>dwarf_tag\<close> is taken to succeed.
  \<open>dwarf_highpc_b\<close> is the value with the flag
  \<^verbatim>\<open>return_class == DW_FORM_CLASS_CONSTANT\<close>. The fields \<open>at_...\<close> are the attributes
  as the program reads them:
  \<^item> \<open>at_ranges\<close>: the list \<^verbatim>\<open>dwarf_get_ranges_a\<close> returns for \<^verbatim>\<open>DW_AT_ranges\<close> when
    \<^verbatim>\<open>dwarf_attr\<close>, \<^verbatim>\<open>dwarf_global_formref\<close> and that call succeed;
  \<^item> \<open>at_declaration\<close>, \<open>at_artificial\<close>: the flag, when \<^verbatim>\<open>dwarf_attr\<close> and
    \<^verbatim>\<open>dwarf_formflag\<close> succeed;
  \<^item> \<open>at_type\<close>, \<open>at_abstract_origin\<close>, \<open>at_specification\<close>: the offset
    \<^verbatim>\<open>dwarf_global_formref\<close> returns; \<open>at_specification_cu\<close>: the offset
    \<^verbatim>\<open>dwarf_formref\<close> returns for \<^verbatim>\<open>DW_AT_specification\<close>, relative to the unit;
  \<^item> \<open>at_linkage_name\<close>, \<open>at_MIPS_linkage_name\<close>: \<open>None\<close> when \<^verbatim>\<open>dwarf_attr\<close>
    fails, \<open>Some None\<close> when \<^verbatim>\<open>dwarf_formstring\<close> fails on the attribute;
  \<^item> \<open>at_call_file\<close>: \<open>None\<close> when \<^verbatim>\<open>dwarf_attr\<close> fails, otherwise the index,
    0 when \<^verbatim>\<open>dwarf_formudata\<close> fails; \<open>at_call_line\<close>, \<open>at_call_column\<close>: the
    value when both calls succeed;
  \<^item> \<open>dwarf_hasattr_signature\<close>: the flag of \<^verbatim>\<open>dwarf_hasattr\<close> for
    \<^verbatim>\<open>DW_AT_signature\<close>, \<open>None\<close> when the call fails; \<open>at_signature\<close>: the eight
    bytes \<^verbatim>\<open>dwarf_formsig8\<close> returns.
  For the entry of a compilation unit, \<open>dwarf_srcfiles\<close> is its file table and
  \<open>dwarf_srclines_b\<close> its line table: \<open>None\<close> when \<^verbatim>\<open>dwarf_srclines_b\<close> fails,
  \<open>Some None\<close> when \<^verbatim>\<open>dwarf_srclines_from_linecontext\<close> fails.
  \<open>dwarf_siblingof_error\<close> says that \<^verbatim>\<open>dwarf_siblingof\<close> on this entry returns
  \<^verbatim>\<open>DW_DLV_ERROR\<close>; the entries after it in the list of children are then never
  reached.
\<close>

record die_attrs =
  dwarf_tag :: dw_tag
  dwarf_diename :: "string option"
  dwarf_dieoffset :: "nat option"
  dwarf_die_CU_offset :: "nat option"
  dwarf_lowpc :: "address option"
  dwarf_highpc_b :: "(address \<times> bool) option"
  at_ranges :: "(address \<times> address) list option"
  at_declaration :: "bool option"
  at_artificial :: "bool option"
  at_type :: "nat option"
  at_abstract_origin :: "nat option"
  at_specification :: "nat option"
  at_specification_cu :: "nat option"
  at_linkage_name :: "string option option"
  at_MIPS_linkage_name :: "string option option"
  at_call_file :: "64 word option"
  at_call_line :: "64 word option"
  at_call_column :: "64 word option"
  dwarf_hasattr_signature :: "bool option"
  at_signature :: "8 word list option"
  dwarf_srcfiles :: "string list option"
  dwarf_srclines_b :: "dwarf_line list option option"
  dwarf_siblingof_error :: bool

datatype die = Die (attrs: die_attrs) (children: "die list")

text \<open>
  The handle \<^verbatim>\<open>Dwarf_Debug\<close>: \<^verbatim>\<open>dwarf_offdie\<close>; the address ranges,
  \<open>None\<close> when \<^verbatim>\<open>dwarf_get_aranges\<close> fails, otherwise the offset of the unit that
  \<^verbatim>\<open>dwarf_get_arange\<close> and \<^verbatim>\<open>dwarf_get_cu_die_offset\<close> give for an address; the
  units of \<^verbatim>\<open>.debug_info\<close> in the order of \<^verbatim>\<open>dwarf_next_cu_header_d\<close>, each as
  the entry \<^verbatim>\<open>dwarf_siblingof(dwarf, 0, ...)\<close> returns for it; and the type units,
  each with its signature and the entry \<^verbatim>\<open>dwarf_siblingof_b\<close> returns for it.
  Every loop over the unit headers runs the iterator of libdwarf to its end, so each
  loop starts at the first unit.
\<close>

record dwarf_debug =
  dwarf_offdie :: "nat \<Rightarrow> die option"
  dwarf_get_aranges :: "(address \<Rightarrow> nat option) option"
  dwarf_cu_headers :: "die option list"
  dwarf_type_units :: "(8 word list \<times> die option) list"

text \<open>
  An ELF descriptor \<^verbatim>\<open>Elf *\<close>. A symbol: whether its type is \<^verbatim>\<open>STT_FUNC\<close>, its
  value, and what \<^verbatim>\<open>elf_strptr\<close> returns for its name. Section data
  \<^verbatim>\<open>Elf_Data\<close>: the size, the buffer read as a C string and the buffer read as an
  array of symbols. A section: its header (\<open>None\<close> when \<^verbatim>\<open>elf_getshdr\<close> returns
  null), the name \<^verbatim>\<open>elf_strptr\<close> returns for it, and \<^verbatim>\<open>elf_getdata\<close>. The fields of
  the header are taken 64 bits wide for both ELF classes. \<open>dwarf_elf_init\<close> is the
  debug handle that call returns on the descriptor.
\<close>

datatype sh_type = SHT_SYMTAB | SHT_DYNSYM | SHT_OTHER

datatype elf_class = ELFCLASS32 | ELFCLASS64 | ELFCLASSNONE

record elf_sym =
  st_type_is_func :: bool
  st_value :: address
  st_name_strptr :: "string option"

record elf_data =
  d_size :: nat
  d_buf_string :: string
  d_buf_symbols :: "elf_sym list"

record elf_shdr =
  sh_type :: sh_type
  sh_size :: "64 word"
  sh_entsize :: "64 word"
  sh_link :: "32 word"

record elf_scn =
  elf_getshdr :: "elf_shdr option"
  elf_strptr_name :: "string option"
  elf_getdata :: "elf_data option"

record elf =
  elf_getident :: "elf_class option"
  elf_getshdrnum_ok :: bool
  elf_getshdrstrndx_ok :: bool
  elf_sections :: "elf_scn list"
  dwarf_elf_init :: "dwarf_debug option"

text \<open>
  \<^verbatim>\<open>Dl_info\<close> with the load address of the link map, as \<^verbatim>\<open>dladdr1\<close> fills them.
\<close>

record dl_info =
  dli_fname :: "string option"
  dli_sname :: "string option"
  l_addr :: address

text \<open>
  The process and its file system: \<^verbatim>\<open>dladdr1\<close> (\<open>None\<close> when it returns 0),
  \<^verbatim>\<open>open\<close> (the descriptor, negative when it fails), \<^verbatim>\<open>elf_begin\<close> on a
  descriptor, \<^verbatim>\<open>elf_version(EV_CURRENT) != EV_NONE\<close>, and \<^verbatim>\<open>__cxa_demangle\<close>. The
  program is taken as built with glibc and with a libelf that supports 64-bit objects.
\<close>

record os =
  dladdr1 :: "address \<Rightarrow> dl_info option"
  os_open :: "string \<Rightarrow> int"
  elf_begin :: "int \<Rightarrow> elf option"
  elf_version_ok :: bool
  cxa_demangle :: "string \<Rightarrow> string option"

subsection \<open>The members of the resolver\<close>

text \<open>
  \<^verbatim>\<open>details::handle<int, ...>\<close>: the value and the flag \<^verbatim>\<open>_empty\<close>.
  \<^verbatim>\<open>reset\<close> stores the value and marks the handle empty when the value is 0. The
  handles of pointers are options: \<open>None\<close> is the empty handle.
\<close>

record int_handle =
  h_val :: int
  h_empty :: bool

definition int_handle_default :: int_handle where
  "int_handle_default = \<lparr>h_val = 0, h_empty = True\<rparr>"

definition int_handle_reset :: "int \<Rightarrow> int_handle" where
  "int_handle_reset new_val = \<lparr>h_val = new_val, h_empty = (new_val = 0)\<rparr>"

text \<open>
  The two \<^verbatim>\<open>std::map\<close>s that are searched with \<^verbatim>\<open>lower_bound\<close> are lists of pairs
  in ascending order of the keys, without repeated keys. \<open>map_lower_bound\<close> is the
  position of the first pair whose key is not below \<open>k\<close>, the length of the list
  (\<^verbatim>\<open>end()\<close>) when there is none. \<open>map_insert\<close> is \<^verbatim>\<open>insert\<close>, which keeps the pair
  of a key already present; \<open>map_assign\<close> is \<^verbatim>\<open>m[k] = v\<close>, which replaces it.
\<close>

fun map_lower_bound :: "('k::linorder \<times> 'v) list \<Rightarrow> 'k \<Rightarrow> nat" where
  "map_lower_bound [] k = 0"
| "map_lower_bound ((k', v) # m) k = (if k \<le> k' then 0 else Suc (map_lower_bound m k))"

fun map_insert :: "('k::linorder \<times> 'v) list \<Rightarrow> 'k \<Rightarrow> 'v \<Rightarrow> ('k \<times> 'v) list" where
  "map_insert [] k v = [(k, v)]"
| "map_insert ((k', v') # m) k v =
     (if k < k' then (k, v) # (k', v') # m
      else if k = k' then (k', v') # m
      else (k', v') # map_insert m k v)"

fun map_assign :: "('k::linorder \<times> 'v) list \<Rightarrow> 'k \<Rightarrow> 'v \<Rightarrow> ('k \<times> 'v) list" where
  "map_assign [] k v = [(k, v)]"
| "map_assign ((k', v') # m) k v =
     (if k < k' then (k, v) # (k', v') # m
      else if k = k' then (k, v) # m
      else (k', v') # map_assign m k v)"

text \<open>\<^verbatim>\<open>struct die_cache_entry\<close>, \<^verbatim>\<open>isEmpty\<close>, and \<^verbatim>\<open>struct dwarf_fileobject\<close>.
  \<open>line_context\<close> says that the pointer is not null. \<open>current_cu\<close> points into
  \<open>die_cache\<close>, whose entries are never erased: it is the key of the entry.\<close>

record die_cache_entry =
  spec_section :: "nat \<rightharpoonup> nat"
  line_section :: "(address \<times> nat) list"
  line_buffer :: "dwarf_line list option"
  line_count :: nat
  line_context :: bool

definition die_cache_entry_default :: die_cache_entry where
  "die_cache_entry_default =
     \<lparr>spec_section = Map.empty, line_section = [], line_buffer = None, line_count = 0,
      line_context = False\<rparr>"

definition isEmpty :: "die_cache_entry \<Rightarrow> bool" where
  "isEmpty de \<longleftrightarrow>
     line_buffer de = None \<or> line_count de = 0 \<or> \<not> line_context de \<or> line_section de = []"

record dwarf_fileobject =
  file_handle :: int_handle
  elf_handle :: "elf option"
  dwarf_handle :: "dwarf_debug option"
  symbol_cache :: "(address \<times> string) list"
  die_cache :: "nat \<rightharpoonup> die_cache_entry"
  current_cu :: "nat option"

definition dwarf_fileobject_default :: dwarf_fileobject where
  "dwarf_fileobject_default =
     \<lparr>file_handle = int_handle_default, elf_handle = None, dwarf_handle = None,
      symbol_cache = [], die_cache = Map.empty, current_cu = None\<rparr>"

text \<open>
  The resolver: \<^verbatim>\<open>argv0_\<close> and \<^verbatim>\<open>exec_path_\<close> of \<^verbatim>\<open>TraceResolverLinuxBase\<close>,
  \<^verbatim>\<open>_dwarf_loaded\<close> and \<^verbatim>\<open>_fobj_dwarf_map\<close>. \<open>opened\<close> is a log of the effect
  \<^verbatim>\<open>open(path, O_RDONLY)\<close>: the paths, oldest first. The program keeps no such log.
\<close>

record dwarf_resolver =
  argv0 :: string
  exec_path :: string
  dwarf_loaded :: bool
  fobj_dwarf_map :: "string \<rightharpoonup> dwarf_fileobject"
  opened :: "string list"

definition dwarf_resolver_init :: "string \<Rightarrow> string \<Rightarrow> dwarf_resolver" where
  "dwarf_resolver_init a e =
     \<lparr>argv0 = a, exec_path = e, dwarf_loaded = False, fobj_dwarf_map = Map.empty, opened = []\<rparr>"

subsection \<open>Loading an object: \<^verbatim>\<open>load_object_with_dwarf\<close>\<close>

text \<open>
  A function of the program that does not return a value returns \<open>None\<close> in the model:
  it traps (a division by zero, a read through a null pointer or past the end of a
  buffer, a \<^verbatim>\<open>std::string\<close> built from a null pointer) or it recurses for ever.

  The macro \<^verbatim>\<open>ELF_GET_DATA\<close> has three ways out: \<^verbatim>\<open>return r\<close>, a trap, or the end
  of the macro with the state it computed.
\<close>

datatype 'a flow = Return_r | Trap | Go 'a

text \<open>The variables of the loop over the sections.\<close>

record elf_scan =
  debuglink :: string
  symbol_section :: "elf_scn option"
  symbol_count :: "64 word"
  symbol_strings :: "64 word"

definition elf_scan_init :: elf_scan where
  "elf_scan_init =
     \<lparr>debuglink = [], symbol_section = None, symbol_count = 0, symbol_strings = 0\<rparr>"

text \<open>
  The \<^verbatim>\<open>while\<close> loop over \<^verbatim>\<open>elf_nextscn\<close>. The quotient
  \<^verbatim>\<open>sh_size / sh_entsize\<close> is computed for every \<^verbatim>\<open>SHT_SYMTAB\<close> section, and for
  a \<^verbatim>\<open>SHT_DYNSYM\<close> section when no symbol section was seen before: with a zero
  \<^verbatim>\<open>sh_entsize\<close> the division traps.
\<close>

fun scan_sections :: "elf_scn list \<Rightarrow> elf_scan \<Rightarrow> elf_scan flow" where
  "scan_sections [] s = Go s"
| "scan_sections (elf_section # rest) s =
     (case elf_getshdr elf_section of
        None \<Rightarrow> Return_r
      | Some section_header \<Rightarrow>
          (case elf_strptr_name elf_section of
             None \<Rightarrow> Return_r
           | Some section_name \<Rightarrow>
               (let s = (if section_name = ''.gnu_debuglink'' then
                           (case elf_getdata elf_section of
                              Some d \<Rightarrow> if d_size d > 0 then s\<lparr>debuglink := d_buf_string d\<rparr> else s
                            | None \<Rightarrow> s)
                         else s)
                in case sh_type section_header of
                     SHT_SYMTAB \<Rightarrow>
                       if sh_entsize section_header = 0 then Trap
                       else scan_sections rest
                              (s\<lparr>symbol_section := Some elf_section,
                                 symbol_count := sh_size section_header div sh_entsize section_header,
                                 symbol_strings := ucast (sh_link section_header)\<rparr>)
                   | SHT_DYNSYM \<Rightarrow>
                       if symbol_section s = None then
                         (if sh_entsize section_header = 0 then Trap
                          else scan_sections rest
                                 (s\<lparr>symbol_section := Some elf_section,
                                    symbol_count := sh_size section_header div sh_entsize section_header,
                                    symbol_strings := ucast (sh_link section_header)\<rparr>))
                       else scan_sections rest s
                   | SHT_OTHER \<Rightarrow> scan_sections rest s)))"

text \<open>
  The \<^verbatim>\<open>for\<close> loop over the symbols: \<open>n\<close> symbols are still to be read from the
  buffer. The name of a function symbol goes through \<^verbatim>\<open>std::string(elf_strptr(...))\<close>
  without a test of the pointer.
\<close>

fun read_symbols ::
  "nat \<Rightarrow> elf_sym list \<Rightarrow> (address \<times> string) list \<Rightarrow> (address \<times> string) list option" where
  "read_symbols 0 buf cache = Some cache"
| "read_symbols (Suc n) [] cache = None"
| "read_symbols (Suc n) (symbol # buf) cache =
     (if st_type_is_func symbol \<and> st_value symbol > 0 then
        (case st_name_strptr symbol of
           None \<Rightarrow> None
         | Some name \<Rightarrow> read_symbols n buf (map_assign cache (st_value symbol) name))
      else read_symbols n buf cache)"

text \<open>
  \<^verbatim>\<open>ELF_GET_DATA\<close> on the descriptor, for the object \<open>r\<close> being filled: the debug
  link it found and \<open>r\<close> with its symbol cache. \<^verbatim>\<open>elf_getdata\<close> of the symbol section
  is read without a test of the pointer.
\<close>

definition ELF_GET_DATA :: "elf \<Rightarrow> dwarf_fileobject \<Rightarrow> (string \<times> dwarf_fileobject) flow" where
  "ELF_GET_DATA e r =
     (case scan_sections (elf_sections e) elf_scan_init of
        Return_r \<Rightarrow> Return_r
      | Trap \<Rightarrow> Trap
      | Go s \<Rightarrow>
          (case symbol_section s of
             None \<Rightarrow> Go (debuglink s, r)
           | Some scn \<Rightarrow>
               if symbol_count s \<noteq> 0 \<and> symbol_strings s \<noteq> 0 then
                 (case elf_getdata scn of
                    None \<Rightarrow> Trap
                  | Some d \<Rightarrow>
                      (case read_symbols (unat (symbol_count s)) (d_buf_symbols d)
                              (symbol_cache r) of
                         None \<Rightarrow> Trap
                       | Some cache \<Rightarrow> Go (debuglink s, r\<lparr>symbol_cache := cache\<rparr>)))
               else Go (debuglink s, r)))"

text \<open>
  The block \<^verbatim>\<open>if (!debuglink.empty())\<close>: the file handle and the ELF descriptor to
  go on with, from those of the object, and the log of \<^verbatim>\<open>open\<close>.
\<close>

definition follow_debuglink ::
  "os \<Rightarrow> string \<Rightarrow> int_handle \<times> elf \<Rightarrow> string list \<Rightarrow> (int_handle \<times> elf) \<times> string list" where
  "follow_debuglink sys link handles log =
     (if link \<noteq> [] then
        (let fd = os_open sys link; log = log @ [link] in
         if fd > 0 then
           (case elf_begin sys fd of
              Some debuglink_elf \<Rightarrow> ((int_handle_reset fd, debuglink_elf), log)
            | None \<Rightarrow> (handles, log))
         else (handles, log))
      else (handles, log))"

text \<open>
  \<^verbatim>\<open>load_object_with_dwarf\<close>. The object \<open>r\<close> is a reference into the map, created
  before the file is opened: at every \<^verbatim>\<open>return r\<close> the map holds \<open>r\<close> as it is then.
\<close>

definition return_r ::
  "dwarf_resolver \<Rightarrow> string \<Rightarrow> dwarf_fileobject \<Rightarrow> (dwarf_fileobject \<times> dwarf_resolver) option" where
  "return_r st filename_object r =
     Some (r, st\<lparr>fobj_dwarf_map := (fobj_dwarf_map st)(filename_object \<mapsto> r)\<rparr>)"

definition load_object_with_dwarf ::
  "os \<Rightarrow> dwarf_resolver \<Rightarrow> string \<Rightarrow> (dwarf_fileobject \<times> dwarf_resolver) option" where
  "load_object_with_dwarf sys st filename_object =
     (let st = st\<lparr>dwarf_loaded := (if \<not> dwarf_loaded st then elf_version_ok sys else True)\<rparr> in
      case fobj_dwarf_map st filename_object of
        Some r \<Rightarrow> Some (r, st)
      | None \<Rightarrow>
          (let r = dwarf_fileobject_default;
               st = st\<lparr>opened := opened st @ [filename_object]\<rparr>;
               file = int_handle_reset (os_open sys filename_object)
           in if h_val file < 0 then return_r st filename_object r
              else case elf_begin sys (h_val file) of
                None \<Rightarrow> return_r st filename_object r
              | Some e \<Rightarrow>
                  (case elf_getident e of
                     None \<Rightarrow> return_r st filename_object r
                   | Some cls \<Rightarrow>
                       if \<not> elf_getshdrnum_ok e then return_r st filename_object r
                       else if \<not> elf_getshdrstrndx_ok e then return_r st filename_object r
                       else
                         (case (if cls = ELFCLASS32 \<or> cls = ELFCLASS64
                                then ELF_GET_DATA e r else Go ([], r)) of
                            Return_r \<Rightarrow> return_r st filename_object r
                          | Trap \<Rightarrow> None
                          | Go (link, r) \<Rightarrow>
                              (let ((file, e), log) =
                                     follow_debuglink sys link (file, e) (opened st);
                                   st = st\<lparr>opened := log\<rparr>
                               in case dwarf_elf_init e of
                                    None \<Rightarrow> return_r st filename_object r
                                  | Some dwarf_debug \<Rightarrow>
                                      return_r st filename_object
                                        (r\<lparr>file_handle := file, elf_handle := Some e,
                                           dwarf_handle := Some dwarf_debug\<rparr>))))))"

subsection \<open>Walking the entries\<close>

text \<open>
  The children a walk with \<^verbatim>\<open>dwarf_child\<close> and \<^verbatim>\<open>dwarf_siblingof\<close> reaches when it
  stops at the first result other than \<^verbatim>\<open>DW_DLV_OK\<close>.
\<close>

fun walked :: "die list \<Rightarrow> die list" where
  "walked [] = []"
| "walked (d # ds) = (if dwarf_siblingof_error (attrs d) then [d] else d # walked ds)"

text \<open>A null \<^verbatim>\<open>Dwarf_Debug\<close>: every call on it fails.\<close>

definition dwarf_debug_null :: dwarf_debug where
  "dwarf_debug_null =
     \<lparr>dwarf_offdie = (\<lambda>off. None), dwarf_get_aranges = None, dwarf_cu_headers = [],
      dwarf_type_units = []\<rparr>"

definition dwarf_handle_get :: "dwarf_fileobject \<Rightarrow> dwarf_debug" where
  "dwarf_handle_get fobj =
     (case dwarf_handle fobj of Some dwarf \<Rightarrow> dwarf | None \<Rightarrow> dwarf_debug_null)"

text \<open>
  \<^verbatim>\<open>get_die_cache\<close>: the cache entry of a unit and the object with the entry in its
  cache and \<^verbatim>\<open>current_cu\<close> set to it. The line index is built with \<^verbatim>\<open>insert\<close>, so
  the first line of an address stays; the specification map is built from the top-level
  entries of the unit.
\<close>

fun add_lines :: "dwarf_line list \<Rightarrow> nat \<Rightarrow> (address \<times> nat) list \<Rightarrow> (address \<times> nat) list" where
  "add_lines [] i m = m"
| "add_lines (l # ls) i m =
     add_lines ls (Suc i)
       (map_insert m (case dwarf_lineaddr l of Some a \<Rightarrow> a | None \<Rightarrow> 0) i)"

fun add_specs :: "die list \<Rightarrow> (nat \<rightharpoonup> nat) \<Rightarrow> (nat \<rightharpoonup> nat)" where
  "add_specs [] m = m"
| "add_specs (d # ds) m =
     add_specs ds
       (if dwarf_tag (attrs d) = DW_TAG_subprogram \<or>
           dwarf_tag (attrs d) = DW_TAG_inlined_subroutine then
          (case at_specification_cu (attrs d) of
             Some spec_offset \<Rightarrow>
               (case dwarf_dieoffset (attrs d) of
                  Some spec_die_offset \<Rightarrow> m(spec_offset \<mapsto> spec_die_offset)
                | None \<Rightarrow> m)
           | None \<Rightarrow> m)
        else m)"

definition new_die_cache_entry :: "die \<Rightarrow> die_cache_entry" where
  "new_die_cache_entry d =
     (let de = die_cache_entry_default;
          de = (case dwarf_srclines_b (attrs d) of
                  None \<Rightarrow> de
                | Some None \<Rightarrow> de\<lparr>line_context := True\<rparr>
                | Some (Some lines) \<Rightarrow>
                    de\<lparr>line_context := True, line_buffer := Some lines,
                       line_count := length lines, line_section := add_lines lines 0 []\<rparr>)
      in de\<lparr>spec_section := add_specs (walked (children d)) Map.empty\<rparr>)"

definition get_die_cache :: "dwarf_fileobject \<Rightarrow> die \<Rightarrow> die_cache_entry \<times> dwarf_fileobject" where
  "get_die_cache fobj d =
     (let die_offset = (case dwarf_dieoffset (attrs d) of Some off \<Rightarrow> off | None \<Rightarrow> 0) in
      case die_cache fobj die_offset of
        Some de \<Rightarrow> (de, fobj\<lparr>current_cu := Some die_offset\<rparr>)
      | None \<Rightarrow>
          (let de = new_die_cache_entry d in
           (de, fobj\<lparr>die_cache := (die_cache fobj)(die_offset \<mapsto> de),
                      current_cu := Some die_offset\<rparr>)))"

text \<open>
  \<^verbatim>\<open>get_referenced_die\<close> and \<^verbatim>\<open>get_referenced_die_name\<close>, on the offset the
  attribute gives (every call in the program passes \<^verbatim>\<open>global = true\<close>).
\<close>

definition get_referenced_die :: "dwarf_debug \<Rightarrow> nat option \<Rightarrow> die option" where
  "get_referenced_die dwarf attr =
     (case attr of Some offset \<Rightarrow> dwarf_offdie dwarf offset | None \<Rightarrow> None)"

definition get_referenced_die_name :: "dwarf_debug \<Rightarrow> nat option \<Rightarrow> string" where
  "get_referenced_die_name dwarf attr =
     (case get_referenced_die dwarf attr of
        Some found_die \<Rightarrow>
          (case dwarf_diename (attrs found_die) of Some name \<Rightarrow> name | None \<Rightarrow> [])
      | None \<Rightarrow> [])"

definition get_spec_die :: "dwarf_fileobject \<Rightarrow> die_attrs \<Rightarrow> die option" where
  "get_spec_die fobj a =
     (let cached =
        (case current_cu fobj of
           None \<Rightarrow> None
         | Some k \<Rightarrow>
             (case die_cache fobj k of
                None \<Rightarrow> None
              | Some cu \<Rightarrow>
                  (case dwarf_die_CU_offset a of
                     None \<Rightarrow> None
                   | Some die_offset \<Rightarrow>
                       (case spec_section cu die_offset of
                          None \<Rightarrow> None
                        | Some off \<Rightarrow> dwarf_offdie (dwarf_handle_get fobj) off))))
      in case cached of
           Some spec_die \<Rightarrow> Some spec_die
         | None \<Rightarrow> get_referenced_die (dwarf_handle_get fobj) (at_abstract_origin a))"

text \<open>
  \<^verbatim>\<open>die_has_pc\<close>. \<open>die_has_pc_own\<close> is the part that reads the entry itself: the
  result, and whether the entry has neither bounds nor ranges, so that the answer is
  the one of its specification entry. The call on that entry is the recursion of the
  program, which need not end when the references form a cycle.
\<close>

definition die_has_pc_own :: "die_attrs \<Rightarrow> address \<Rightarrow> bool \<times> bool" where
  "die_has_pc_own a pc =
     (let ranges_part = (\<lambda>low_pc has_lowpc.
            let has_ranges = (case at_ranges a of Some rs \<Rightarrow> rs \<noteq> [] | None \<Rightarrow> False);
                result = (case at_ranges a of
                            Some rs \<Rightarrow>
                              list_ex (\<lambda>(addr1, addr2).
                                 addr1 \<noteq> 0 \<and> addr1 + low_pc \<le> pc \<and> pc < addr2 + low_pc) rs
                          | None \<Rightarrow> False);
                result = (result \<or> (low_pc \<noteq> 0 \<and> pc = low_pc))
            in (result, \<not> result \<and> \<not> has_lowpc \<and> \<not> has_ranges))
      in case dwarf_lowpc a of
           Some low_pc \<Rightarrow>
             (case dwarf_highpc_b a of
                Some (high_pc, is_constant) \<Rightarrow>
                  (let high_pc = (if is_constant then low_pc + high_pc else high_pc)
                   in (low_pc \<le> pc \<and> pc < high_pc, False))
              | None \<Rightarrow> ranges_part low_pc True)
         | None \<Rightarrow> ranges_part 0 False)"

partial_function (option) die_has_pc :: "dwarf_fileobject \<Rightarrow> die \<Rightarrow> address \<Rightarrow> bool option" where
  "die_has_pc fobj d pc =
     (if snd (die_has_pc_own (attrs d) pc) then
        (case get_spec_die fobj (attrs d) of
           Some spec_die \<Rightarrow> die_has_pc fobj spec_die pc
         | None \<Rightarrow> Some False)
      else Some (fst (die_has_pc_own (attrs d) pc)))"

declare die_has_pc.simps [code]

subsection \<open>Function signatures\<close>

text \<open>\<^verbatim>\<open>get_type\<close>: the names along the chain of first children, joined by \<^verbatim>\<open>::\<close>.\<close>

fun get_type :: "die \<Rightarrow> string \<Rightarrow> string" where
  "get_type (Die a cs) type =
     (let type = (case cs of [] \<Rightarrow> type | child # rest \<Rightarrow> ''::'' @ get_type child type)
      in case dwarf_diename a of
           Some name \<Rightarrow> name @ type
         | None \<Rightarrow> ''<unknown>'' @ type)"

text \<open>
  \<^verbatim>\<open>strncmp(a, b, n) == 0\<close> on two signatures, and a byte printed with
  \<^verbatim>\<open>std::setw(2) << std::hex\<close> and the fill character \<^verbatim>\<open>0\<close>.
\<close>

fun strncmp_eq :: "nat \<Rightarrow> 8 word list \<Rightarrow> 8 word list \<Rightarrow> bool" where
  "strncmp_eq 0 xs ys = True"
| "strncmp_eq (Suc n) (x # xs) (y # ys) = (x = y \<and> (x = 0 \<or> strncmp_eq n xs ys))"
| "strncmp_eq (Suc n) xs ys = (xs = [] \<and> ys = [])"

definition hex2 :: "8 word \<Rightarrow> string" where
  "hex2 b = [''0123456789abcdef'' ! (unat b div 16), ''0123456789abcdef'' ! (unat b mod 16)]"

text \<open>
  \<^verbatim>\<open>get_type_by_signature\<close>. The loop over the type units prepends to \<open>result\<close> the
  type of every unit whose signature matches; \<open>found\<close> is set where such a unit has a
  first entry with a child. The program calls it only on an entry for which
  \<^verbatim>\<open>dwarf_hasattr\<close> reported the attribute.
\<close>

fun type_units_loop ::
  "8 word list \<Rightarrow> (8 word list \<times> die option) list \<Rightarrow> string \<times> bool \<Rightarrow> string \<times> bool" where
  "type_units_loop signature [] rf = rf"
| "type_units_loop signature ((tu_signature, type_cu_die) # tus) (result, found) =
     type_units_loop signature tus
       (if strncmp_eq 8 signature tu_signature then
          (case type_cu_die of
             Some (Die a (child_die # rest)) \<Rightarrow>
               (get_type child_die result, get_type child_die result \<noteq> [])
           | _ \<Rightarrow> (result, found))
        else (result, found))"

definition get_type_by_signature :: "dwarf_debug \<Rightarrow> die_attrs \<Rightarrow> string" where
  "get_type_by_signature dwarf a =
     (case at_signature a of
        None \<Rightarrow> ''<no type signature>''
      | Some signature \<Rightarrow>
          (let (result, found) = type_units_loop signature (dwarf_type_units dwarf) ([], False)
           in if found then result
              else ''<0x'' @ concat (map hex2 (take 8 signature)) @ ''>''))"

text \<open>\<^verbatim>\<open>struct type_context_t\<close> with its constructor; the member \<^verbatim>\<open>text\<close> is
  written \<open>ctx_text\<close>.\<close>

record type_context_t =
  is_const :: bool
  is_typedef :: bool
  has_type :: bool
  has_name :: bool
  ctx_text :: string

definition type_context_new :: type_context_t where
  "type_context_new =
     \<lparr>is_const = False, is_typedef = False, has_type = False, has_name = False, ctx_text = []\<rparr>"

text \<open>\<^verbatim>\<open>text.insert(0, " ")\<close> when the text is not empty, then \<^verbatim>\<open>text.insert(0, s)\<close>.\<close>

definition insert_word :: "string \<Rightarrow> string \<Rightarrow> string" where
  "insert_word s t = s @ (if t \<noteq> [] then '' '' @ t else t)"

text \<open>
  \<^verbatim>\<open>set_parameter_string\<close> on one entry, up to the call of \<^verbatim>\<open>get_referenced_die\<close>:
  first the name of the entry (or the bookkeeping after a typedef), then the
  \<^verbatim>\<open>switch\<close> on the tag, then the \<^verbatim>\<open>const\<close> of an entry that is not one of the
  listed tags.
\<close>

definition set_parameter_string_entry ::
  "dwarf_debug \<Rightarrow> die_attrs \<Rightarrow> type_context_t \<Rightarrow> type_context_t" where
  "set_parameter_string_entry dwarf a context =
     (let context =
            (if \<not> is_typedef context then
               (case dwarf_diename a of
                  Some name \<Rightarrow> context\<lparr>ctx_text := insert_word name (ctx_text context)\<rparr>
                | None \<Rightarrow> context)
             else
               (let context = context\<lparr>is_typedef := False, has_type := True\<rparr>
                in if is_const context
                   then context\<lparr>ctx_text := ''const '' @ ctx_text context, is_const := False\<rparr>
                   else context));
          tag = dwarf_tag a;
          next_type_is_const =
            (if tag = DW_TAG_const_type then True
             else if tag = DW_TAG_typedef then is_const context
             else False);
          is_keyword =
            (tag = DW_TAG_structure_type \<or> tag = DW_TAG_union_type \<or> tag = DW_TAG_class_type \<or>
             tag = DW_TAG_enumeration_type \<or> tag = DW_TAG_const_type \<or>
             tag = DW_TAG_pointer_type \<or> tag = DW_TAG_reference_type \<or>
             tag = DW_TAG_restrict_type \<or> tag = DW_TAG_rvalue_reference_type \<or>
             tag = DW_TAG_volatile_type \<or> tag = DW_TAG_typedef \<or> tag = DW_TAG_base_type \<or>
             tag = DW_TAG_formal_parameter);
          context =
            (if tag = DW_TAG_structure_type \<or> tag = DW_TAG_union_type \<or>
                tag = DW_TAG_class_type \<or> tag = DW_TAG_enumeration_type then
               (let context = context\<lparr>has_type := True\<rparr> in
                case dwarf_hasattr_signature a of
                  None \<Rightarrow> context
                | Some has_attr \<Rightarrow>
                    (let context =
                       (if has_attr then
                          (let type = get_type_by_signature dwarf a;
                               type = (if is_const context then ''const '' @ type else type)
                           in context\<lparr>ctx_text := insert_word type (ctx_text context)\<rparr>)
                        else context)
                     in context\<lparr>is_typedef := (tag = DW_TAG_enumeration_type)\<rparr>))
             else if tag = DW_TAG_pointer_type then context\<lparr>ctx_text := ''*'' @ ctx_text context\<rparr>
             else if tag = DW_TAG_reference_type then context\<lparr>ctx_text := ''&'' @ ctx_text context\<rparr>
             else if tag = DW_TAG_restrict_type then context\<lparr>ctx_text := ''restrict '' @ ctx_text context\<rparr>
             else if tag = DW_TAG_rvalue_reference_type then context\<lparr>ctx_text := ''&&'' @ ctx_text context\<rparr>
             else if tag = DW_TAG_volatile_type then context\<lparr>ctx_text := ''volatile '' @ ctx_text context\<rparr>
             else if tag = DW_TAG_typedef then context\<lparr>is_typedef := True, has_type := True\<rparr>
             else if tag = DW_TAG_base_type then context\<lparr>has_type := True\<rparr>
             else if tag = DW_TAG_formal_parameter then context\<lparr>has_name := True\<rparr>
             else context);
          context = (if \<not> is_keyword \<and> is_const context
                     then context\<lparr>ctx_text := ''const '' @ ctx_text context\<rparr> else context)
      in context\<lparr>is_const := next_type_is_const\<rparr>)"

text \<open>The end of \<^verbatim>\<open>set_parameter_string\<close>, after the recursive call.\<close>

definition set_parameter_string_end :: "type_context_t \<Rightarrow> type_context_t" where
  "set_parameter_string_end context =
     (if \<not> has_type context \<and> has_name context
      then context\<lparr>ctx_text := ''void '' @ ctx_text context, has_type := True\<rparr>
      else context)"

partial_function (option) set_parameter_string ::
  "dwarf_debug \<Rightarrow> die \<Rightarrow> type_context_t \<Rightarrow> type_context_t option" where
  "set_parameter_string dwarf d context =
     (case get_referenced_die dwarf (at_type (attrs d)) of
        Some ref \<Rightarrow>
          Option.bind
            (set_parameter_string dwarf ref (set_parameter_string_entry dwarf (attrs d) context))
            (\<lambda>context. Some (set_parameter_string_end context))
      | None \<Rightarrow>
          Some (set_parameter_string_end (set_parameter_string_entry dwarf (attrs d) context)))"

declare set_parameter_string.simps [code]

text \<open>
  The loop of \<^verbatim>\<open>set_function_parameters\<close> over the children of the entry: the text
  \<open>parameters\<close> so far, extended by every formal parameter that is not artificial.
\<close>

fun parameters_loop :: "dwarf_debug \<Rightarrow> die list \<Rightarrow> string \<Rightarrow> string option" where
  "parameters_loop dwarf [] parameters = Some parameters"
| "parameters_loop dwarf (current_die # ds) parameters =
     (if dwarf_tag (attrs current_die) = DW_TAG_formal_parameter \<and>
         at_artificial (attrs current_die) \<noteq> Some True then
        (case set_parameter_string dwarf current_die type_context_new of
           None \<Rightarrow> None
         | Some context \<Rightarrow>
             parameters_loop dwarf ds
               ((if parameters = [] then ''('' else parameters @ '', '') @ ctx_text context))
      else parameters_loop dwarf ds parameters)"

definition set_function_parameters ::
  "string \<Rightarrow> string list \<Rightarrow> dwarf_fileobject \<Rightarrow> die \<Rightarrow> string option" where
  "set_function_parameters function_name ns fobj d =
     (let dwarf = dwarf_handle_get fobj;
          spec_die = (case get_spec_die fobj (attrs d) of Some s \<Rightarrow> s | None \<Rightarrow> d);
          ns_name = concat (map (\<lambda>n. n @ ''::'') ns);
          function_name = ns_name @ function_name;
          return_type = get_referenced_die_name dwarf (at_type (attrs d));
          return_type = (if return_type = []
                         then get_referenced_die_name dwarf (at_type (attrs spec_die))
                         else return_type);
          function_name = (if return_type \<noteq> [] then return_type @ '' '' @ function_name
                           else function_name)
      in case parameters_loop dwarf (walked (children spec_die)) [] of
           None \<Rightarrow> None
         | Some parameters \<Rightarrow>
             Some (function_name @ (if parameters = [] then ''('' else parameters) @ '')''))"

subsection \<open>The search for the function and its inliners\<close>

definition die_call_file :: "die_attrs \<Rightarrow> die \<Rightarrow> string" where
  "die_call_file a cu_die =
     (case at_call_file a of
        None \<Rightarrow> []
      | Some file_index \<Rightarrow>
          if file_index = 0 then []
          else (case dwarf_srcfiles (attrs cu_die) of
                  None \<Rightarrow> []
                | Some srcfiles \<Rightarrow>
                    if length srcfiles > 0 \<and> unat file_index \<le> length srcfiles
                    then srcfiles ! (unat file_index - 1) else []))"

text \<open>
  \<^verbatim>\<open>inliners_search_cb::operator()\<close>: the callback holds references to the trace, to
  the object and to the entry of the unit; it returns the trace.
\<close>

definition inliners_search_cb ::
  "os \<Rightarrow> dwarf_fileobject \<Rightarrow> die \<Rightarrow> die \<Rightarrow> string list \<Rightarrow> ResolvedTrace
     \<Rightarrow> ResolvedTrace option" where
  "inliners_search_cb sys fobj cu_die d ns trace =
     (let dwarf = dwarf_handle_get fobj; a = attrs d in
      if dwarf_tag a = DW_TAG_subprogram then
        (if func (source trace) \<noteq> [] then Some trace
         else
           (let name = (case dwarf_diename a of
                          Some name \<Rightarrow> name
                        | None \<Rightarrow>
                            (let n = get_referenced_die_name dwarf (at_abstract_origin a)
                             in if n = [] then get_referenced_die_name dwarf (at_specification a)
                                else n))
            in case set_function_parameters name ns fobj d of
                 None \<Rightarrow> None
               | Some name \<Rightarrow>
                   (let trace = trace\<lparr>source := (source trace)\<lparr>func := name\<rparr>\<rparr> in
                    if object_function trace = [] then
                      (case (case at_linkage_name a of
                               Some l \<Rightarrow> Some l
                             | None \<Rightarrow> at_MIPS_linkage_name a) of
                         None \<Rightarrow> Some trace
                       | Some None \<Rightarrow> Some trace
                       | Some (Some linkage) \<Rightarrow>
                           Some (trace\<lparr>object_function := demangle (cxa_demangle sys) linkage\<rparr>))
                    else Some trace)))
      else if dwarf_tag a = DW_TAG_inlined_subroutine then
        (let name = (case dwarf_diename a of
                       Some name \<Rightarrow> name
                     | None \<Rightarrow> get_referenced_die_name dwarf (at_abstract_origin a))
         in case set_function_parameters name ns fobj d of
              None \<Rightarrow> None
            | Some name \<Rightarrow>
                (let sloc = SourceLoc_unknown\<lparr>func := name\<rparr>;
                     file = die_call_file a cu_die;
                     sloc = (if file \<noteq> [] then sloc\<lparr>filename := file\<rparr> else sloc);
                     sloc = (case at_call_line a of
                               Some number \<Rightarrow> sloc\<lparr>line := ucast number\<rparr> | None \<Rightarrow> sloc);
                     sloc = (case at_call_column a of
                               Some number \<Rightarrow> sloc\<lparr>col := ucast number\<rparr> | None \<Rightarrow> sloc)
                 in Some (trace\<lparr>inliners := inliners trace @ [sloc]\<rparr>)))
      else Some trace)"

text \<open>
  \<^verbatim>\<open>find_fundie_by_pc\<close>. The entry found below a child is assigned from \<^verbatim>\<open>die_mem\<close>,
  which the call received by value and is still null: a match below a child ends the
  search with a null result.
\<close>

fun find_fundie_by_pc :: "dwarf_fileobject \<Rightarrow> die \<Rightarrow> address \<Rightarrow> die option option"
  and find_fundie_loop :: "dwarf_fileobject \<Rightarrow> die list \<Rightarrow> address \<Rightarrow> die option option" where
  "find_fundie_by_pc fobj (Die a cs) pc = find_fundie_loop fobj cs pc"
| "find_fundie_loop fobj [] pc = Some None"
| "find_fundie_loop fobj (current_die # rest) pc =
     (case (if dwarf_tag (attrs current_die) = DW_TAG_subprogram \<or>
               dwarf_tag (attrs current_die) = DW_TAG_inlined_subroutine
            then die_has_pc fobj current_die pc else Some False) of
        None \<Rightarrow> None
      | Some True \<Rightarrow> Some (Some current_die)
      | Some False \<Rightarrow>
          (case (if at_declaration (attrs current_die) \<noteq> Some True
                 then find_fundie_by_pc fobj current_die pc else Some None) of
             None \<Rightarrow> None
           | Some (Some indie) \<Rightarrow> Some None
           | Some None \<Rightarrow>
               if dwarf_siblingof_error (attrs current_die) then Some None
               else find_fundie_loop fobj rest pc))"

text \<open>
  \<^verbatim>\<open>deep_first_search_by_pc\<close>, with the callback \<open>cb\<close> on the trace. The result is
  \<^verbatim>\<open>branch_has_pc\<close>, the namespace stack as the call leaves it, and the trace.
  \<open>dfs_loop\<close> is the \<^verbatim>\<open>for\<close> loop from the entry \<open>current_die\<close> on, with the value of
  \<^verbatim>\<open>branch_has_pc\<close> of the iteration before.
\<close>

fun deep_first_search_by_pc ::
    "dwarf_fileobject \<Rightarrow> die \<Rightarrow> address \<Rightarrow> string list
       \<Rightarrow> (die \<Rightarrow> string list \<Rightarrow> ResolvedTrace \<Rightarrow> ResolvedTrace option) \<Rightarrow> ResolvedTrace
       \<Rightarrow> (bool \<times> string list \<times> ResolvedTrace) option"
  and dfs_loop ::
    "dwarf_fileobject \<Rightarrow> die list \<Rightarrow> address \<Rightarrow> bool \<Rightarrow> string list
       \<Rightarrow> (die \<Rightarrow> string list \<Rightarrow> ResolvedTrace \<Rightarrow> ResolvedTrace option) \<Rightarrow> ResolvedTrace
       \<Rightarrow> (bool \<times> string list \<times> ResolvedTrace) option" where
  "deep_first_search_by_pc fobj (Die a cs) pc ns cb trace = dfs_loop fobj cs pc False ns cb trace"
| "dfs_loop fobj [] pc branch_has_pc ns cb trace = Some (branch_has_pc, ns, trace)"
| "dfs_loop fobj (current_die # rest) pc branch_has_pc ns cb trace =
     (let tag = dwarf_tag (attrs current_die);
          has_namespace = (tag = DW_TAG_namespace \<or> tag = DW_TAG_class_type);
          ns = (if has_namespace
                then ns @ [case dwarf_diename (attrs current_die) of
                             Some ns_name \<Rightarrow> ns_name | None \<Rightarrow> ''<unknown>'']
                else ns);
          declaration = (tag \<noteq> DW_TAG_class_type \<and> at_declaration (attrs current_die) = Some True)
      in case (if \<not> declaration then deep_first_search_by_pc fobj current_die pc ns cb trace
               else Some (branch_has_pc, ns, trace)) of
           None \<Rightarrow> None
         | Some (branch_has_pc, ns, trace) \<Rightarrow>
             (case (if \<not> branch_has_pc then die_has_pc fobj current_die pc
                    else Some branch_has_pc) of
                None \<Rightarrow> None
              | Some branch_has_pc \<Rightarrow>
                  (case (if branch_has_pc then cb current_die ns trace else Some trace) of
                     None \<Rightarrow> None
                   | Some trace \<Rightarrow>
                       if dwarf_siblingof_error (attrs current_die) then Some (False, ns, trace)
                       else dfs_loop fobj rest pc branch_has_pc
                              (if has_namespace then butlast ns else ns) cb trace)))"

subsection \<open>\<^verbatim>\<open>find_die\<close> and \<^verbatim>\<open>resolve\<close>\<close>

text \<open>
  The second loop of \<^verbatim>\<open>find_die\<close>: the first unit whose own entry has the address.
  The third loop: the first unit in which \<^verbatim>\<open>find_fundie_by_pc\<close> finds an entry.
\<close>

fun find_die_cu_loop :: "dwarf_fileobject \<Rightarrow> die option list \<Rightarrow> address \<Rightarrow> die option option" where
  "find_die_cu_loop fobj [] address = Some None"
| "find_die_cu_loop fobj (None # cus) address = find_die_cu_loop fobj cus address"
| "find_die_cu_loop fobj (Some returnDie # cus) address =
     (if dwarf_tag (attrs returnDie) = DW_TAG_compile_unit then
        (case die_has_pc fobj returnDie address of
           None \<Rightarrow> None
         | Some True \<Rightarrow> Some (Some returnDie)
         | Some False \<Rightarrow> find_die_cu_loop fobj cus address)
      else find_die_cu_loop fobj cus address)"

fun find_die_fundie_loop ::
  "dwarf_fileobject \<Rightarrow> die option list \<Rightarrow> address \<Rightarrow> die option option" where
  "find_die_fundie_loop fobj [] address = Some None"
| "find_die_fundie_loop fobj (None # cus) address = find_die_fundie_loop fobj cus address"
| "find_die_fundie_loop fobj (Some cudie # cus) address =
     (case find_fundie_by_pc fobj cudie address of
        None \<Rightarrow> None
      | Some (Some resultDie) \<Rightarrow> Some (Some cudie)
      | Some None \<Rightarrow> find_die_fundie_loop fobj cus address)"

definition find_die :: "dwarf_fileobject \<Rightarrow> address \<Rightarrow> die option option" where
  "find_die fobj address =
     (let dwarf = dwarf_handle_get fobj;
          by_aranges = (case dwarf_get_aranges dwarf of
                          None \<Rightarrow> None
                        | Some arange \<Rightarrow>
                            (case arange address of
                               None \<Rightarrow> None
                             | Some cu_die_offset \<Rightarrow> dwarf_offdie dwarf cu_die_offset))
      in case by_aranges of
           Some returnDie \<Rightarrow> Some (Some returnDie)
         | None \<Rightarrow>
             (case find_die_cu_loop fobj (dwarf_cu_headers dwarf) address of
                None \<Rightarrow> None
              | Some (Some returnDie) \<Rightarrow> Some (Some returnDie)
              | Some None \<Rightarrow> find_die_fundie_loop fobj (dwarf_cu_headers dwarf) address))"

text \<open>
  \<^verbatim>\<open>resolve_exec_path\<close>: the name to open (what \<^verbatim>\<open>dli_fname\<close> is changed to) and
  the name to display.
\<close>

definition resolve_exec_path :: "dwarf_resolver \<Rightarrow> string \<Rightarrow> string \<times> string" where
  "resolve_exec_path st fname =
     (if fname = argv0 st then (''/proc/self/exe'', exec_path st) else (fname, fname))"

text \<open>
  The lookup of \<^verbatim>\<open>resolve\<close> in the symbol cache, made when no function name is known
  yet: the symbol at \<^verbatim>\<open>lower_bound(address)\<close>, or the one before it when that one has
  another address and is not the first.
\<close>

definition symbol_cache_lookup :: "(address \<times> string) list \<Rightarrow> address \<Rightarrow> string option" where
  "symbol_cache_lookup cache address =
     (let it = map_lower_bound cache address in
      if it < length cache then
        (let it = (if fst (cache ! it) \<noteq> address \<and> it \<noteq> 0 then it - 1 else it)
         in Some (snd (cache ! it)))
      else None)"

text \<open>
  The lookup of \<^verbatim>\<open>resolve\<close> in the line index: the position in the line buffer, or
  \<open>None\<close> where \<^verbatim>\<open>resolve\<close> returns the trace (the address is below the first entry,
  or above the last).
\<close>

definition line_section_lookup :: "(address \<times> nat) list \<Rightarrow> address \<Rightarrow> nat option" where
  "line_section_lookup ls address =
     (let it = map_lower_bound ls address in
      if it < length ls then
        (if fst (ls ! it) \<noteq> address then
           (if it = 0 then None else Some (snd (ls ! (it - 1))))
         else Some (snd (ls ! it)))
      else None)"

text \<open>
  \<^verbatim>\<open>resolve\<close> from the call of \<^verbatim>\<open>find_die\<close> on, for the object \<open>fobj\<close> that was
  loaded and the address relative to the module: the trace and the object, whose cache
  of units the call may extend.
\<close>

definition resolve_in_object ::
  "os \<Rightarrow> dwarf_fileobject \<Rightarrow> address \<Rightarrow> ResolvedTrace
     \<Rightarrow> (ResolvedTrace \<times> dwarf_fileobject) option" where
  "resolve_in_object sys fobj address trace =
     (case find_die fobj address of
        None \<Rightarrow> None
      | Some None \<Rightarrow> Some (trace, fobj)
      | Some (Some d) \<Rightarrow>
          (let (die_object, fobj) = get_die_cache fobj d in
           if isEmpty die_object then Some (trace, fobj)
           else
             (case line_section_lookup (line_section die_object) address of
                None \<Rightarrow> Some (trace, fobj)
              | Some i \<Rightarrow>
                  (case line_buffer die_object of
                     None \<Rightarrow> None
                   | Some buffer \<Rightarrow>
                       if i < length buffer then
                         (let l = buffer ! i;
                              src = source trace;
                              src = (case dwarf_linesrc l of
                                       Some f \<Rightarrow> src\<lparr>filename := f\<rparr> | None \<Rightarrow> src);
                              src = src\<lparr>line := (case dwarf_lineno l of
                                                   Some number \<Rightarrow> ucast number | None \<Rightarrow> 0)\<rparr>;
                              src = src\<lparr>col := (case dwarf_lineoff_b l of
                                                  Some number \<Rightarrow> ucast number | None \<Rightarrow> 0)\<rparr>;
                              trace = trace\<lparr>source := src\<rparr>
                          in case deep_first_search_by_pc fobj d address []
                                    (inliners_search_cb sys fobj d) trace of
                               None \<Rightarrow> None
                             | Some (branch_has_pc, ns, trace) \<Rightarrow> Some (trace, fobj))
                       else None))))"

text \<open>
  \<^verbatim>\<open>resolve\<close>. The object is a reference into \<^verbatim>\<open>_fobj_dwarf_map\<close>: what the call
  adds to its cache of units is in the map afterwards.
\<close>

definition resolve_dwarf ::
  "os \<Rightarrow> dwarf_resolver \<Rightarrow> ResolvedTrace \<Rightarrow> (ResolvedTrace \<times> dwarf_resolver) option" where
  "resolve_dwarf sys st trace =
     (case dladdr1 sys (addr trace) of
        None \<Rightarrow> Some (trace, st)
      | Some symbol_info \<Rightarrow>
          (let trace = (case dli_sname symbol_info of
                          Some sname \<Rightarrow>
                            trace\<lparr>object_function := demangle (cxa_demangle sys) sname\<rparr>
                        | None \<Rightarrow> trace)
           in case dli_fname symbol_info of
                None \<Rightarrow> Some (trace, st)
              | Some fname \<Rightarrow>
                  (let (fname, display) = resolve_exec_path st fname;
                       trace = trace\<lparr>object_filename := display\<rparr>
                   in case load_object_with_dwarf sys st fname of
                        None \<Rightarrow> None
                      | Some (fobj, st) \<Rightarrow>
                          if dwarf_handle fobj = None then Some (trace, st)
                          else
                            (let address = addr trace - l_addr symbol_info;
                                 trace = (if object_function trace = [] then
                                            (case symbol_cache_lookup (symbol_cache fobj) address of
                                               Some name \<Rightarrow>
                                                 trace\<lparr>object_function :=
                                                          demangle (cxa_demangle sys) name\<rparr>
                                             | None \<Rightarrow> trace)
                                          else trace)
                             in case resolve_in_object sys fobj address trace of
                                  None \<Rightarrow> None
                                | Some (trace, fobj) \<Rightarrow>
                                    Some (trace,
                                      st\<lparr>fobj_dwarf_map := (fobj_dwarf_map st)(fname \<mapsto> fobj)\<rparr>)))))"

section \<open>Debug information for the worked examples\<close>

text \<open>An entry with a tag and nothing else: every call on it but \<^verbatim>\<open>dwarf_tag\<close> fails.\<close>

definition plain_entry :: "dw_tag \<Rightarrow> die_attrs" where
  "plain_entry t =
     \<lparr>dwarf_tag = t, dwarf_diename = None, dwarf_dieoffset = None, dwarf_die_CU_offset = None,
      dwarf_lowpc = None, dwarf_highpc_b = None, at_ranges = None, at_declaration = None,
      at_artificial = None, at_type = None, at_abstract_origin = None,
      at_specification = None, at_specification_cu = None, at_linkage_name = None,
      at_MIPS_linkage_name = None, at_call_file = None, at_call_line = None,
      at_call_column = None, dwarf_hasattr_signature = Some False, at_signature = None,
      dwarf_srcfiles = None, dwarf_srclines_b = None, dwarf_siblingof_error = False\<rparr>"

text \<open>
  The types of the fixture \<^verbatim>\<open>int foo(const char*, MyClass&)\<close>, as a compiler lays
  them out: the base types \<^verbatim>\<open>int\<close> and \<^verbatim>\<open>char\<close>, the class \<^verbatim>\<open>MyClass\<close>, and
  the chains pointer, const, \<^verbatim>\<open>char\<close> and reference, \<^verbatim>\<open>MyClass\<close>. With
  \<open>with_const = False\<close> the pointer refers to \<^verbatim>\<open>char\<close> itself: the types of
  \<^verbatim>\<open>int foo(char*, MyClass&)\<close>.
\<close>

definition foo_types :: "bool \<Rightarrow> nat \<Rightarrow> die option" where
  "foo_types with_const off =
     (if off = 96 then Some (Die ((plain_entry DW_TAG_base_type)\<lparr>dwarf_diename := Some ''int''\<rparr>) [])
      else if off = 112 then
        Some (Die ((plain_entry DW_TAG_pointer_type)
                     \<lparr>at_type := Some (if with_const then 120 else 128)\<rparr>) [])
      else if off = 120 then Some (Die ((plain_entry DW_TAG_const_type)\<lparr>at_type := Some 128\<rparr>) [])
      else if off = 128 then Some (Die ((plain_entry DW_TAG_base_type)\<lparr>dwarf_diename := Some ''char''\<rparr>) [])
      else if off = 144 then Some (Die ((plain_entry DW_TAG_reference_type)\<lparr>at_type := Some 160\<rparr>) [])
      else if off = 160 then Some (Die ((plain_entry DW_TAG_class_type)\<lparr>dwarf_diename := Some ''MyClass''\<rparr>) [])
      else None)"

definition foo_dwarf :: "bool \<Rightarrow> dwarf_debug" where
  "foo_dwarf with_const = dwarf_debug_null\<lparr>dwarf_offdie := foo_types with_const\<rparr>"

definition foo_fobj :: "bool \<Rightarrow> dwarf_fileobject" where
  "foo_fobj with_const = dwarf_fileobject_default\<lparr>dwarf_handle := Some (foo_dwarf with_const)\<rparr>"

text \<open>
  The entry of \<^verbatim>\<open>foo\<close> with its two formal parameters; \<open>p1\<close> and \<open>p2\<close> are their
  names, \<open>None\<close> for a parameter the source does not name.
\<close>

definition foo_die :: "string option \<Rightarrow> string option \<Rightarrow> die" where
  "foo_die p1 p2 =
     Die ((plain_entry DW_TAG_subprogram)
            \<lparr>dwarf_diename := Some ''foo'', dwarf_lowpc := Some 4096,
             dwarf_highpc_b := Some (64, True), at_type := Some 96\<rparr>)
       [Die ((plain_entry DW_TAG_formal_parameter)\<lparr>dwarf_diename := p1, at_type := Some 112\<rparr>) [],
        Die ((plain_entry DW_TAG_formal_parameter)\<lparr>dwarf_diename := p2, at_type := Some 144\<rparr>) []]"

text \<open>
  A program \<^verbatim>\<open>/bin/app\<close>, loaded at \<^verbatim>\<open>0x400000\<close>. Its unit \<^verbatim>\<open>app.c\<close> has one
  function \<^verbatim>\<open>outer\<close> at \<^verbatim>\<open>0x1000\<close> to \<^verbatim>\<open>0x1100\<close>; the call of \<^verbatim>\<open>mid\<close> is
  inlined into it at \<^verbatim>\<open>0x1020\<close> to \<^verbatim>\<open>0x1060\<close> (called at line 12 of
  \<^verbatim>\<open>app.c\<close>), and the call of \<^verbatim>\<open>inner\<close> is inlined into that at \<^verbatim>\<open>0x1030\<close> to
  \<^verbatim>\<open>0x1040\<close> (called at line 5 of \<^verbatim>\<open>inl.h\<close>). The inlined entries take their names
  from the abstract entries at the offsets 200 and 300. The line table starts at
  \<^verbatim>\<open>0x1010\<close>.
\<close>

definition app_inner :: die where
  "app_inner =
     Die ((plain_entry DW_TAG_inlined_subroutine)
            \<lparr>dwarf_dieoffset := Some 80, dwarf_die_CU_offset := Some 69,
             dwarf_lowpc := Some 4144, dwarf_highpc_b := Some (16, True),
             at_abstract_origin := Some 300, at_call_file := Some 2,
             at_call_line := Some 5, at_call_column := Some 9\<rparr>) []"

definition app_mid :: die where
  "app_mid =
     Die ((plain_entry DW_TAG_inlined_subroutine)
            \<lparr>dwarf_dieoffset := Some 60, dwarf_die_CU_offset := Some 49,
             dwarf_lowpc := Some 4128, dwarf_highpc_b := Some (64, True),
             at_abstract_origin := Some 200, at_call_file := Some 1,
             at_call_line := Some 12, at_call_column := Some 3\<rparr>) [app_inner]"

definition app_outer :: die where
  "app_outer =
     Die ((plain_entry DW_TAG_subprogram)
            \<lparr>dwarf_diename := Some ''outer'', dwarf_dieoffset := Some 40,
             dwarf_die_CU_offset := Some 29,
             dwarf_lowpc := Some 4096, dwarf_highpc_b := Some (256, True)\<rparr>) [app_mid]"

definition app_lines :: "dwarf_line list" where
  "app_lines =
     [\<lparr>dwarf_lineaddr = Some 4112, dwarf_linesrc = Some ''app.c'', dwarf_lineno = Some 11,
       dwarf_lineoff_b = Some 1\<rparr>,
      \<lparr>dwarf_lineaddr = Some 4128, dwarf_linesrc = Some ''inl.h'', dwarf_lineno = Some 4,
       dwarf_lineoff_b = Some 2\<rparr>,
      \<lparr>dwarf_lineaddr = Some 4144, dwarf_linesrc = Some ''inl.h'', dwarf_lineno = Some 20,
       dwarf_lineoff_b = Some 7\<rparr>,
      \<lparr>dwarf_lineaddr = Some 4160, dwarf_linesrc = Some ''app.c'', dwarf_lineno = Some 13,
       dwarf_lineoff_b = Some 1\<rparr>]"

definition app_cu :: die where
  "app_cu =
     Die ((plain_entry DW_TAG_compile_unit)
            \<lparr>dwarf_diename := Some ''app.c'', dwarf_dieoffset := Some 11,
             dwarf_die_CU_offset := Some 0,
             dwarf_lowpc := Some 4096, dwarf_highpc_b := Some (256, True),
             dwarf_srcfiles := Some [''app.c'', ''inl.h''],
             dwarf_srclines_b := Some (Some app_lines)\<rparr>) [app_outer]"

definition app_dwarf :: dwarf_debug where
  "app_dwarf =
     \<lparr>dwarf_offdie = (\<lambda>off.
        if off = 200 then Some (Die ((plain_entry DW_TAG_subprogram)\<lparr>dwarf_diename := Some ''mid''\<rparr>) [])
        else if off = 300 then Some (Die ((plain_entry DW_TAG_subprogram)\<lparr>dwarf_diename := Some ''inner''\<rparr>) [])
        else None),
      dwarf_get_aranges = None,
      dwarf_cu_headers = [Some app_cu],
      dwarf_type_units = []\<rparr>"

definition app_elf :: elf where
  "app_elf =
     \<lparr>elf_getident = Some ELFCLASS64, elf_getshdrnum_ok = True, elf_getshdrstrndx_ok = True,
      elf_sections =
        [\<lparr>elf_getshdr = Some \<lparr>sh_type = SHT_SYMTAB, sh_size = 24, sh_entsize = 24, sh_link = 2\<rparr>,
          elf_strptr_name = Some ''.symtab'',
          elf_getdata = Some \<lparr>d_size = 24, d_buf_string = [],
            d_buf_symbols = [\<lparr>st_type_is_func = True, st_value = 4096,
                              st_name_strptr = Some ''outer''\<rparr>]\<rparr>\<rparr>],
      dwarf_elf_init = Some app_dwarf\<rparr>"

definition app_os :: os where
  "app_os =
     \<lparr>dladdr1 = (\<lambda>a. if 4198400 \<le> a \<and> a < 4198656
                      then Some \<lparr>dli_fname = Some ''/bin/app'', dli_sname = Some ''outer'',
                                 l_addr = 4194304\<rparr>
                      else None),
      os_open = (\<lambda>path. if path = ''/bin/app'' then 3 else -1),
      elf_begin = (\<lambda>fd. if fd = 3 then Some app_elf else None),
      elf_version_ok = True,
      cxa_demangle = (\<lambda>name. None)\<rparr>"

definition app_resolver :: dwarf_resolver where
  "app_resolver = dwarf_resolver_init ''app'' ''/bin/app''"

text \<open>
  The object of \<^verbatim>\<open>/bin/app\<close> as \<^verbatim>\<open>resolve\<close> has it when it searches the unit: loaded,
  and with the cache entry of the unit.
\<close>

definition app_fobj :: dwarf_fileobject where
  "app_fobj =
     (case load_object_with_dwarf app_os app_resolver ''/bin/app'' of
        Some (fobj, st) \<Rightarrow> snd (get_die_cache fobj app_cu)
      | None \<Rightarrow> dwarf_fileobject_default)"

section \<open>The signature of a function, as the specification words it\<close>

text \<open>
  The formal parameters of an entry that are not marked artificial, the texts of a list
  joined by a comma and a space, and the signature: the return type and a space when
  there is a return type, the names of the enclosing namespaces each followed by
  \<^verbatim>\<open>::\<close>, the name, and the parameter texts in parentheses.
\<close>

definition declared_parameters :: "die \<Rightarrow> die list" where
  "declared_parameters d =
     filter (\<lambda>c. dwarf_tag (attrs c) = DW_TAG_formal_parameter \<and>
                 at_artificial (attrs c) \<noteq> Some True)
       (walked (children d))"

fun comma_join :: "string list \<Rightarrow> string" where
  "comma_join [] = []"
| "comma_join [x] = x"
| "comma_join (x # y # ys) = x @ '', '' @ comma_join (y # ys)"

definition signature_text :: "string \<Rightarrow> string list \<Rightarrow> string \<Rightarrow> string list \<Rightarrow> string" where
  "signature_text return_type ns name params =
     (if return_type = [] then [] else return_type @ '' '') @
     concat (map (\<lambda>n. n @ ''::'') ns) @ name @ ''('' @ comma_join params @ '')''"

text \<open>
  A declared type without qualifiers: a named type, or a pointer, reference, rvalue
  reference, restrict or volatile modifier of one. \<open>type_at dwarf off ty\<close> says that the
  entry at offset \<open>off\<close> and the entries its \<^verbatim>\<open>DW_AT_type\<close> chain leads to describe
  \<open>ty\<close>. \<open>type_text ty rest\<close> is the text of \<open>ty\<close> in front of the text \<open>rest\<close>: each
  modifier directly in front of what follows, the name of the type in front of it all,
  separated by a space from what follows.
\<close>

datatype ctype =
    Named string
  | Pointer ctype
  | Reference ctype
  | Rvalue_reference ctype
  | Restrict ctype
  | Volatile ctype

definition modifier_at :: "dwarf_debug \<Rightarrow> nat \<Rightarrow> dw_tag \<Rightarrow> nat \<Rightarrow> bool" where
  "modifier_at dwarf off t target \<longleftrightarrow>
     (case dwarf_offdie dwarf off of
        None \<Rightarrow> False
      | Some d \<Rightarrow> dwarf_tag (attrs d) = t \<and> dwarf_diename (attrs d) = None \<and>
                  at_type (attrs d) = Some target)"

fun type_at :: "dwarf_debug \<Rightarrow> nat \<Rightarrow> ctype \<Rightarrow> bool" where
  "type_at dwarf off (Named n) =
     (case dwarf_offdie dwarf off of
        None \<Rightarrow> False
      | Some d \<Rightarrow>
          (dwarf_tag (attrs d) = DW_TAG_base_type \<or> dwarf_tag (attrs d) = DW_TAG_class_type \<or>
           dwarf_tag (attrs d) = DW_TAG_structure_type \<or> dwarf_tag (attrs d) = DW_TAG_union_type) \<and>
          dwarf_diename (attrs d) = Some n \<and> at_type (attrs d) = None \<and>
          dwarf_hasattr_signature (attrs d) = Some False)"
| "type_at dwarf off (Pointer ty) =
     (case dwarf_offdie dwarf off of
        None \<Rightarrow> False
      | Some d \<Rightarrow>
          (case at_type (attrs d) of
             None \<Rightarrow> False
           | Some target \<Rightarrow> modifier_at dwarf off DW_TAG_pointer_type target \<and> type_at dwarf target ty))"
| "type_at dwarf off (Reference ty) =
     (case dwarf_offdie dwarf off of
        None \<Rightarrow> False
      | Some d \<Rightarrow>
          (case at_type (attrs d) of
             None \<Rightarrow> False
           | Some target \<Rightarrow> modifier_at dwarf off DW_TAG_reference_type target \<and> type_at dwarf target ty))"
| "type_at dwarf off (Rvalue_reference ty) =
     (case dwarf_offdie dwarf off of
        None \<Rightarrow> False
      | Some d \<Rightarrow>
          (case at_type (attrs d) of
             None \<Rightarrow> False
           | Some target \<Rightarrow>
               modifier_at dwarf off DW_TAG_rvalue_reference_type target \<and> type_at dwarf target ty))"
| "type_at dwarf off (Restrict ty) =
     (case dwarf_offdie dwarf off of
        None \<Rightarrow> False
      | Some d \<Rightarrow>
          (case at_type (attrs d) of
             None \<Rightarrow> False
           | Some target \<Rightarrow> modifier_at dwarf off DW_TAG_restrict_type target \<and> type_at dwarf target ty))"
| "type_at dwarf off (Volatile ty) =
     (case dwarf_offdie dwarf off of
        None \<Rightarrow> False
      | Some d \<Rightarrow>
          (case at_type (attrs d) of
             None \<Rightarrow> False
           | Some target \<Rightarrow> modifier_at dwarf off DW_TAG_volatile_type target \<and> type_at dwarf target ty))"

fun type_text :: "ctype \<Rightarrow> string \<Rightarrow> string" where
  "type_text (Named n) rest = n @ (if rest \<noteq> [] then '' '' @ rest else rest)"
| "type_text (Pointer ty) rest = type_text ty (''*'' @ rest)"
| "type_text (Reference ty) rest = type_text ty (''&'' @ rest)"
| "type_text (Rvalue_reference ty) rest = type_text ty (''&&'' @ rest)"
| "type_text (Restrict ty) rest = type_text ty (''restrict '' @ rest)"
| "type_text (Volatile ty) rest = type_text ty (''volatile '' @ rest)"

section \<open>The path to an address in the tree of entries\<close>

text \<open>
  The words of the walk. An entry is skipped as a declaration when it is not a class
  and carries a true \<^verbatim>\<open>DW_AT_declaration\<close>. The signature of an entry can be built when
  \<^verbatim>\<open>set_function_parameters\<close> returns on it (its result depends on the name and the
  namespaces passed, whether it returns does not).
\<close>

definition is_declaration :: "die_attrs \<Rightarrow> bool" where
  "is_declaration a \<longleftrightarrow> dwarf_tag a \<noteq> DW_TAG_class_type \<and> at_declaration a = Some True"

definition signature_ends :: "dwarf_fileobject \<Rightarrow> die \<Rightarrow> bool" where
  "signature_ends fobj d \<longleftrightarrow> set_function_parameters [] [] fobj d \<noteq> None"

text \<open>
  An entry off the path: neither it nor an entry below it has the address, no walk
  fails in it, and where it is a declaration it is not an inlined call (and its
  signature can be built when it is a function).
\<close>

fun off_path :: "dwarf_fileobject \<Rightarrow> address \<Rightarrow> die \<Rightarrow> bool" where
  "off_path fobj pc (Die a cs) =
     (\<not> dwarf_siblingof_error a \<and> die_has_pc fobj (Die a cs) pc = Some False \<and>
      (if is_declaration a
       then dwarf_tag a \<noteq> DW_TAG_inlined_subroutine \<and>
            (dwarf_tag a = DW_TAG_subprogram \<longrightarrow> signature_ends fobj (Die a cs))
       else list_all (off_path fobj pc) cs))"

text \<open>
  An entry on the path: the walk descends into it, and where it is a function or an
  inlined call it has the address and its signature can be built.
\<close>

definition path_entry :: "dwarf_fileobject \<Rightarrow> address \<Rightarrow> die \<Rightarrow> bool" where
  "path_entry fobj pc d \<longleftrightarrow>
     \<not> dwarf_siblingof_error (attrs d) \<and> \<not> is_declaration (attrs d) \<and>
     (if dwarf_tag (attrs d) = DW_TAG_subprogram \<or>
         dwarf_tag (attrs d) = DW_TAG_inlined_subroutine
      then die_has_pc fobj d pc = Some True \<and> signature_ends fobj d
      else die_has_pc fobj d pc \<noteq> None)"

text \<open>
  A path from a list of sibling entries down the tree, given by the position of the
  entry taken at each level; every entry beside the path is off the path.
\<close>

fun pc_path :: "dwarf_fileobject \<Rightarrow> address \<Rightarrow> die list \<Rightarrow> nat list \<Rightarrow> bool" where
  "pc_path fobj pc cs [] = list_all (off_path fobj pc) cs"
| "pc_path fobj pc cs (i # p) =
     (i < length cs \<and> list_all (off_path fobj pc) (take i cs) \<and>
      list_all (off_path fobj pc) (drop (Suc i) cs) \<and>
      path_entry fobj pc (cs ! i) \<and> pc_path fobj pc (children (cs ! i)) p)"

text \<open>
  The namespace stack inside an entry, and the source location of an inlined call: its
  signature, and the file, line and column of the call site.
\<close>

definition ns_inside :: "string list \<Rightarrow> die_attrs \<Rightarrow> string list" where
  "ns_inside ns a =
     (if dwarf_tag a = DW_TAG_namespace \<or> dwarf_tag a = DW_TAG_class_type
      then ns @ [case dwarf_diename a of Some n \<Rightarrow> n | None \<Rightarrow> ''<unknown>'']
      else ns)"

definition call_site :: "dwarf_fileobject \<Rightarrow> die \<Rightarrow> string list \<Rightarrow> die \<Rightarrow> SourceLoc" where
  "call_site fobj cu_die ns d =
     \<lparr>func = the (set_function_parameters
               (case dwarf_diename (attrs d) of
                  Some name \<Rightarrow> name
                | None \<Rightarrow> get_referenced_die_name (dwarf_handle_get fobj)
                            (at_abstract_origin (attrs d)))
               ns fobj d),
      filename = die_call_file (attrs d) cu_die,
      line = (case at_call_line (attrs d) of Some number \<Rightarrow> ucast number | None \<Rightarrow> 0),
      col = (case at_call_column (attrs d) of Some number \<Rightarrow> ucast number | None \<Rightarrow> 0)\<rparr>"

text \<open>The inlined calls on a path, the outermost first.\<close>

fun path_inliners ::
  "dwarf_fileobject \<Rightarrow> die \<Rightarrow> string list \<Rightarrow> die list \<Rightarrow> nat list \<Rightarrow> SourceLoc list" where
  "path_inliners fobj cu_die ns cs [] = []"
| "path_inliners fobj cu_die ns cs (i # p) =
     (if dwarf_tag (attrs (cs ! i)) = DW_TAG_inlined_subroutine
      then [call_site fobj cu_die (ns_inside ns (attrs (cs ! i))) (cs ! i)] else []) @
     path_inliners fobj cu_die (ns_inside ns (attrs (cs ! i))) (children (cs ! i)) p"

text \<open>
  The line table of a unit covers an address when the lookup of \<^verbatim>\<open>resolve\<close> in the
  line index that \<^verbatim>\<open>get_die_cache\<close> builds for the unit finds a line: the address is
  not below the first entry of the table and not above the last.
\<close>

definition line_table_covers :: "die \<Rightarrow> address \<Rightarrow> bool" where
  "line_table_covers d address \<longleftrightarrow>
     line_section_lookup (line_section (new_die_cache_entry d)) address \<noteq> None"

subsection \<open>Objects for the loader\<close>

text \<open>
  \<^verbatim>\<open>/bin/app\<close> stripped of its debug information: the symbol table is there,
  \<^verbatim>\<open>dwarf_elf_init\<close> fails.
\<close>

definition stripped_elf :: elf where
  "stripped_elf = app_elf\<lparr>dwarf_elf_init := None\<rparr>"

definition stripped_os :: os where
  "stripped_os = app_os\<lparr>elf_begin := (\<lambda>fd. if fd = 3 then Some stripped_elf else None)\<rparr>"

text \<open>
  \<^verbatim>\<open>/bin/split\<close>, a stripped object with the symbol \<^verbatim>\<open>f\<close> and a section
  \<^verbatim>\<open>.gnu_debuglink\<close> that names \<^verbatim>\<open>app.debug\<close>; and \<^verbatim>\<open>app.debug\<close>, which has the
  debug information of \<^verbatim>\<open>/bin/app\<close> and a symbol table of its own, with the symbol
  \<^verbatim>\<open>g\<close>.
\<close>

definition symtab_section :: "address \<Rightarrow> string \<Rightarrow> elf_scn" where
  "symtab_section a name =
     \<lparr>elf_getshdr = Some \<lparr>sh_type = SHT_SYMTAB, sh_size = 24, sh_entsize = 24, sh_link = 2\<rparr>,
      elf_strptr_name = Some ''.symtab'',
      elf_getdata = Some \<lparr>d_size = 24, d_buf_string = [],
        d_buf_symbols = [\<lparr>st_type_is_func = True, st_value = a,
                          st_name_strptr = Some name\<rparr>]\<rparr>\<rparr>"

definition split_elf :: elf where
  "split_elf =
     \<lparr>elf_getident = Some ELFCLASS64, elf_getshdrnum_ok = True, elf_getshdrstrndx_ok = True,
      elf_sections =
        [\<lparr>elf_getshdr = Some \<lparr>sh_type = SHT_OTHER, sh_size = 16, sh_entsize = 0, sh_link = 0\<rparr>,
          elf_strptr_name = Some ''.gnu_debuglink'',
          elf_getdata = Some \<lparr>d_size = 16, d_buf_string = ''app.debug'', d_buf_symbols = []\<rparr>\<rparr>,
         symtab_section 4096 ''f''],
      dwarf_elf_init = None\<rparr>"

definition debug_elf :: elf where
  "debug_elf =
     \<lparr>elf_getident = Some ELFCLASS64, elf_getshdrnum_ok = True, elf_getshdrstrndx_ok = True,
      elf_sections = [symtab_section 8192 ''g''],
      dwarf_elf_init = Some app_dwarf\<rparr>"

definition split_os :: os where
  "split_os =
     \<lparr>dladdr1 = (\<lambda>a. if 4198400 \<le> a \<and> a < 4198656
                      then Some \<lparr>dli_fname = Some ''/bin/split'', dli_sname = None,
                                 l_addr = 4194304\<rparr>
                      else None),
      os_open = (\<lambda>path. if path = ''/bin/split'' then 3
                         else if path = ''app.debug'' then 4 else -1),
      elf_begin = (\<lambda>fd. if fd = 3 then Some split_elf
                         else if fd = 4 then Some debug_elf else None),
      elf_version_ok = True,
      cxa_demangle = (\<lambda>name. None)\<rparr>"

text \<open>
  \<^verbatim>\<open>/bin/zero\<close>, an object whose symbol table section has the entry size 0 in its
  header.
\<close>

definition zero_elf :: elf where
  "zero_elf =
     \<lparr>elf_getident = Some ELFCLASS64, elf_getshdrnum_ok = True, elf_getshdrstrndx_ok = True,
      elf_sections =
        [\<lparr>elf_getshdr = Some \<lparr>sh_type = SHT_SYMTAB, sh_size = 24, sh_entsize = 0, sh_link = 2\<rparr>,
          elf_strptr_name = Some ''.symtab'',
          elf_getdata = Some \<lparr>d_size = 24, d_buf_string = [], d_buf_symbols = []\<rparr>\<rparr>],
      dwarf_elf_init = None\<rparr>"

definition zero_os :: os where
  "zero_os =
     \<lparr>dladdr1 = (\<lambda>a. if 4198400 \<le> a \<and> a < 4198656
                      then Some \<lparr>dli_fname = Some ''/bin/zero'', dli_sname = Some ''main'',
                                 l_addr = 4194304\<rparr>
                      else None),
      os_open = (\<lambda>path. if path = ''/bin/zero'' then 3 else -1),
      elf_begin = (\<lambda>fd. if fd = 3 then Some zero_elf else None),
      elf_version_ok = True,
      cxa_demangle = (\<lambda>name. None)\<rparr>"

text \<open>
  \<^verbatim>\<open>/bin/cut\<close>, an object that was truncated: the header of its symbol table section
  is there, the data of the section is not, and \<^verbatim>\<open>elf_getdata\<close> returns null for it.
\<close>

definition cut_elf :: elf where
  "cut_elf =
     \<lparr>elf_getident = Some ELFCLASS64, elf_getshdrnum_ok = True, elf_getshdrstrndx_ok = True,
      elf_sections =
        [\<lparr>elf_getshdr = Some \<lparr>sh_type = SHT_SYMTAB, sh_size = 24, sh_entsize = 24, sh_link = 2\<rparr>,
          elf_strptr_name = Some ''.symtab'',
          elf_getdata = None\<rparr>],
      dwarf_elf_init = None\<rparr>"

definition cut_os :: os where
  "cut_os =
     \<lparr>dladdr1 = (\<lambda>a. if 4198400 \<le> a \<and> a < 4198656
                      then Some \<lparr>dli_fname = Some ''/bin/cut'', dli_sname = Some ''main'',
                                 l_addr = 4194304\<rparr>
                      else None),
      os_open = (\<lambda>path. if path = ''/bin/cut'' then 3 else -1),
      elf_begin = (\<lambda>fd. if fd = 3 then Some cut_elf else None),
      elf_version_ok = True,
      cxa_demangle = (\<lambda>name. None)\<rparr>"

section \<open>Files whose symbol tables can be read\<close>

text \<open>
  A section does not stop the loader when it is no symbol table (or its header cannot be
  read, where the loader returns), or when its header has an entry size other than 0,
  \<^verbatim>\<open>elf_getdata\<close> gives its data, the data holds the symbols that the header
  announces, and every symbol has a name in the string table.
\<close>

definition symbol_has_name :: "elf_sym \<Rightarrow> bool" where
  "symbol_has_name symbol \<longleftrightarrow> st_name_strptr symbol \<noteq> None"

definition symbol_table_readable :: "elf_scn \<Rightarrow> bool" where
  "symbol_table_readable scn \<longleftrightarrow>
     (case elf_getshdr scn of
        None \<Rightarrow> True
      | Some h \<Rightarrow>
          sh_type h = SHT_OTHER \<or>
          (sh_entsize h \<noteq> 0 \<and>
           (case elf_getdata scn of
              None \<Rightarrow> False
            | Some d \<Rightarrow>
                unat (sh_size h div sh_entsize h) \<le> length (d_buf_symbols d) \<and>
                list_all symbol_has_name (d_buf_symbols d))))"

definition symbol_tables_readable :: "elf \<Rightarrow> bool" where
  "symbol_tables_readable e \<longleftrightarrow> list_all symbol_table_readable (elf_sections e)"

text \<open>
  What holds of the variables of the loop over the sections, in a file whose symbol
  tables can be read: the symbol section it chose has its data and its symbols.
\<close>

definition scan_inv :: "elf_scan \<Rightarrow> bool" where
  "scan_inv s \<longleftrightarrow>
     (\<forall>scn. symbol_section s = Some scn \<longrightarrow>
        (\<exists>d. elf_getdata scn = Some d \<and> unat (symbol_count s) \<le> length (d_buf_symbols d) \<and>
             list_all symbol_has_name (d_buf_symbols d)))"

text \<open>
  The failures of a load before the symbols are read: the file does not open, it is no
  ELF object (\<^verbatim>\<open>elf_begin\<close> or \<^verbatim>\<open>elf_getident\<close> fails), or its sections cannot be
  walked (the number of sections or the index of the string section is not given, or
  the header or the name of a section cannot be read).
\<close>

definition fails_before_symbols :: "os \<Rightarrow> string \<Rightarrow> bool" where
  "fails_before_symbols sys path \<longleftrightarrow>
     os_open sys path < 0 \<or>
     (case elf_begin sys (os_open sys path) of
        None \<Rightarrow> True
      | Some e \<Rightarrow>
          elf_getident e = None \<or> \<not> elf_getshdrnum_ok e \<or> \<not> elf_getshdrstrndx_ok e \<or>
          ((elf_getident e = Some ELFCLASS32 \<or> elf_getident e = Some ELFCLASS64) \<and>
           scan_sections (elf_sections e) elf_scan_init = Return_r))"

section \<open>Properties of the facade\<close>

lemma resolve_loop_loop_from:
  "length addresses < 2 ^ 32 \<Longrightarrow> unat i \<le> length addresses \<Longrightarrow>
   resolve_loop B addresses i s = Some (loop_from B addresses (unat i) s)"
proof (induction "length addresses - unat i" arbitrary: i s)
  case 0
  then have "\<not> unat i < length addresses" by simp
  then show ?case
    by (subst resolve_loop.simps, subst loop_from.simps) simp
next
  case (Suc n)
  then have lt: "unat i < length addresses" by simp
  have u: "unat (i + 1) = Suc (unat i)"
    using lt Suc.prems(1) by (simp add: unat_word_ariths)
  have "resolve_loop B addresses (i + 1) (resolve_step B addresses (unat i) s)
        = Some (loop_from B addresses (unat (i + 1)) (resolve_step B addresses (unat i) s))"
    using Suc lt u by (intro Suc.hyps(1)) simp_all
  then show ?case using lt u
    by (subst resolve_loop.simps, subst loop_from.simps) simp
qed

lemma map_le_Some: "m \<subseteq>\<^sub>m m' \<Longrightarrow> m k = Some v \<Longrightarrow> m' k = Some v"
  by (metis domI map_le_def)

text \<open>What one step of the loop does to the result vector, the cache and the log.\<close>

lemma resolve_step_cached:
  "locs st (addresses ! i) = Some v \<Longrightarrow>
   resolve_step B addresses i (st, ret) = (st, ret[i := v])"
  by (simp add: resolve_step_def)

lemma resolve_step_miss:
  "locs st (addresses ! i) = None \<Longrightarrow>
   resolve_step B addresses i (st, ret) =
     (st\<lparr>resolver := snd (backend_resolve B (resolver st) (ResolvedTrace_of (addresses ! i) i)),
         locs := (locs st)(addresses ! i \<mapsto>
            source (fst (backend_resolve B (resolver st) (ResolvedTrace_of (addresses ! i) i)))),
         calls := calls st @ [(ResolvedTrace_of (addresses ! i) i,
            fst (backend_resolve B (resolver st) (ResolvedTrace_of (addresses ! i) i)))]\<rparr>,
      ret[i := source (fst (backend_resolve B (resolver st) (ResolvedTrace_of (addresses ! i) i)))])"
  by (simp add: resolve_step_def Let_def split: prod.splits)


lemma resolve_step_props:
  assumes "i < length ret" "resolve_step B addresses i (st, ret) = (st', ret')"
  shows "length ret' = length ret"
    and "locs st \<subseteq>\<^sub>m locs st'"
    and "locs st' (addresses ! i) = Some (ret' ! i)"
    and "\<forall>j. j \<noteq> i \<longrightarrow> ret' ! j = ret ! j"
  using assms
  by (cases "locs st (addresses ! i)";
      auto simp: resolve_step_cached resolve_step_miss map_le_def)+

lemma addr_ResolvedTrace_of [simp]: "addr (ResolvedTrace_of a i) = a"
  by (simp add: ResolvedTrace_of_def)

lemma cache_grows_refl: "cache_grows P st st"
  by (simp add: cache_grows_def)

lemma cache_grows_resolver [simp]:
  "cache_grows P (st\<lparr>resolver := r\<rparr>) st' = cache_grows P st st'"
  by (simp add: cache_grows_def)

lemma cache_grows_mono:
  assumes "cache_grows P st st'" "\<And>c. P c \<Longrightarrow> Q c"
  shows "cache_grows Q st st'"
proof -
  from assms(1) obtain cs where cs: "calls st' = calls st @ cs"
    "distinct (map (\<lambda>c. addr (fst c)) cs)"
    "dom (locs st') = dom (locs st) \<union> (\<lambda>c. addr (fst c)) ` set cs"
    "dom (locs st) \<inter> (\<lambda>c. addr (fst c)) ` set cs = {}"
    "\<forall>c \<in> set cs. locs st' (addr (fst c)) = Some (source (snd c)) \<and> P c"
    unfolding cache_grows_def by blast
  have "\<forall>c \<in> set cs. locs st' (addr (fst c)) = Some (source (snd c)) \<and> Q c"
    using cs(5) assms(2) by simp
  then have "\<exists>xs. calls st' = calls st @ xs \<and>
        distinct (map (\<lambda>c. addr (fst c)) xs) \<and>
        dom (locs st') = dom (locs st) \<union> (\<lambda>c. addr (fst c)) ` set xs \<and>
        dom (locs st) \<inter> (\<lambda>c. addr (fst c)) ` set xs = {} \<and>
        (\<forall>c \<in> set xs. locs st' (addr (fst c)) = Some (source (snd c)) \<and> Q c)"
    using cs(1-4) by (intro exI[of _ cs] conjI)
  moreover have "locs st \<subseteq>\<^sub>m locs st'" using assms(1) by (simp add: cache_grows_def)
  ultimately show ?thesis unfolding cache_grows_def by simp
qed

lemma cache_grows_trans:
  assumes "cache_grows P st1 st2" "cache_grows P st2 st3"
  shows "cache_grows P st1 st3"
proof -
  from assms(1) obtain cs where cs: "calls st2 = calls st1 @ cs"
    "distinct (map (\<lambda>c. addr (fst c)) cs)"
    "dom (locs st2) = dom (locs st1) \<union> (\<lambda>c. addr (fst c)) ` set cs"
    "dom (locs st1) \<inter> (\<lambda>c. addr (fst c)) ` set cs = {}"
    "\<forall>c \<in> set cs. locs st2 (addr (fst c)) = Some (source (snd c)) \<and> P c"
    unfolding cache_grows_def by blast
  from assms(2) obtain ds where ds: "calls st3 = calls st2 @ ds"
    "distinct (map (\<lambda>c. addr (fst c)) ds)"
    "dom (locs st3) = dom (locs st2) \<union> (\<lambda>c. addr (fst c)) ` set ds"
    "dom (locs st2) \<inter> (\<lambda>c. addr (fst c)) ` set ds = {}"
    "\<forall>c \<in> set ds. locs st3 (addr (fst c)) = Some (source (snd c)) \<and> P c"
    unfolding cache_grows_def by blast
  have le12: "locs st1 \<subseteq>\<^sub>m locs st2" and le23: "locs st2 \<subseteq>\<^sub>m locs st3"
    using assms by (simp_all add: cache_grows_def)
  have d: "locs st1 \<subseteq>\<^sub>m locs st3" using le12 le23 by (rule map_le_trans)
  have a: "calls st3 = calls st1 @ (cs @ ds)" using cs(1) ds(1) by simp
  have b: "distinct (map (\<lambda>c. addr (fst c)) (cs @ ds))"
    using cs(2,3) ds(2,4) by auto
  have c: "dom (locs st3) = dom (locs st1) \<union> (\<lambda>c. addr (fst c)) ` set (cs @ ds)"
    using cs(3) ds(3) by auto
  have e: "dom (locs st1) \<inter> (\<lambda>c. addr (fst c)) ` set (cs @ ds) = {}"
    using cs(3,4) ds(4) by auto
  have "\<forall>c \<in> set cs. locs st3 (addr (fst c)) = Some (source (snd c))"
  proof
    fix c assume "c \<in> set cs"
    then have "locs st2 (addr (fst c)) = Some (source (snd c))" using cs(5) by simp
    then show "locs st3 (addr (fst c)) = Some (source (snd c))"
      using le23 by (rule map_le_Some[rotated])
  qed
  then have f: "\<forall>c \<in> set (cs @ ds). locs st3 (addr (fst c)) = Some (source (snd c)) \<and> P c"
    using cs(5) ds(5) by auto
  have "\<exists>xs. calls st3 = calls st1 @ xs \<and>
        distinct (map (\<lambda>c. addr (fst c)) xs) \<and>
        dom (locs st3) = dom (locs st1) \<union> (\<lambda>c. addr (fst c)) ` set xs \<and>
        dom (locs st1) \<inter> (\<lambda>c. addr (fst c)) ` set xs = {} \<and>
        (\<forall>c \<in> set xs. locs st3 (addr (fst c)) = Some (source (snd c)) \<and> P c)"
    using a b c e f by (intro exI[of _ "cs @ ds"] conjI)
  then show ?thesis unfolding cache_grows_def using d by simp
qed

lemma resolve_step_grows:
  assumes "i < length addresses" "resolve_step B addresses i (st, ret) = (st', ret')"
  shows "cache_grows (logged_call B addresses) st st'"
proof (cases "locs st (addresses ! i)")
  case (Some v)
  then show ?thesis using assms by (simp add: resolve_step_cached cache_grows_refl)
next
  case None
  let ?t = "ResolvedTrace_of (addresses ! i) i"
  let ?res = "fst (backend_resolve B (resolver st) ?t)"
  let ?cs = "[(?t, ?res)]"
  have c: "calls st' = calls st @ ?cs"
    and l: "locs st' = (locs st)(addresses ! i \<mapsto> source ?res)"
    using assms(2) None by (auto simp: resolve_step_miss)
  have 1: "locs st \<subseteq>\<^sub>m locs st'" using l None by (auto simp: map_le_def)
  have 2: "distinct (map (\<lambda>c. addr (fst c)) ?cs)" by simp
  have 3: "dom (locs st') = dom (locs st) \<union> (\<lambda>c. addr (fst c)) ` set ?cs"
    using l by simp
  have 4: "dom (locs st) \<inter> (\<lambda>c. addr (fst c)) ` set ?cs = {}"
    using None by auto
  have "logged_call B addresses (?t, ?res)"
    unfolding logged_call_def using assms(1) by auto
  then have 5: "\<forall>c \<in> set ?cs. locs st' (addr (fst c)) = Some (source (snd c))
                  \<and> logged_call B addresses c"
    using l by simp
  have "\<exists>xs. calls st' = calls st @ xs \<and>
        distinct (map (\<lambda>c. addr (fst c)) xs) \<and>
        dom (locs st') = dom (locs st) \<union> (\<lambda>c. addr (fst c)) ` set xs \<and>
        dom (locs st) \<inter> (\<lambda>c. addr (fst c)) ` set xs = {} \<and>
        (\<forall>c \<in> set xs. locs st' (addr (fst c)) = Some (source (snd c))
            \<and> logged_call B addresses c)"
    using c 2 3 4 5 by (intro exI[of _ ?cs] conjI)
  then show ?thesis unfolding cache_grows_def using 1 by simp
qed

lemma loop_from_props:
  assumes "length (snd s) = length addresses"
    and "\<forall>j<i. locs (fst s) (addresses ! j) = Some (snd s ! j)"
  shows "length (snd (loop_from B addresses i s)) = length addresses \<and>
         cache_grows (logged_call B addresses) (fst s) (fst (loop_from B addresses i s)) \<and>
         (\<forall>j<length addresses.
            locs (fst (loop_from B addresses i s)) (addresses ! j)
              = Some (snd (loop_from B addresses i s) ! j))"
  using assms
proof (induction B addresses i s rule: loop_from.induct)
  case (1 B addresses i s)
  show ?case
  proof (cases "i < length addresses")
    case False
    then have "loop_from B addresses i s = s"
      by (subst loop_from.simps) simp
    then show ?thesis using 1(2,3) False
      by (simp add: cache_grows_refl)
  next
    case True
    obtain st ret where s: "s = (st, ret)" by (cases s)
    obtain st' ret' where s': "resolve_step B addresses i s = (st', ret')"
      by (cases "resolve_step B addresses i s")
    have len: "i < length ret" using True 1(2) s by simp
    note p = resolve_step_props[OF len s'[unfolded s]]
    have ext: "cache_grows (logged_call B addresses) st st'"
      using resolve_step_grows[OF True s'[unfolded s]] .
    have pre: "\<forall>j<Suc i. locs st' (addresses ! j) = Some (ret' ! j)"
    proof (intro allI impI)
      fix j assume "j < Suc i"
      show "locs st' (addresses ! j) = Some (ret' ! j)"
      proof (cases "j = i")
        case True then show ?thesis using p(3) by simp
      next
        case False
        then have "j < i" using \<open>j < Suc i\<close> by simp
        then have "locs st (addresses ! j) = Some (ret ! j)" using 1(3) s by simp
        then have "locs st' (addresses ! j) = Some (ret ! j)"
          using p(2) by (rule map_le_Some[rotated])
        then show ?thesis using p(4) False by simp
      qed
    qed
    have ih: "length (snd (loop_from B addresses (Suc i) (st', ret'))) = length addresses \<and>
         cache_grows (logged_call B addresses) st' (fst (loop_from B addresses (Suc i) (st', ret'))) \<and>
         (\<forall>j<length addresses.
            locs (fst (loop_from B addresses (Suc i) (st', ret'))) (addresses ! j)
              = Some (snd (loop_from B addresses (Suc i) (st', ret')) ! j))"
      using 1(1)[OF True] p(1) 1(2) pre s s' by simp
    have unf: "loop_from B addresses i s = loop_from B addresses (Suc i) (st', ret')"
      using True s' by (subst loop_from.simps) simp
    show ?thesis
      unfolding unf using ih cache_grows_trans[OF ext] s by auto
  qed
qed

lemma resolve_props:
  assumes "length addresses < 2 ^ 32"
  shows "\<exists>ret st'. resolve B st addresses = Some (ret, st') \<and>
           length ret = length addresses \<and>
           cache_grows (logged_call B addresses) st st' \<and>
           (\<forall>i<length addresses. locs st' (addresses ! i) = Some (ret ! i))"
proof -
  let ?st1 = "st\<lparr>resolver := load_addresses B (resolver st) addresses\<rparr>"
  let ?s = "(?st1, replicate (length addresses) SourceLoc_unknown)"
  have run: "resolve_loop B addresses 0 ?s = Some (loop_from B addresses 0 ?s)"
    using resolve_loop_loop_from[OF assms, of 0 B ?s] by simp
  obtain st2 ret2 where r: "loop_from B addresses 0 ?s = (st2, ret2)"
    by (cases "loop_from B addresses 0 ?s")
  have p: "length ret2 = length addresses \<and>
         cache_grows (logged_call B addresses) ?st1 st2 \<and>
         (\<forall>j<length addresses. locs st2 (addresses ! j) = Some (ret2 ! j))"
    using loop_from_props[of ?s addresses 0 B] r by simp
  have "resolve B st addresses = Some (ret2, st2)"
    using run r by (simp add: resolve_def)
  then show ?thesis using p by simp
qed


text \<open>
  Claim C1. For every batch of addresses passed to the facade, the returned sequence has
  the length of the batch, and its \<open>i\<close>-th element is the resolution of the \<open>i\<close>-th
  address, for every index, duplicates and the empty batch included: it is the value the
  cache holds for that address after the call, which is the value cached before the call
  when there was one, and otherwise the source location the backend returned for a trace
  of that address at an index of the batch. The batch is shorter than \<open>2^32\<close>, where the
  32-bit loop counter does not wrap.
\<close>

theorem resolve_length_and_order:
  assumes "length addresses < 2 ^ 32"
  shows "\<exists>ret st'. resolve B st addresses = Some (ret, st') \<and>
           length ret = length addresses \<and>
           (\<forall>i<length addresses.
              locs st' (addresses ! i) = Some (ret ! i) \<and>
              (case locs st (addresses ! i) of
                 Some v \<Rightarrow> ret ! i = v
               | None \<Rightarrow> (\<exists>k<length addresses. \<exists>r.
                    addresses ! k = addresses ! i \<and>
                    ret ! i = source (fst (backend_resolve B r
                                 (ResolvedTrace_of (addresses ! i) k))))))"
proof -
  obtain ret st' where r: "resolve B st addresses = Some (ret, st')"
    and len: "length ret = length addresses"
    and g: "cache_grows (logged_call B addresses) st st'"
    and v: "\<forall>i<length addresses. locs st' (addresses ! i) = Some (ret ! i)"
    using resolve_props[OF assms] by blast
  from g obtain cs where le: "locs st \<subseteq>\<^sub>m locs st'"
    and d: "dom (locs st') = dom (locs st) \<union> (\<lambda>c. addr (fst c)) ` set cs"
    and l: "\<forall>c \<in> set cs. locs st' (addr (fst c)) = Some (source (snd c))
                \<and> logged_call B addresses c"
    unfolding cache_grows_def by blast
  have "case locs st (addresses ! i) of
          Some v \<Rightarrow> ret ! i = v
        | None \<Rightarrow> (\<exists>k<length addresses. \<exists>r.
             addresses ! k = addresses ! i \<and>
             ret ! i = source (fst (backend_resolve B r (ResolvedTrace_of (addresses ! i) k))))"
    if i: "i < length addresses" for i
  proof (cases "locs st (addresses ! i)")
    case (Some w)
    then have "locs st' (addresses ! i) = Some w"
      using le by (rule map_le_Some[rotated])
    then show ?thesis using v i Some by simp
  next
    case None
    have "addresses ! i \<in> dom (locs st')" using v i by auto
    then have "addresses ! i \<in> (\<lambda>c. addr (fst c)) ` set cs"
      using d None by auto
    then obtain c where c: "c \<in> set cs" "addr (fst c) = addresses ! i" by auto
    then have s: "locs st' (addresses ! i) = Some (source (snd c))"
      and lc: "logged_call B addresses c" using l by auto
    from lc obtain k r where k: "k < length addresses"
      "fst c = ResolvedTrace_of (addresses ! k) k"
      "snd c = fst (backend_resolve B r (fst c))"
      unfolding logged_call_def by blast
    have ak: "addresses ! k = addresses ! i" using k(2) c(2) by simp
    have "ret ! i = source (snd c)" using s v i by simp
    then have "ret ! i = source (fst (backend_resolve B r (ResolvedTrace_of (addresses ! i) k)))"
      using k(2,3) ak by simp
    then show ?thesis using None k(1) ak by auto
  qed
  then show ?thesis using r len v by blast
qed

theorem resolve_length_and_order_witness:
  "length [1, 2, 1 :: address] < 2 ^ 32 \<and>
   (\<exists>ret st'. resolve demo_backend (facade_init 0) [1, 2, 1] = Some (ret, st') \<and>
      length ret = 3 \<and> locs st' 1 = Some (ret ! 0) \<and> locs st' 2 = Some (ret ! 1) \<and>
      locs st' 1 = Some (ret ! 2) \<and> ret ! 0 = ret ! 2) \<and>
   map_option fst (resolve demo_backend (facade_init 0) [1, 2, 1]) =
     Some [\<lparr>func = ''f'', filename = ''a.c'', line = 1, col = 0\<rparr>,
           \<lparr>func = ''f'', filename = ''a.c'', line = 2, col = 1\<rparr>,
           \<lparr>func = ''f'', filename = ''a.c'', line = 1, col = 0\<rparr>] \<and>
   map_option fst (resolve demo_backend (facade_init 0) []) = Some []"
proof -
  have h: "length [1, 2, 1 :: address] < 2 ^ 32" by simp
  from resolve_length_and_order [OF h, of demo_backend "facade_init 0"]
  obtain ret where "\<exists>st'. resolve demo_backend (facade_init 0) [1, 2, 1] = Some (ret, st') \<and>
           length ret = length [1, 2, 1 :: address] \<and>
           (\<forall>i<length [1, 2, 1 :: address].
              locs st' ([1, 2, 1] ! i) = Some (ret ! i) \<and>
              (case locs (facade_init (0::nat)) ([1, 2, 1] ! i) of
                 Some v \<Rightarrow> ret ! i = v
               | None \<Rightarrow> (\<exists>k<length [1, 2, 1 :: address]. \<exists>r.
                    [1, 2, 1] ! k = [1, 2, 1 :: address] ! i \<and>
                    ret ! i = source (fst (backend_resolve demo_backend r
                                 (ResolvedTrace_of ([1, 2, 1] ! i) k))))))" ..
  then obtain st' where all: "resolve demo_backend (facade_init 0) [1, 2, 1] = Some (ret, st') \<and>
           length ret = length [1, 2, 1 :: address] \<and>
           (\<forall>i<length [1, 2, 1 :: address].
              locs st' ([1, 2, 1] ! i) = Some (ret ! i) \<and>
              (case locs (facade_init (0::nat)) ([1, 2, 1] ! i) of
                 Some v \<Rightarrow> ret ! i = v
               | None \<Rightarrow> (\<exists>k<length [1, 2, 1 :: address]. \<exists>r.
                    [1, 2, 1] ! k = [1, 2, 1 :: address] ! i \<and>
                    ret ! i = source (fst (backend_resolve demo_backend r
                                 (ResolvedTrace_of ([1, 2, 1] ! i) k))))))" ..
  have r: "resolve demo_backend (facade_init 0) [1, 2, 1] = Some (ret, st')"
    "length ret = length [1, 2, 1 :: address]"
    using all by blast+
  have v: "\<forall>i<length [1, 2, 1 :: address]. locs st' ([1, 2, 1] ! i) = Some (ret ! i)"
    using all by blast
  have v0: "locs st' 1 = Some (ret ! 0)" using v[rule_format, of 0] by simp
  have v1: "locs st' 2 = Some (ret ! 1)" using v[rule_format, of 1] by simp
  have v2: "locs st' 1 = Some (ret ! 2)" using v[rule_format, of 2] by simp
  have e: "ret ! 0 = ret ! 2" using v0 v2 by simp
  have a: "\<exists>ret st'. resolve demo_backend (facade_init 0) [1, 2, 1] = Some (ret, st') \<and>
      length ret = 3 \<and> locs st' 1 = Some (ret ! 0) \<and> locs st' 2 = Some (ret ! 1) \<and>
      locs st' 1 = Some (ret ! 2) \<and> ret ! 0 = ret ! 2"
    using r v0 v1 v2 e by simp
  have b: "map_option fst (resolve demo_backend (facade_init 0) [1, 2, 1]) =
     Some [\<lparr>func = ''f'', filename = ''a.c'', line = 1, col = 0\<rparr>,
           \<lparr>func = ''f'', filename = ''a.c'', line = 2, col = 1\<rparr>,
           \<lparr>func = ''f'', filename = ''a.c'', line = 1, col = 0\<rparr>]"
    by code_simp
  have c: "map_option fst (resolve demo_backend (facade_init 0) []) = Some []"
    by code_simp
  show ?thesis using h a b c by simp
qed

lemma run_batches_props:
  assumes "\<forall>b\<in>set batches. length b < 2 ^ 32"
  shows "\<exists>rets st'. run_batches B st batches = Some (rets, st') \<and>
           length rets = length batches \<and>
           cache_grows (\<lambda>c. \<exists>b\<in>set batches. logged_call B b c) st st' \<and>
           (\<forall>k<length batches. length (rets ! k) = length (batches ! k) \<and>
              (\<forall>i<length (batches ! k). locs st' (batches ! k ! i) = Some (rets ! k ! i)))"
  using assms
proof (induction batches arbitrary: st)
  case Nil
  then show ?case by (simp add: cache_grows_refl)
next
  case (Cons b bs)
  have "length b < 2 ^ 32" using Cons.prems by simp
  then obtain ret st1 where r: "resolve B st b = Some (ret, st1)"
    and len: "length ret = length b"
    and g1: "cache_grows (logged_call B b) st st1"
    and v1: "\<forall>i<length b. locs st1 (b ! i) = Some (ret ! i)"
    using resolve_props[of b B st] by blast
  obtain rets st' where rs: "run_batches B st1 bs = Some (rets, st')"
    and lens: "length rets = length bs"
    and g2: "cache_grows (\<lambda>c. \<exists>b\<in>set bs. logged_call B b c) st1 st'"
    and v2: "\<forall>k<length bs. length (rets ! k) = length (bs ! k) \<and>
              (\<forall>i<length (bs ! k). locs st' (bs ! k ! i) = Some (rets ! k ! i))"
    using Cons.IH[of st1] Cons.prems by auto
  have le: "locs st1 \<subseteq>\<^sub>m locs st'" using g2 by (simp add: cache_grows_def)
  have v1': "\<forall>i<length b. locs st' (b ! i) = Some (ret ! i)"
    using v1 map_le_Some[OF le] by simp
  have g: "cache_grows (\<lambda>c. \<exists>x\<in>set (b # bs). logged_call B x c) st st'"
    by (rule cache_grows_trans[OF cache_grows_mono[OF g1] cache_grows_mono[OF g2]]) auto
  have run: "run_batches B st (b # bs) = Some (ret # rets, st')"
    using r rs by simp
  have vs: "\<forall>k<length (b # bs). length ((ret # rets) ! k) = length ((b # bs) ! k) \<and>
              (\<forall>i<length ((b # bs) ! k). locs st' ((b # bs) ! k ! i) = Some ((ret # rets) ! k ! i))"
  proof (intro allI impI)
    fix k assume "k < length (b # bs)"
    then show "length ((ret # rets) ! k) = length ((b # bs) ! k) \<and>
              (\<forall>i<length ((b # bs) ! k). locs st' ((b # bs) ! k ! i) = Some ((ret # rets) ! k ! i))"
      using len v1' v2 by (cases k) auto
  qed
  show ?case using run lens g vs by simp
qed

lemma run_batches_append:
  "run_batches B st (xs @ ys) =
     (case run_batches B st xs of
        None \<Rightarrow> None
      | Some (r1, st1) \<Rightarrow>
          (case run_batches B st1 ys of
             None \<Rightarrow> None
           | Some (r2, st2) \<Rightarrow> Some (r1 @ r2, st2)))"
  by (induction xs arbitrary: st) (auto split: option.splits)

text \<open>
  Claim C2. In a process run (the batches resolved in turn, starting with an empty cache)
  the backend's \<^verbatim>\<open>resolve\<close> is invoked at most once for an address: the logged
  addresses are pairwise distinct. The cache holds for each of them the source location
  that single call returned, every occurrence of an address in any batch is answered with
  that cached value, and the cache after any prefix of the run is contained in the final
  cache: no entry is removed or overwritten.
\<close>

theorem address_cache_resolves_once:
  assumes "\<forall>b\<in>set batches. length b < 2 ^ 32"
  shows "\<exists>rets st. run_batches B (facade_init r0) batches = Some (rets, st) \<and>
      length rets = length batches \<and>
      distinct (map (\<lambda>c. addr (fst c)) (calls st)) \<and>
      (\<forall>c\<in>set (calls st). locs st (addr (fst c)) = Some (source (snd c))) \<and>
      (\<forall>k<length batches. length (rets ! k) = length (batches ! k) \<and>
         (\<forall>i<length (batches ! k). locs st (batches ! k ! i) = Some (rets ! k ! i))) \<and>
      (\<forall>n\<le>length batches. \<exists>rets' st'.
         run_batches B (facade_init r0) (take n batches) = Some (rets', st') \<and>
         rets' = take n rets \<and> locs st' \<subseteq>\<^sub>m locs st \<and>
         (\<exists>cs. calls st = calls st' @ cs))"
proof -
  let ?init = "facade_init r0 :: 'a facade"
  obtain rets st where run: "run_batches B ?init batches = Some (rets, st)"
    and len: "length rets = length batches"
    and g: "cache_grows (\<lambda>c. \<exists>b\<in>set batches. logged_call B b c) ?init st"
    and v: "\<forall>k<length batches. length (rets ! k) = length (batches ! k) \<and>
         (\<forall>i<length (batches ! k). locs st (batches ! k ! i) = Some (rets ! k ! i))"
    using run_batches_props[OF assms, of B ?init] by blast
  from g obtain cs where cs: "calls st = cs" "distinct (map (\<lambda>c. addr (fst c)) cs)"
    "\<forall>c \<in> set cs. locs st (addr (fst c)) = Some (source (snd c))"
    unfolding cache_grows_def facade_init_def by auto
  have pre: "\<exists>rets' st'.
         run_batches B ?init (take n batches) = Some (rets', st') \<and>
         rets' = take n rets \<and> locs st' \<subseteq>\<^sub>m locs st \<and>
         (\<exists>cs. calls st = calls st' @ cs)" if n: "n \<le> length batches" for n
  proof -
    have a: "\<forall>b\<in>set (take n batches). length b < 2 ^ 32"
      using assms by (meson in_set_takeD)
    obtain r1 st1 where r1: "run_batches B ?init (take n batches) = Some (r1, st1)"
      and l1: "length r1 = length (take n batches)"
      using run_batches_props[OF a, of B ?init] by blast
    have b: "\<forall>b\<in>set (drop n batches). length b < 2 ^ 32"
      using assms by (meson in_set_dropD)
    obtain r2 st2 where r2: "run_batches B st1 (drop n batches) = Some (r2, st2)"
      and g2: "cache_grows (\<lambda>c. \<exists>b\<in>set (drop n batches). logged_call B b c) st1 st2"
      using run_batches_props[OF b, of B st1] by blast
    have "run_batches B ?init (take n batches @ drop n batches) = Some (r1 @ r2, st2)"
      unfolding run_batches_append using r1 r2 by simp
    then have eq: "rets = r1 @ r2" "st = st2" using run by simp_all
    have "r1 = take n rets" using eq(1) l1 n by simp
    moreover have "locs st1 \<subseteq>\<^sub>m locs st" "\<exists>cs. calls st = calls st1 @ cs"
      using g2 eq(2) unfolding cache_grows_def by auto
    ultimately show ?thesis using r1 by simp
  qed
  show ?thesis using run len cs v pre by simp
qed

theorem address_cache_resolves_once_witness:
  "(\<exists>rets st. run_batches demo_backend (facade_init 0) [[1, 2, 1], [], [2, 3]] = Some (rets, st) \<and>
      length rets = 3 \<and> distinct (map (\<lambda>c. addr (fst c)) (calls st))) \<and>
   map_option fst (run_batches demo_backend (facade_init 0) [[1, 2, 1], [], [2, 3]]) =
     Some [[\<lparr>func = ''f'', filename = ''a.c'', line = 1, col = 0\<rparr>,
            \<lparr>func = ''f'', filename = ''a.c'', line = 2, col = 1\<rparr>,
            \<lparr>func = ''f'', filename = ''a.c'', line = 1, col = 0\<rparr>],
           [],
           [\<lparr>func = ''f'', filename = ''a.c'', line = 2, col = 1\<rparr>,
            \<lparr>func = ''f'', filename = ''a.c'', line = 3, col = 2\<rparr>]] \<and>
   map_option (\<lambda>p. map (\<lambda>c. (addr (fst c), idx (fst c))) (calls (snd p)))
       (run_batches demo_backend (facade_init 0) [[1, 2, 1], [], [2, 3]]) =
     Some [(1, 0), (2, 1), (3, 1)]"
proof -
  have h: "\<forall>b\<in>set [[1, 2, 1], [], [2, 3 :: address]]. length b < 2 ^ 32" by simp
  have a: "\<exists>rets st. run_batches demo_backend (facade_init 0) [[1, 2, 1], [], [2, 3]] = Some (rets, st) \<and>
      length rets = 3 \<and> distinct (map (\<lambda>c. addr (fst c)) (calls st))"
    using address_cache_resolves_once [OF h, of demo_backend 0] by auto
  have b: "map_option fst (run_batches demo_backend (facade_init 0) [[1, 2, 1], [], [2, 3]]) =
     Some [[\<lparr>func = ''f'', filename = ''a.c'', line = 1, col = 0\<rparr>,
            \<lparr>func = ''f'', filename = ''a.c'', line = 2, col = 1\<rparr>,
            \<lparr>func = ''f'', filename = ''a.c'', line = 1, col = 0\<rparr>],
           [],
           [\<lparr>func = ''f'', filename = ''a.c'', line = 2, col = 1\<rparr>,
            \<lparr>func = ''f'', filename = ''a.c'', line = 3, col = 2\<rparr>]]"
    by code_simp
  have c: "map_option (\<lambda>p. map (\<lambda>c. (addr (fst c), idx (fst c))) (calls (snd p)))
       (run_batches demo_backend (facade_init 0) [[1, 2, 1], [], [2, 3]]) =
     Some [(1, 0), (2, 1), (3, 1)]"
    by code_simp
  show ?thesis using a b c by simp
qed

section \<open>Properties of the libdw backend\<close>

lemma resolve_dw_initialized:
  "dwfl_handle_initialized (snd (resolve_dw dem bg st t))"
  by (simp add: resolve_dw_def Let_def split: option.splits)

lemma resolve_dw_after_init:
  "dwfl_handle_initialized st \<Longrightarrow> snd (resolve_dw dem bg st t) = st"
  by (simp add: resolve_dw_def split: option.splits)

lemma resolve_dw_null_session:
  "dwfl_handle_initialized st \<Longrightarrow> dwfl_handle st = None \<Longrightarrow> resolve_dw dem bg st t = (t, st)"
  by (simp add: resolve_dw_def)

lemma resolve_all_dw_after_init:
  "dwfl_handle_initialized st \<Longrightarrow> snd (resolve_all_dw dem bg st ts) = st"
proof (induction ts arbitrary: st)
  case Nil
  then show ?case by simp
next
  case (Cons t ts)
  have "snd (resolve_dw dem bg st t) = st" using Cons.prems by (rule resolve_dw_after_init)
  then show ?case using Cons by (simp split: prod.splits) (metis snd_conv)
qed

lemma resolve_all_dw_null_session:
  "dwfl_handle_initialized st \<Longrightarrow> dwfl_handle st = None \<Longrightarrow>
   resolve_all_dw dem bg st ts = (ts, st)"
  by (induction ts arbitrary: st) (simp_all add: resolve_dw_null_session)

text \<open>
  Claim C10. In the libdw backend the session is set up on the first call of
  \<^verbatim>\<open>resolve\<close> only: that call makes the one call of \<^verbatim>\<open>dwfl_begin\<close>, stores what
  it returned and sets the flag, and no later call changes the resolver, so
  \<^verbatim>\<open>dwfl_begin\<close> is never called again. When the session it returned is null, the
  first call and every later call return their input trace unchanged.
\<close>

theorem dwfl_initialized_once:
  assumes "\<not> dwfl_handle_initialized st"
  shows "dwfl_handle_initialized (snd (resolve_dw dem bg st t)) \<and>
         dwfl_begin_calls (snd (resolve_dw dem bg st t)) = Suc (dwfl_begin_calls st) \<and>
         dwfl_handle (snd (resolve_dw dem bg st t)) = bg (dwfl_begin_calls st) \<and>
         snd (resolve_all_dw dem bg (snd (resolve_dw dem bg st t)) ts) = snd (resolve_dw dem bg st t) \<and>
         (bg (dwfl_begin_calls st) = None \<longrightarrow>
            fst (resolve_dw dem bg st t) = t \<and>
            fst (resolve_all_dw dem bg (snd (resolve_dw dem bg st t)) ts) = ts)"
proof -
  let ?st1 = "snd (resolve_dw dem bg st t)"
  have i: "dwfl_handle_initialized ?st1" by (rule resolve_dw_initialized)
  have c: "dwfl_begin_calls ?st1 = Suc (dwfl_begin_calls st)"
    and h: "dwfl_handle ?st1 = bg (dwfl_begin_calls st)"
    using assms by (simp_all add: resolve_dw_def Let_def split: option.splits)
  have s: "snd (resolve_all_dw dem bg ?st1 ts) = ?st1"
    using i by (rule resolve_all_dw_after_init)
  have n: "fst (resolve_dw dem bg st t) = t \<and> fst (resolve_all_dw dem bg ?st1 ts) = ts"
    if "bg (dwfl_begin_calls st) = None"
  proof -
    have "fst (resolve_dw dem bg st t) = t"
      using assms that by (simp add: resolve_dw_def Let_def)
    moreover have "resolve_all_dw dem bg ?st1 ts = (ts, ?st1)"
      using i h that by (intro resolve_all_dw_null_session) simp_all
    ultimately show ?thesis by simp
  qed
  show ?thesis using i c h s n by blast
qed


theorem dwfl_initialized_once_witness:
  "\<not> dwfl_handle_initialized dw_resolver_init \<and>
   demo_dwfl_begin (dwfl_begin_calls dw_resolver_init) = None \<and>
   demo_dwfl_begin 1 \<noteq> None \<and>
   resolve_dw Map.empty demo_dwfl_begin dw_resolver_init (ResolvedTrace_of 4096 0) =
     (ResolvedTrace_of 4096 0,
      \<lparr>dwfl_handle_initialized = True, dwfl_handle = None, dwfl_begin_calls = 1\<rparr>) \<and>
   fst (resolve_all_dw Map.empty demo_dwfl_begin
          (snd (resolve_dw Map.empty demo_dwfl_begin dw_resolver_init (ResolvedTrace_of 4096 0)))
          [ResolvedTrace_of 8192 0, ResolvedTrace_of 4096 1]) =
     [ResolvedTrace_of 8192 0, ResolvedTrace_of 4096 1]"
proof -
  have h: "\<not> dwfl_handle_initialized dw_resolver_init"
    by (simp add: dw_resolver_init_def)
  have n: "demo_dwfl_begin (dwfl_begin_calls dw_resolver_init) = None"
    by (simp add: dw_resolver_init_def demo_dwfl_begin_def)
  have m: "demo_dwfl_begin 1 \<noteq> None"
    by (simp add: demo_dwfl_begin_def)
  have r: "resolve_dw Map.empty demo_dwfl_begin dw_resolver_init (ResolvedTrace_of 4096 0) =
     (ResolvedTrace_of 4096 0,
      \<lparr>dwfl_handle_initialized = True, dwfl_handle = None, dwfl_begin_calls = 1\<rparr>)"
    by (simp add: resolve_dw_def dw_resolver_init_def demo_dwfl_begin_def)
  show ?thesis
    using h n m r
      dwfl_initialized_once [OF h, of Map.empty demo_dwfl_begin "ResolvedTrace_of 4096 0"
        "[ResolvedTrace_of 8192 0, ResolvedTrace_of 4096 1]"]
    by simp
qed

section \<open>Properties of the reconstructed signatures\<close>

lemma comma_join_Cons: "comma_join (x # xs) = x @ concat (map (\<lambda>y. '', '' @ y) xs)"
  by (induction xs arbitrary: x) auto

lemma parameters_fold_nonempty:
  "p \<noteq> [] \<Longrightarrow>
   foldl (\<lambda>p c. (if p = [] then ''('' else p @ '', '') @ ctx_text c) p ctxs
     = p @ concat (map (\<lambda>c. '', '' @ ctx_text c) ctxs)"
  by (induction ctxs arbitrary: p) auto

lemma parameters_fold:
  "(let p = foldl (\<lambda>p c. (if p = [] then ''('' else p @ '', '') @ ctx_text c) [] ctxs
    in (if p = [] then ''('' else p)) = ''('' @ comma_join (map ctx_text ctxs)"
proof (cases ctxs)
  case Nil
  then show ?thesis by simp
next
  case (Cons c cs)
  have "foldl (\<lambda>p c. (if p = [] then ''('' else p @ '', '') @ ctx_text c) [] (c # cs)
        = (''('' @ ctx_text c) @ concat (map (\<lambda>c. '', '' @ ctx_text c) cs)"
    using parameters_fold_nonempty[of "''('' @ ctx_text c" cs] by simp
  then show ?thesis using Cons by (simp add: comma_join_Cons comp_def)
qed

lemma parameters_loop_those:
  "parameters_loop dwarf ds p =
     map_option (foldl (\<lambda>p c. (if p = [] then ''('' else p @ '', '') @ ctx_text c) p)
       (those (map (\<lambda>d. set_parameter_string dwarf d type_context_new)
          (filter (\<lambda>c. dwarf_tag (attrs c) = DW_TAG_formal_parameter \<and>
                       at_artificial (attrs c) \<noteq> Some True) ds)))"
proof (induction ds arbitrary: p)
  case Nil
  then show ?case by simp
next
  case (Cons a ds)
  let ?rest = "those (map (\<lambda>d. set_parameter_string dwarf d type_context_new)
          (filter (\<lambda>c. dwarf_tag (attrs c) = DW_TAG_formal_parameter \<and>
                       at_artificial (attrs c) \<noteq> Some True) ds))"
  show ?case
  proof (cases "dwarf_tag (attrs a) = DW_TAG_formal_parameter \<and>
                at_artificial (attrs a) \<noteq> Some True")
    case False
    then show ?thesis using Cons by auto
  next
    case True
    show ?thesis
    proof (cases "set_parameter_string dwarf a type_context_new")
      case None
      then show ?thesis using True by simp
    next
      case (Some c)
      show ?thesis
        using True Some Cons[of "(if p = [] then ''('' else p @ '', '') @ ctx_text c"]
        by (cases ?rest) simp_all
    qed
  qed
qed

lemma set_function_parameters_shape:
  "set_function_parameters name ns fobj d =
     map_option
       (\<lambda>ctxs. signature_text
          (let r = get_referenced_die_name (dwarf_handle_get fobj) (at_type (attrs d)) in
           if r = [] then
             get_referenced_die_name (dwarf_handle_get fobj)
               (at_type (attrs (case get_spec_die fobj (attrs d) of Some s \<Rightarrow> s | None \<Rightarrow> d)))
           else r)
          ns name (map ctx_text ctxs))
       (those (map (\<lambda>p. set_parameter_string (dwarf_handle_get fobj) p type_context_new)
          (declared_parameters (case get_spec_die fobj (attrs d) of Some s \<Rightarrow> s | None \<Rightarrow> d))))"
proof -
  let ?spec = "case get_spec_die fobj (attrs d) of Some s \<Rightarrow> s | None \<Rightarrow> d"
  let ?th = "those (map (\<lambda>p. set_parameter_string (dwarf_handle_get fobj) p type_context_new)
          (declared_parameters ?spec))"
  show ?thesis
  proof (cases ?th)
    case None
    then show ?thesis
      by (simp add: set_function_parameters_def parameters_loop_those declared_parameters_def Let_def)
  next
    case (Some ctxs)
    have "(let p = foldl (\<lambda>p c. (if p = [] then ''('' else p @ '', '') @ ctx_text c) [] ctxs
            in (if p = [] then ''('' else p)) = ''('' @ comma_join (map ctx_text ctxs)"
      by (rule parameters_fold)
    then show ?thesis using Some
      by (simp add: set_function_parameters_def parameters_loop_those declared_parameters_def
            Let_def signature_text_def)
  qed
qed


lemma modifier_entry:
  assumes "dwarf_diename a = None" "\<not> is_typedef c" "\<not> is_const c"
    and "dwarf_tag a = DW_TAG_pointer_type \<or> dwarf_tag a = DW_TAG_reference_type \<or>
         dwarf_tag a = DW_TAG_rvalue_reference_type \<or> dwarf_tag a = DW_TAG_restrict_type \<or>
         dwarf_tag a = DW_TAG_volatile_type"
  shows "\<not> is_typedef (set_parameter_string_entry dwarf a c)"
    and "\<not> is_const (set_parameter_string_entry dwarf a c)"
    and "has_name (set_parameter_string_entry dwarf a c) = has_name c"
    and "has_type (set_parameter_string_entry dwarf a c) = has_type c"
    and "ctx_text (set_parameter_string_entry dwarf a c) =
           (if dwarf_tag a = DW_TAG_pointer_type then ''*''
            else if dwarf_tag a = DW_TAG_reference_type then ''&''
            else if dwarf_tag a = DW_TAG_rvalue_reference_type then ''&&''
            else if dwarf_tag a = DW_TAG_restrict_type then ''restrict ''
            else ''volatile '') @ ctx_text c"
  using assms by (auto simp: set_parameter_string_entry_def Let_def)

lemma named_entry:
  assumes "dwarf_diename a = Some n" "\<not> is_typedef c" "\<not> is_const c"
    and "dwarf_tag a = DW_TAG_base_type \<or> dwarf_tag a = DW_TAG_class_type \<or>
         dwarf_tag a = DW_TAG_structure_type \<or> dwarf_tag a = DW_TAG_union_type"
    and "dwarf_hasattr_signature a = Some False"
  shows "\<not> is_typedef (set_parameter_string_entry dwarf a c)"
    and "\<not> is_const (set_parameter_string_entry dwarf a c)"
    and "has_name (set_parameter_string_entry dwarf a c) = has_name c"
    and "has_type (set_parameter_string_entry dwarf a c)"
    and "ctx_text (set_parameter_string_entry dwarf a c) = type_text (Named n) (ctx_text c)"
  using assms by (auto simp: set_parameter_string_entry_def Let_def insert_word_def)

lemma set_parameter_string_end_typed:
  "has_type c \<Longrightarrow> set_parameter_string_end c = c"
  by (simp add: set_parameter_string_end_def)

lemma modifier_step:
  assumes m: "modifier_at dwarf off t target" and d: "dwarf_offdie dwarf off = Some d"
    and t: "t = DW_TAG_pointer_type \<or> t = DW_TAG_reference_type \<or>
         t = DW_TAG_rvalue_reference_type \<or> t = DW_TAG_restrict_type \<or>
         t = DW_TAG_volatile_type"
    and tgt: "dwarf_offdie dwarf target = Some d'"
    and c: "\<not> is_typedef c" "\<not> is_const c"
    and ih: "\<And>c'. \<not> is_typedef c' \<Longrightarrow> \<not> is_const c' \<Longrightarrow>
          \<exists>r. set_parameter_string dwarf d' c' = Some r \<and>
              ctx_text r = txt (ctx_text c') \<and> has_type r \<and> \<not> is_typedef r \<and> \<not> is_const r \<and>
              has_name r = has_name c'"
  shows "\<exists>r. set_parameter_string dwarf d c = Some r \<and>
              ctx_text r = txt ((if t = DW_TAG_pointer_type then ''*''
            else if t = DW_TAG_reference_type then ''&''
            else if t = DW_TAG_rvalue_reference_type then ''&&''
            else if t = DW_TAG_restrict_type then ''restrict ''
            else ''volatile '') @ ctx_text c) \<and> has_type r \<and> \<not> is_typedef r \<and> \<not> is_const r \<and>
              has_name r = has_name c"
proof -
  have a: "dwarf_tag (attrs d) = t" "dwarf_diename (attrs d) = None"
    "at_type (attrs d) = Some target"
    using m d by (simp_all add: modifier_at_def)
  let ?c1 = "set_parameter_string_entry dwarf (attrs d) c"
  have tg: "dwarf_tag (attrs d) = DW_TAG_pointer_type \<or> dwarf_tag (attrs d) = DW_TAG_reference_type \<or>
         dwarf_tag (attrs d) = DW_TAG_rvalue_reference_type \<or> dwarf_tag (attrs d) = DW_TAG_restrict_type \<or>
         dwarf_tag (attrs d) = DW_TAG_volatile_type" using t a(1) by simp
  note e = modifier_entry[OF a(2) c tg, of dwarf]
  obtain r where r: "set_parameter_string dwarf d' ?c1 = Some r"
    "ctx_text r = txt (ctx_text ?c1)" "has_type r" "\<not> is_typedef r" "\<not> is_const r"
    "has_name r = has_name ?c1"
    using ih[OF e(1) e(2)] by auto
  have "set_parameter_string dwarf d c = Some (set_parameter_string_end r)"
    by (subst set_parameter_string.simps)
       (simp add: get_referenced_die_def a(3) tgt r(1))
  then show ?thesis
    using r e(3,5) a(1) by (simp add: set_parameter_string_end_typed)
qed

lemma type_at_entry: "type_at dwarf off ty \<Longrightarrow> \<exists>d. dwarf_offdie dwarf off = Some d"
  by (cases ty) (auto split: option.splits)

lemma type_chain_text:
  assumes "type_at dwarf off ty" "dwarf_offdie dwarf off = Some d"
    "\<not> is_typedef c" "\<not> is_const c"
  shows "\<exists>r. set_parameter_string dwarf d c = Some r \<and>
              ctx_text r = type_text ty (ctx_text c) \<and> has_type r \<and>
              \<not> is_typedef r \<and> \<not> is_const r \<and> has_name r = has_name c"
  using assms
proof (induction ty arbitrary: off d c)
  case (Named n)
  then have a: "dwarf_diename (attrs d) = Some n" "at_type (attrs d) = None"
    "dwarf_hasattr_signature (attrs d) = Some False"
    "dwarf_tag (attrs d) = DW_TAG_base_type \<or> dwarf_tag (attrs d) = DW_TAG_class_type \<or>
     dwarf_tag (attrs d) = DW_TAG_structure_type \<or> dwarf_tag (attrs d) = DW_TAG_union_type"
    by auto
  note e = named_entry[OF a(1) Named.prems(3,4) a(4) a(3), of dwarf]
  have "set_parameter_string dwarf d c
        = Some (set_parameter_string_end (set_parameter_string_entry dwarf (attrs d) c))"
    by (subst set_parameter_string.simps) (simp add: get_referenced_die_def a(2))
  then show ?case using e by (simp add: set_parameter_string_end_typed)
next
  case (Pointer ty)
  then obtain target where t0: "modifier_at dwarf off DW_TAG_pointer_type target"
    "type_at dwarf target ty"
    by (auto split: option.splits)
  obtain d' where "dwarf_offdie dwarf target = Some d'"
    using type_at_entry[OF t0(2)] by blast
  note t = t0 this
  show ?case
    using modifier_step[OF t(1) Pointer.prems(2) _ t(3) Pointer.prems(3,4),
        of "type_text ty"] Pointer.IH[OF t(2,3)]
    by simp
next
  case (Reference ty)
  then obtain target where t0: "modifier_at dwarf off DW_TAG_reference_type target"
    "type_at dwarf target ty"
    by (auto split: option.splits)
  obtain d' where "dwarf_offdie dwarf target = Some d'"
    using type_at_entry[OF t0(2)] by blast
  note t = t0 this
  show ?case
    using modifier_step[OF t(1) Reference.prems(2) _ t(3) Reference.prems(3,4),
        of "type_text ty"] Reference.IH[OF t(2,3)]
    by simp
next
  case (Rvalue_reference ty)
  then obtain target where t0: "modifier_at dwarf off DW_TAG_rvalue_reference_type target"
    "type_at dwarf target ty"
    by (auto split: option.splits)
  obtain d' where "dwarf_offdie dwarf target = Some d'"
    using type_at_entry[OF t0(2)] by blast
  note t = t0 this
  show ?case
    using modifier_step[OF t(1) Rvalue_reference.prems(2) _ t(3) Rvalue_reference.prems(3,4),
        of "type_text ty"] Rvalue_reference.IH[OF t(2,3)]
    by simp
next
  case (Restrict ty)
  then obtain target where t0: "modifier_at dwarf off DW_TAG_restrict_type target"
    "type_at dwarf target ty"
    by (auto split: option.splits)
  obtain d' where "dwarf_offdie dwarf target = Some d'"
    using type_at_entry[OF t0(2)] by blast
  note t = t0 this
  show ?case
    using modifier_step[OF t(1) Restrict.prems(2) _ t(3) Restrict.prems(3,4),
        of "type_text ty"] Restrict.IH[OF t(2,3)]
    by simp
next
  case (Volatile ty)
  then obtain target where t0: "modifier_at dwarf off DW_TAG_volatile_type target"
    "type_at dwarf target ty"
    by (auto split: option.splits)
  obtain d' where "dwarf_offdie dwarf target = Some d'"
    using type_at_entry[OF t0(2)] by blast
  note t = t0 this
  show ?case
    using modifier_step[OF t(1) Volatile.prems(2) _ t(3) Volatile.prems(3,4),
        of "type_text ty"] Volatile.IH[OF t(2,3)]
    by simp
qed


lemma parameter_text:
  assumes "dwarf_tag (attrs p) = DW_TAG_formal_parameter" "at_type (attrs p) = Some off"
    "type_at dwarf off ty"
  shows "\<exists>r. set_parameter_string dwarf p type_context_new = Some r \<and>
             ctx_text r = type_text ty (case dwarf_diename (attrs p) of Some n \<Rightarrow> n | None \<Rightarrow> [])"
proof -
  let ?c1 = "set_parameter_string_entry dwarf (attrs p) type_context_new"
  have e: "\<not> is_typedef ?c1" "\<not> is_const ?c1"
    "ctx_text ?c1 = (case dwarf_diename (attrs p) of Some n \<Rightarrow> n | None \<Rightarrow> [])"
    using assms(1)
    by (auto simp: set_parameter_string_entry_def type_context_new_def Let_def insert_word_def
             split: option.splits)
  obtain d where d: "dwarf_offdie dwarf off = Some d"
    using type_at_entry[OF assms(3)] by blast
  obtain r where r: "set_parameter_string dwarf d ?c1 = Some r"
    "ctx_text r = type_text ty (ctx_text ?c1)" "has_type r"
    using type_chain_text[OF assms(3) d e(1,2)] by blast
  have "set_parameter_string dwarf p type_context_new = Some (set_parameter_string_end r)"
    by (subst set_parameter_string.simps)
       (simp add: get_referenced_die_def assms(2) d r(1))
  then show ?thesis using r e(3) by (simp add: set_parameter_string_end_typed)
qed

text \<open>
  Claim C5, as amended. The reconstructed signature is the name of the return type and a
  space (when a return type is found), the namespace-qualified name of the function,
  and in parentheses the texts of the formal parameters that are not marked artificial,
  joined by a comma and a space. The text of a parameter is built from right to left,
  starting with the name of the parameter when it has one: for a parameter whose type
  is a named type under pointer, reference, rvalue reference, restrict and volatile
  modifiers, each modifier is put directly in front of the text and the name of the type
  in front of it all, followed by a space when text follows. For the function
  \<^verbatim>\<open>int foo(char*, MyClass&)\<close> the result is \<^verbatim>\<open>int foo(char *, MyClass &)\<close>.
\<close>

theorem function_signature_text:
  "set_function_parameters name ns fobj d =
     map_option
       (\<lambda>ctxs. signature_text
          (let r = get_referenced_die_name (dwarf_handle_get fobj) (at_type (attrs d)) in
           if r = [] then
             get_referenced_die_name (dwarf_handle_get fobj)
               (at_type (attrs (case get_spec_die fobj (attrs d) of Some s \<Rightarrow> s | None \<Rightarrow> d)))
           else r)
          ns name (map ctx_text ctxs))
       (those (map (\<lambda>p. set_parameter_string (dwarf_handle_get fobj) p type_context_new)
          (declared_parameters (case get_spec_die fobj (attrs d) of Some s \<Rightarrow> s | None \<Rightarrow> d)))) \<and>
   (dwarf_tag (attrs p) = DW_TAG_formal_parameter \<and> at_type (attrs p) = Some off \<and>
    type_at dwarf off ty \<longrightarrow>
      (\<exists>r. set_parameter_string dwarf p type_context_new = Some r \<and>
           ctx_text r = type_text ty (case dwarf_diename (attrs p) of Some n \<Rightarrow> n | None \<Rightarrow> []))) \<and>
   set_function_parameters ''foo'' [] (foo_fobj False) (foo_die None None) =
     Some ''int foo(char *, MyClass &)''"
proof -
  have "set_function_parameters ''foo'' [] (foo_fobj False) (foo_die None None) =
     Some ''int foo(char *, MyClass &)''"
    by code_simp
  then show ?thesis
    using set_function_parameters_shape[of name ns fobj d] parameter_text[of p off dwarf ty]
    by blast
qed

theorem function_signature_text_witness:
  "dwarf_tag (attrs (Die ((plain_entry DW_TAG_formal_parameter)
                      \<lparr>dwarf_diename := Some ''c'', at_type := Some 144\<rparr>) []))
     = DW_TAG_formal_parameter \<and>
   type_at (foo_dwarf False) 144 (Reference (Named ''MyClass'')) \<and>
   (\<exists>r. set_parameter_string (foo_dwarf False)
          (Die ((plain_entry DW_TAG_formal_parameter)
                  \<lparr>dwarf_diename := Some ''c'', at_type := Some 144\<rparr>) [])
          type_context_new = Some r \<and>
        ctx_text r = ''MyClass &c'')"
proof -
  let ?p = "Die ((plain_entry DW_TAG_formal_parameter)
                  \<lparr>dwarf_diename := Some ''c'', at_type := Some 144\<rparr>) []"
  have t: "dwarf_tag (attrs ?p) = DW_TAG_formal_parameter"
    by (simp add: plain_entry_def)
  have a: "at_type (attrs ?p) = Some 144" by (simp add: plain_entry_def)
  have ty: "type_at (foo_dwarf False) 144 (Reference (Named ''MyClass''))"
    by (simp add: foo_dwarf_def foo_types_def modifier_at_def plain_entry_def dwarf_debug_null_def)
  have n: "type_text (Reference (Named ''MyClass''))
             (case dwarf_diename (attrs ?p) of Some n \<Rightarrow> n | None \<Rightarrow> []) = ''MyClass &c''"
    by (simp add: plain_entry_def)
  show ?thesis
    using t ty n
      function_signature_text[of "''foo''" "[]" "foo_fobj False" "foo_die None None"
        ?p 144 "foo_dwarf False" "Reference (Named ''MyClass'')"] a
    by simp
qed

theorem function_signature_text_counterexample:
  "set_function_parameters ''foo'' [] (foo_fobj True) (foo_die None None) =
     Some ''int foo(char *, MyClass &)'' \<and>
   set_function_parameters ''foo'' [] (foo_fobj True) (foo_die None None) \<noteq>
     Some ''int foo(const char*, MyClass&)'' \<and>
   set_function_parameters ''foo'' [] (foo_fobj True) (foo_die (Some ''s'') (Some ''c'')) =
     Some ''int foo(char *s, MyClass &c)''"
proof -
  have a: "set_function_parameters ''foo'' [] (foo_fobj True) (foo_die None None) =
     Some ''int foo(char *, MyClass &)''"
    by code_simp
  have b: "set_function_parameters ''foo'' [] (foo_fobj True) (foo_die (Some ''s'') (Some ''c'')) =
     Some ''int foo(char *s, MyClass &c)''"
    by code_simp
  show ?thesis using a b by simp
qed

section \<open>Properties of the search for the inliners\<close>

lemma set_function_parameters_ends:
  "(set_function_parameters name ns fobj d \<noteq> None) = signature_ends fobj d"
  by (simp add: set_function_parameters_def signature_ends_def Let_def split: option.splits)

lemma cb_inlined:
  assumes "dwarf_tag (attrs d) = DW_TAG_inlined_subroutine" "signature_ends fobj d"
  shows "inliners_search_cb sys fobj cu d ns t
         = Some (t\<lparr>inliners := inliners t @ [call_site fobj cu ns d]\<rparr>)"
proof -
  let ?name = "case dwarf_diename (attrs d) of
                  Some name \<Rightarrow> name
                | None \<Rightarrow> get_referenced_die_name (dwarf_handle_get fobj)
                            (at_abstract_origin (attrs d))"
  obtain s where s: "set_function_parameters ?name ns fobj d = Some s"
    using assms(2) set_function_parameters_ends[of ?name ns fobj d] by auto
  show ?thesis
    using assms(1) s
    by (simp add: inliners_search_cb_def call_site_def Let_def SourceLoc_unknown_def
             split: option.splits)
qed

lemma cb_subprogram:
  assumes "dwarf_tag (attrs d) = DW_TAG_subprogram" "signature_ends fobj d"
  shows "\<exists>t'. inliners_search_cb sys fobj cu d ns t = Some t' \<and> inliners t' = inliners t"
proof (cases "func (source t) = []")
  case False
  then show ?thesis using assms(1) by (simp add: inliners_search_cb_def Let_def)
next
  case True
  let ?name = "case dwarf_diename (attrs d) of
                 Some name \<Rightarrow> name
               | None \<Rightarrow>
                   (let n = get_referenced_die_name (dwarf_handle_get fobj)
                              (at_abstract_origin (attrs d))
                    in if n = [] then get_referenced_die_name (dwarf_handle_get fobj)
                                        (at_specification (attrs d))
                       else n)"
  obtain s where s: "set_function_parameters ?name ns fobj d = Some s"
    using assms(2) set_function_parameters_ends[of ?name ns fobj d] by auto
  have "inliners_search_cb sys fobj cu d ns t =
          (let trace = t\<lparr>source := (source t)\<lparr>func := s\<rparr>\<rparr> in
           if object_function trace = [] then
             (case (case at_linkage_name (attrs d) of
                      Some l \<Rightarrow> Some l
                    | None \<Rightarrow> at_MIPS_linkage_name (attrs d)) of
                None \<Rightarrow> Some trace
              | Some None \<Rightarrow> Some trace
              | Some (Some linkage) \<Rightarrow>
                  Some (trace\<lparr>object_function := demangle (cxa_demangle sys) linkage\<rparr>))
           else Some trace)"
    using assms(1) True s unfolding inliners_search_cb_def by (simp add: Let_def)
  then show ?thesis
    by (auto simp: Let_def split: option.splits)
qed

lemma cb_other:
  assumes "dwarf_tag (attrs d) \<noteq> DW_TAG_subprogram"
    "dwarf_tag (attrs d) \<noteq> DW_TAG_inlined_subroutine"
  shows "inliners_search_cb sys fobj cu d ns t = Some t"
  using assms by (simp add: inliners_search_cb_def Let_def)


lemma dfs_loop_Cons:
  "dfs_loop fobj (c # rest) pc b ns cb t =
     (case (if \<not> is_declaration (attrs c)
            then deep_first_search_by_pc fobj c pc (ns_inside ns (attrs c)) cb t
            else Some (b, ns_inside ns (attrs c), t)) of
        None \<Rightarrow> None
      | Some (b1, ns1, t1) \<Rightarrow>
          (case (if \<not> b1 then die_has_pc fobj c pc else Some b1) of
             None \<Rightarrow> None
           | Some b2 \<Rightarrow>
               (case (if b2 then cb c ns1 t1 else Some t1) of
                  None \<Rightarrow> None
                | Some t2 \<Rightarrow>
                    if dwarf_siblingof_error (attrs c) then Some (False, ns1, t2)
                    else dfs_loop fobj rest pc b2
                           (if dwarf_tag (attrs c) = DW_TAG_namespace \<or>
                               dwarf_tag (attrs c) = DW_TAG_class_type
                            then butlast ns1 else ns1) cb t2)))"
  by (simp add: Let_def is_declaration_def ns_inside_def)

declare dfs_loop.simps(2) [simp del]

lemma ns_inside_pop:
  "(if dwarf_tag a = DW_TAG_namespace \<or> dwarf_tag a = DW_TAG_class_type
    then butlast (ns_inside ns a) else ns_inside ns a) = ns"
  by (simp add: ns_inside_def)

lemma off_path_simps:
  "off_path fobj pc d =
     (\<not> dwarf_siblingof_error (attrs d) \<and> die_has_pc fobj d pc = Some False \<and>
      (if is_declaration (attrs d)
       then dwarf_tag (attrs d) \<noteq> DW_TAG_inlined_subroutine \<and>
            (dwarf_tag (attrs d) = DW_TAG_subprogram \<longrightarrow> signature_ends fobj d)
       else list_all (off_path fobj pc) (children d)))"
  by (cases d) simp

lemma cb_keeps_inliners:
  assumes "dwarf_tag (attrs d) \<noteq> DW_TAG_inlined_subroutine"
    "dwarf_tag (attrs d) = DW_TAG_subprogram \<longrightarrow> signature_ends fobj d"
  shows "\<exists>t'. inliners_search_cb sys fobj cu d ns t = Some t' \<and> inliners t' = inliners t"
proof (cases "dwarf_tag (attrs d) = DW_TAG_subprogram")
  case True
  then show ?thesis using assms(2) cb_subprogram by blast
next
  case False
  then show ?thesis using assms(1) cb_other by simp
qed

lemma loop_quiet_aux:
  assumes sub: "\<And>c ns t. c \<in> set cs \<Longrightarrow> off_path fobj pc c \<Longrightarrow> \<not> is_declaration (attrs c) \<Longrightarrow>
            \<exists>t'. deep_first_search_by_pc fobj c pc ns (inliners_search_cb sys fobj cu) t
                   = Some (False, ns, t') \<and> inliners t' = inliners t"
    and q: "list_all (off_path fobj pc) cs"
  shows "\<exists>b' t'. dfs_loop fobj cs pc b ns (inliners_search_cb sys fobj cu) t = Some (b', ns, t') \<and>
                 (b' \<longrightarrow> b) \<and> inliners t' = inliners t"
  using assms
proof (induction cs arbitrary: b ns t)
  case Nil
  then show ?case by simp
next
  case (Cons c rest)
  let ?cb = "inliners_search_cb sys fobj cu"
  have oc: "off_path fobj pc c" and qr: "list_all (off_path fobj pc) rest"
    using Cons.prems(2) by simp_all
  have ne: "\<not> dwarf_siblingof_error (attrs c)" and hp: "die_has_pc fobj c pc = Some False"
    using oc off_path_simps[of fobj pc c] by simp_all
  have ih: "\<And>b ns t. \<exists>b' t'. dfs_loop fobj rest pc b ns ?cb t = Some (b', ns, t') \<and>
                 (b' \<longrightarrow> b) \<and> inliners t' = inliners t"
    using Cons.IH[OF _ qr] Cons.prems(1) by simp
  show ?case
  proof (cases "is_declaration (attrs c)")
    case True
    have k: "dwarf_tag (attrs c) \<noteq> DW_TAG_inlined_subroutine"
      "dwarf_tag (attrs c) = DW_TAG_subprogram \<longrightarrow> signature_ends fobj c"
      using oc True off_path_simps[of fobj pc c] by simp_all
    show ?thesis
    proof (cases b)
      case False
      obtain b' t' where r: "dfs_loop fobj rest pc False ns ?cb t = Some (b', ns, t')"
        "b' \<longrightarrow> False" "inliners t' = inliners t"
        using ih[of False ns t] by blast
      have "dfs_loop fobj (c # rest) pc b ns ?cb t = Some (b', ns, t')"
        using True False hp ne r(1) by (simp add: dfs_loop_Cons ns_inside_pop)
      then show ?thesis using r by (intro exI[of _ b'] exI[of _ t']) simp
    next
      case b: True
      obtain t1 where t1: "?cb c (ns_inside ns (attrs c)) t = Some t1" "inliners t1 = inliners t"
        using cb_keeps_inliners[OF k] by blast
      obtain b' t' where r: "dfs_loop fobj rest pc True ns ?cb t1 = Some (b', ns, t')"
        "inliners t' = inliners t1"
        using ih[of True ns t1] by blast
      have "dfs_loop fobj (c # rest) pc b ns ?cb t = Some (b', ns, t')"
        using True b ne t1(1) r(1) by (simp add: dfs_loop_Cons ns_inside_pop)
      then show ?thesis using r t1 b by (intro exI[of _ b'] exI[of _ t']) simp
    qed
  next
    case False
    obtain t1 where t1: "deep_first_search_by_pc fobj c pc (ns_inside ns (attrs c)) ?cb t
                   = Some (False, ns_inside ns (attrs c), t1)" "inliners t1 = inliners t"
      using Cons.prems(1)[of c "ns_inside ns (attrs c)" t] oc False by auto
    obtain b' t' where r: "dfs_loop fobj rest pc False ns ?cb t1 = Some (b', ns, t')"
      "b' \<longrightarrow> False" "inliners t' = inliners t1"
      using ih[of False ns t1] by blast
    have "dfs_loop fobj (c # rest) pc b ns ?cb t = Some (b', ns, t')"
      using False hp ne t1(1) r(1) by (simp add: dfs_loop_Cons ns_inside_pop)
    then show ?thesis using r t1 by (intro exI[of _ b'] exI[of _ t']) simp
  qed
qed

lemma entry_quiet:
  "off_path fobj pc d \<Longrightarrow> \<not> is_declaration (attrs d) \<Longrightarrow>
   \<exists>t'. deep_first_search_by_pc fobj d pc ns (inliners_search_cb sys fobj cu) t
          = Some (False, ns, t') \<and> inliners t' = inliners t"
proof (induction d arbitrary: ns t)
  case (Die a cs)
  have q: "list_all (off_path fobj pc) cs"
    using Die.prems off_path_simps[of fobj pc "Die a cs"] by simp
  have "\<exists>b' t'. dfs_loop fobj cs pc False ns (inliners_search_cb sys fobj cu) t = Some (b', ns, t') \<and>
                 (b' \<longrightarrow> False) \<and> inliners t' = inliners t"
    using loop_quiet_aux[OF _ q, of sys cu False ns t] Die.IH by blast
  then show ?case by auto
qed

lemma loop_quiet:
  assumes "list_all (off_path fobj pc) cs"
  shows "\<exists>b' t'. dfs_loop fobj cs pc b ns (inliners_search_cb sys fobj cu) t = Some (b', ns, t') \<and>
                 (b' \<longrightarrow> b) \<and> inliners t' = inliners t"
  using loop_quiet_aux[OF _ assms] entry_quiet by blast


lemma dfs_loop_append:
  assumes "\<forall>c\<in>set xs. \<not> dwarf_siblingof_error (attrs c)"
  shows "dfs_loop fobj (xs @ ys) pc b ns cb t =
           (case dfs_loop fobj xs pc b ns cb t of
              None \<Rightarrow> None
            | Some (b', ns', t') \<Rightarrow> dfs_loop fobj ys pc b' ns' cb t')"
  using assms
proof (induction xs arbitrary: b ns t)
  case Nil
  then show ?case by simp
next
  case (Cons c xs)
  then have ne: "\<not> dwarf_siblingof_error (attrs c)"
    and ih: "\<And>b ns t. dfs_loop fobj (xs @ ys) pc b ns cb t =
           (case dfs_loop fobj xs pc b ns cb t of
              None \<Rightarrow> None
            | Some (b', ns', t') \<Rightarrow> dfs_loop fobj ys pc b' ns' cb t')"
    by simp_all
  show ?case
    using ne by (simp add: dfs_loop_Cons ih split: option.splits prod.splits)
qed

lemma off_path_no_error:
  "list_all (off_path fobj pc) cs \<Longrightarrow> \<forall>c\<in>set cs. \<not> dwarf_siblingof_error (attrs c)"
  using off_path_simps by (auto simp: list_all_iff)

lemma deep_first_search_by_pc_children:
  "deep_first_search_by_pc fobj d pc ns cb t = dfs_loop fobj (children d) pc False ns cb t"
  by (cases d) simp

lemma loop_path:
  assumes "pc_path fobj pc cs p"
  shows "\<exists>b' t'. dfs_loop fobj cs pc False ns (inliners_search_cb sys fobj cu) t = Some (b', ns, t') \<and>
           inliners t' = inliners t @ rev (path_inliners fobj cu ns cs p)"
  using assms
proof (induction p arbitrary: cs ns t)
  case Nil
  then show ?case using loop_quiet[where b=False] by fastforce
next
  case (Cons i p)
  let ?cb = "inliners_search_cb sys fobj cu"
  let ?n = "cs ! i"
  let ?ns1 = "ns_inside ns (attrs ?n)"
  have i: "i < length cs" and qb: "list_all (off_path fobj pc) (take i cs)"
    and qa: "list_all (off_path fobj pc) (drop (Suc i) cs)"
    and pe: "path_entry fobj pc ?n" and pp: "pc_path fobj pc (children ?n) p"
    using Cons.prems by simp_all
  have split: "cs = take i cs @ (?n # drop (Suc i) cs)"
    using i by (simp add: id_take_nth_drop)
  obtain b0 t0 where r0: "dfs_loop fobj (take i cs) pc False ns ?cb t = Some (b0, ns, t0)"
    "b0 \<longrightarrow> False" "inliners t0 = inliners t"
    using loop_quiet[OF qb, where b=False and ns=ns and t=t and sys=sys and cu=cu] by blast
  have b0: "b0 = False" using r0(2) by simp
  obtain b1 t1 where r1: "dfs_loop fobj (children ?n) pc False ?ns1 ?cb t0 = Some (b1, ?ns1, t1)"
    "inliners t1 = inliners t0 @ rev (path_inliners fobj cu ?ns1 (children ?n) p)"
    using Cons.IH[OF pp, where ns="?ns1" and t=t0] by blast
  have ne: "\<not> dwarf_siblingof_error (attrs ?n)" and nd: "\<not> is_declaration (attrs ?n)"
    using pe by (simp_all add: path_entry_def)
  obtain b2 where b2: "(if \<not> b1 then die_has_pc fobj ?n pc else Some b1) = Some b2"
    "dwarf_tag (attrs ?n) = DW_TAG_subprogram \<or>
     dwarf_tag (attrs ?n) = DW_TAG_inlined_subroutine \<longrightarrow> b2"
    using pe by (cases b1) (auto simp: path_entry_def split: if_splits)
  obtain t2 where t2: "(if b2 then ?cb ?n ?ns1 t1 else Some t1) = Some t2"
    "inliners t2 = inliners t1 @
       (if dwarf_tag (attrs ?n) = DW_TAG_inlined_subroutine
        then [call_site fobj cu ?ns1 ?n] else [])"
  proof (cases "dwarf_tag (attrs ?n) = DW_TAG_inlined_subroutine")
    case True
    then have "signature_ends fobj ?n" and "b2" using pe b2(2) by (simp_all add: path_entry_def)
    then show ?thesis using that cb_inlined[OF True, where fobj=fobj and sys=sys and cu=cu and ns="?ns1" and t=t1] True by simp
  next
    case False
    have "dwarf_tag (attrs ?n) = DW_TAG_subprogram \<longrightarrow> signature_ends fobj ?n"
      using pe by (simp add: path_entry_def)
    then obtain t' where "?cb ?n ?ns1 t1 = Some t'" "inliners t' = inliners t1"
      using cb_keeps_inliners[OF False, where fobj=fobj and sys=sys and cu=cu and ns="?ns1" and t=t1] by blast
    then show ?thesis using that False by (cases b2) simp_all
  qed
  obtain b3 t3 where r3: "dfs_loop fobj (drop (Suc i) cs) pc b2 ns ?cb t2 = Some (b3, ns, t3)"
    "inliners t3 = inliners t2"
    using loop_quiet[OF qa, where b=b2 and ns=ns and t=t2 and sys=sys and cu=cu] by blast
  have step: "dfs_loop fobj (?n # drop (Suc i) cs) pc False ns ?cb t0 = Some (b3, ns, t3)"
    using nd ne r1(1) b2(1) t2(1) r3(1)
    by (simp add: dfs_loop_Cons deep_first_search_by_pc_children ns_inside_pop)
  have "dfs_loop fobj (take i cs @ (?n # drop (Suc i) cs)) pc False ns ?cb t = Some (b3, ns, t3)"
    using dfs_loop_append[OF off_path_no_error[OF qb], where ys="?n # drop (Suc i) cs" and b=False and ns=ns and cb="?cb" and t=t]
      r0(1) b0 step by simp
  then have "dfs_loop fobj cs pc False ns ?cb t = Some (b3, ns, t3)"
    using split by simp
  moreover have "inliners t3 = inliners t @ rev (path_inliners fobj cu ns cs (i # p))"
    using r3(2) t2(2) r1(2) r0(3) by simp
  ultimately show ?case by blast
qed

lemma search_inliners_innermost_first:
  assumes "pc_path fobj pc (children d) p"
  shows "\<exists>b t'. deep_first_search_by_pc fobj d pc ns (inliners_search_cb sys fobj cu) t
                  = Some (b, ns, t') \<and>
           inliners t' = inliners t @ rev (path_inliners fobj cu ns (children d) p)"
  using loop_path[OF assms] by (simp add: deep_first_search_by_pc_children)

subsection \<open>The line index of a unit\<close>

lemma map_insert_set:
  "set (map_insert m k v) \<subseteq> insert (k, v) (set m)"
  by (induction m k v rule: map_insert.induct) auto

lemma add_lines_range:
  "\<forall>x \<in> set m. snd x < k \<Longrightarrow> \<forall>x \<in> set (add_lines ls k m). snd x < k + length ls"
proof (induction ls arbitrary: k m)
  case Nil
  then show ?case by simp
next
  case (Cons l ls)
  let ?m = "map_insert m (case dwarf_lineaddr l of Some a \<Rightarrow> a | None \<Rightarrow> 0) k"
  have "\<forall>x \<in> set ?m. snd x < Suc k"
    using Cons.prems map_insert_set[of m _ k] by fastforce
  then show ?case
    using Cons.IH[of ?m "Suc k"] by simp
qed

lemma line_section_lookup_in:
  assumes "line_section_lookup ls a = Some i"
  shows "\<exists>x \<in> set ls. snd x = i"
proof -
  have "\<And>n. n < length ls \<Longrightarrow> ls ! n \<in> set ls"
    by simp
  then show ?thesis
    using assms
    by (auto simp add: line_section_lookup_def Let_def split: if_splits)
qed

lemma new_die_cache_entry_lookup:
  assumes "line_section_lookup (line_section (new_die_cache_entry d)) a = Some i"
  shows "\<not> isEmpty (new_die_cache_entry d) \<and>
         (\<exists>buffer. line_buffer (new_die_cache_entry d) = Some buffer \<and> i < length buffer)"
proof -
  have n: "line_section_lookup [] a = None"
    by (simp add: line_section_lookup_def)
  obtain lines where l: "dwarf_srclines_b (attrs d) = Some (Some lines)"
    using assms n
    by (cases "dwarf_srclines_b (attrs d)")
      (auto simp add: new_die_cache_entry_def die_cache_entry_default_def Let_def
        split: option.splits)
  have e: "line_section (new_die_cache_entry d) = add_lines lines 0 []"
    "line_buffer (new_die_cache_entry d) = Some lines"
    "line_count (new_die_cache_entry d) = length lines"
    "line_context (new_die_cache_entry d)"
    using l by (simp_all add: new_die_cache_entry_def die_cache_entry_default_def Let_def)
  have "\<forall>x \<in> set (add_lines lines 0 []). snd x < 0 + length lines"
    by (rule add_lines_range) simp
  then have i: "i < length lines"
    using line_section_lookup_in[OF assms] e(1) by auto
  have "line_section (new_die_cache_entry d) \<noteq> []"
    using assms n by auto
  then show ?thesis
    using e i by (auto simp add: isEmpty_def)
qed

subsection \<open>\<^verbatim>\<open>resolve\<close> on an address that the line table covers\<close>

lemma resolve_in_object_path:
  assumes "find_die fobj address = Some (Some d)"
    and "get_die_cache fobj d = (new_die_cache_entry d, fobj')"
    and "line_table_covers d address"
    and "pc_path fobj' address (children d) p"
  shows "\<exists>t'. resolve_in_object sys fobj address trace = Some (t', fobj') \<and>
           inliners t' = inliners trace @ rev (path_inliners fobj' d [] (children d) p)"
proof -
  obtain i where i: "line_section_lookup (line_section (new_die_cache_entry d)) address = Some i"
    using assms(3) by (auto simp add: line_table_covers_def)
  obtain buffer where b: "\<not> isEmpty (new_die_cache_entry d)"
    "line_buffer (new_die_cache_entry d) = Some buffer" "i < length buffer"
    using new_die_cache_entry_lookup[OF i] by auto
  have s: "\<And>t. \<exists>b t'. deep_first_search_by_pc fobj' d address []
                            (inliners_search_cb sys fobj' d) t = Some (b, [], t') \<and>
                  inliners t' = inliners t @ rev (path_inliners fobj' d [] (children d) p)"
    using search_inliners_innermost_first[OF assms(4)] by simp
  define l where "l = buffer ! i"
  define t1 where "t1 = trace\<lparr>source :=
     (case dwarf_linesrc l of Some f \<Rightarrow> (source trace)\<lparr>filename := f\<rparr> | None \<Rightarrow> source trace)
       \<lparr>line := (case dwarf_lineno l of Some number \<Rightarrow> ucast number | None \<Rightarrow> 0),
        col := (case dwarf_lineoff_b l of Some number \<Rightarrow> ucast number | None \<Rightarrow> 0)\<rparr>\<rparr>"
  obtain b' t' where d: "deep_first_search_by_pc fobj' d address []
                            (inliners_search_cb sys fobj' d) t1 = Some (b', [], t')"
    "inliners t' = inliners t1 @ rev (path_inliners fobj' d [] (children d) p)"
    using s[of t1] by auto
  have "resolve_in_object sys fobj address trace = Some (t', fobj')"
    using assms(1,2) i b d(1)
    by (simp add: resolve_in_object_def Let_def l_def t1_def)
  moreover have "inliners t1 = inliners trace"
    by (simp add: t1_def)
  ultimately show ?thesis
    using d(2) by simp
qed

lemma resolve_dwarf_loaded:
  assumes "dladdr1 sys (addr trace) = Some info"
    and "dli_fname info = Some fname"
    and "load_object_with_dwarf sys st (fst (resolve_exec_path st fname)) = Some (fobj, st')"
    and "dwarf_handle fobj \<noteq> None"
  shows "\<exists>t. inliners t = inliners trace \<and> source t = source trace \<and>
           resolve_dwarf sys st trace =
             (case resolve_in_object sys fobj (addr trace - l_addr info) t of
                None \<Rightarrow> None
              | Some (t', fobj') \<Rightarrow>
                  Some (t', st'\<lparr>fobj_dwarf_map :=
                                 (fobj_dwarf_map st')(fst (resolve_exec_path st fname) \<mapsto> fobj')\<rparr>))"
proof -
  obtain open_name display where n: "resolve_exec_path st fname = (open_name, display)"
    by (cases "resolve_exec_path st fname")
  have l: "load_object_with_dwarf sys st open_name = Some (fobj, st')"
    using assms(3) n by simp
  define t1 where "t1 = (case dli_sname info of
      Some sname \<Rightarrow> trace\<lparr>object_function := demangle (cxa_demangle sys) sname\<rparr>
    | None \<Rightarrow> trace)\<lparr>object_filename := display\<rparr>"
  define t2 where "t2 = (if object_function t1 = [] then
      (case symbol_cache_lookup (symbol_cache fobj) (addr t1 - l_addr info) of
         Some name \<Rightarrow> t1\<lparr>object_function := demangle (cxa_demangle sys) name\<rparr>
       | None \<Rightarrow> t1)
    else t1)"
  have a: "addr t1 = addr trace" "inliners t1 = inliners trace" "source t1 = source trace"
    by (simp_all add: t1_def split: option.splits)
  have b: "inliners t2 = inliners trace" "source t2 = source trace"
    using a by (simp_all add: t2_def split: option.splits)
  have "resolve_dwarf sys st trace =
             (case resolve_in_object sys fobj (addr trace - l_addr info) t2 of
                None \<Rightarrow> None
              | Some (t', fobj') \<Rightarrow>
                  Some (t', st'\<lparr>fobj_dwarf_map := (fobj_dwarf_map st')(open_name \<mapsto> fobj')\<rparr>))"
    unfolding resolve_dwarf_def t2_def t1_def
    using assms(1,2,4) n l
    by (auto simp add: Let_def split: option.splits)
  moreover have "fst (resolve_exec_path st fname) = open_name"
    using n by simp
  ultimately show ?thesis
    using b by (intro exI[of _ t2]) (simp only: simp_thms)
qed




section \<open>The address that the line table does not cover\<close>

lemma resolve_in_object_line_not_found:
  assumes "find_die fobj address = Some (Some d)"
    and "isEmpty (fst (get_die_cache fobj d)) \<or>
         line_section_lookup (line_section (fst (get_die_cache fobj d))) address = None"
  shows "resolve_in_object sys fobj address trace = Some (trace, snd (get_die_cache fobj d))"
  using assms by (auto simp add: resolve_in_object_def split: prod.splits)

text \<open>
  Claim C8, as amended. When the unit of the address is found but the unit has no line
  table, or the address is below the first entry of the line table or above its last
  entry, \<^verbatim>\<open>resolve\<close> returns there: the source location of the trace (function, file,
  line and column) and its inliners are those of the input, the search for the function
  is not made. The name of the object is set, and the name of the symbol that
  \<^verbatim>\<open>dladdr1\<close> gave, when it is not empty, is the function of the object.
\<close>

theorem line_not_found_returns_early:
  assumes "dladdr1 sys (addr trace) = Some info"
    and "dli_fname info = Some fname"
    and "load_object_with_dwarf sys st (fst (resolve_exec_path st fname)) = Some (fobj, st')"
    and "dwarf_handle fobj \<noteq> None"
    and "find_die fobj (addr trace - l_addr info) = Some (Some d)"
    and "isEmpty (fst (get_die_cache fobj d)) \<or>
         line_section_lookup (line_section (fst (get_die_cache fobj d)))
           (addr trace - l_addr info) = None"
  shows "\<exists>t' st''. resolve_dwarf sys st trace = Some (t', st'') \<and>
           source t' = source trace \<and> inliners t' = inliners trace \<and>
           object_filename t' = snd (resolve_exec_path st fname) \<and>
           (\<forall>sname. dli_sname info = Some sname \<and> demangle (cxa_demangle sys) sname \<noteq> []
              \<longrightarrow> object_function t' = demangle (cxa_demangle sys) sname)"
proof -
  obtain open_name display where n: "resolve_exec_path st fname = (open_name, display)"
    by (cases "resolve_exec_path st fname")
  have l: "load_object_with_dwarf sys st open_name = Some (fobj, st')"
    using assms(3) n by simp
  have r: "\<And>t. resolve_in_object sys fobj (addr trace - l_addr info) t =
                 Some (t, snd (get_die_cache fobj d))"
    using resolve_in_object_line_not_found[OF assms(5) assms(6)] by simp
  show ?thesis
    unfolding resolve_dwarf_def
    using assms(1,2,4) n l
    by (auto simp add: Let_def r split: option.splits)
qed

theorem line_not_found_returns_early_witness:
  "\<exists>t' st''. resolve_dwarf app_os app_resolver (ResolvedTrace_of 4198408 0) = Some (t', st'') \<and>
     source t' = SourceLoc_unknown \<and> inliners t' = [] \<and>
     object_filename t' = ''/bin/app'' \<and> object_function t' = ''outer''"
proof -
  let ?info = "\<lparr>dli_fname = Some ''/bin/app'', dli_sname = Some ''outer'', l_addr = 4194304\<rparr>"
  let ?t = "ResolvedTrace_of 4198408 0"
  have a: "dladdr1 app_os (addr ?t) = Some ?info"
    by code_simp
  have n: "resolve_exec_path app_resolver ''/bin/app'' = (''/bin/app'', ''/bin/app'')"
    by code_simp
  have "load_object_with_dwarf app_os app_resolver ''/bin/app'' \<noteq> None"
    by code_simp
  then obtain fobj st' where
    l: "load_object_with_dwarf app_os app_resolver ''/bin/app'' = Some (fobj, st')"
    by (cases "load_object_with_dwarf app_os app_resolver ''/bin/app''") auto
  have "case load_object_with_dwarf app_os app_resolver ''/bin/app'' of
          None \<Rightarrow> False
        | Some (fobj, st') \<Rightarrow>
            dwarf_handle fobj \<noteq> None \<and> find_die fobj 4104 = Some (Some app_cu) \<and>
            line_section_lookup (line_section (fst (get_die_cache fobj app_cu))) 4104 = None"
    by code_simp
  then have h: "dwarf_handle fobj \<noteq> None" "find_die fobj 4104 = Some (Some app_cu)"
    "line_section_lookup (line_section (fst (get_die_cache fobj app_cu))) 4104 = None"
    using l by simp_all
  have s: "addr ?t - l_addr ?info = 4104" "source ?t = SourceLoc_unknown" "inliners ?t = []"
    by (simp_all add: ResolvedTrace_of_def)
  have d: "demangle (cxa_demangle app_os) ''outer'' = ''outer''"
    by code_simp
  show ?thesis
    using line_not_found_returns_early[where sys=app_os and st=app_resolver and trace="?t"
        and info="?info" and fname="''/bin/app''" and fobj=fobj and st'=st' and d=app_cu]
      a n l h s d
    by auto
qed

theorem line_not_found_function_counterexample:
  "find_die app_fobj 4104 = Some (Some app_cu) \<and>
   line_section_lookup (line_section (fst (get_die_cache app_fobj app_cu))) 4104 = None \<and>
   map_option (func \<circ> source \<circ> snd \<circ> snd)
     (deep_first_search_by_pc app_fobj app_cu 4104 []
        (inliners_search_cb app_os app_fobj app_cu) (ResolvedTrace_of 4198408 0))
     = Some ''outer()'' \<and>
   map_option (func \<circ> source \<circ> fst)
     (resolve_dwarf app_os app_resolver (ResolvedTrace_of 4198408 0))
     = Some []"
  by code_simp

section \<open>Properties of the loader\<close>

lemma ELF_GET_DATA_keeps:
  "ELF_GET_DATA e r = Go (link, r') \<Longrightarrow> r' = r\<lparr>symbol_cache := symbol_cache r'\<rparr>"
  by (auto simp add: ELF_GET_DATA_def split: flow.splits option.splits if_splits)

lemma follow_debuglink_log:
  "snd (follow_debuglink sys link h log) = (if link = [] then log else log @ [link])"
  by (auto simp add: follow_debuglink_def Let_def split: if_splits option.splits)

lemma load_cached:
  "fobj_dwarf_map st path = Some r \<Longrightarrow>
   load_object_with_dwarf sys st path =
     Some (r, st\<lparr>dwarf_loaded := (if \<not> dwarf_loaded st then elf_version_ok sys else True)\<rparr>)"
  by (simp add: load_object_with_dwarf_def)

lemma load_stores:
  assumes "load_object_with_dwarf sys st path = Some (r, st1)"
  shows "fobj_dwarf_map st1 path = Some r"
  using assms
  by (auto simp add: load_object_with_dwarf_def return_r_def Let_def
      split: option.splits if_splits flow.splits prod.splits)

lemma load_fresh_failed:
  assumes "load_object_with_dwarf sys st path = Some (r, st1)"
    and "fobj_dwarf_map st path = None" and "dwarf_handle r = None"
  shows "r = dwarf_fileobject_default\<lparr>symbol_cache := symbol_cache r\<rparr>"
proof -
  have d: "dwarf_fileobject_default =
             dwarf_fileobject_default\<lparr>symbol_cache := symbol_cache dwarf_fileobject_default\<rparr>"
    by simp
  have "r = dwarf_fileobject_default \<or>
        (\<exists>e link. ELF_GET_DATA e dwarf_fileobject_default = Go (link, r))"
    using assms
    by (auto simp add: load_object_with_dwarf_def return_r_def Let_def
        split: option.splits if_splits flow.splits prod.splits)
  then show ?thesis
    using d ELF_GET_DATA_keeps by metis
qed

lemma resolve_failed_entry:
  assumes "fobj_dwarf_map st path = Some r" and "dwarf_handle r = None"
    and "dladdr1 sys (addr trace) = Some info" and "dli_fname info = Some fname"
    and "fst (resolve_exec_path st fname) = path"
  shows "\<exists>t' st2. resolve_dwarf sys st trace = Some (t', st2) \<and>
           source t' = source trace \<and> inliners t' = inliners trace \<and>
           opened st2 = opened st \<and> fobj_dwarf_map st2 = fobj_dwarf_map st"
proof -
  obtain display where n: "resolve_exec_path st fname = (path, display)"
    using assms(5) by (cases "resolve_exec_path st fname") simp
  show ?thesis
    unfolding resolve_dwarf_def
    using assms(2,3,4) n load_cached[OF assms(1), of sys]
    by (auto simp add: Let_def split: option.splits)
qed

lemma load_opens:
  assumes "load_object_with_dwarf sys st path = Some (r, st1)"
    and "fobj_dwarf_map st path = None"
  shows "\<exists>rest. opened st1 = opened st @ path # rest"
proof -
  have f: "\<And>link h hs log'. follow_debuglink sys link h (opened st @ [path]) = (hs, log')
             \<Longrightarrow> \<exists>rest. log' = opened st @ path # rest"
  proof -
    fix link h hs log'
    assume "follow_debuglink sys link h (opened st @ [path]) = (hs, log')"
    then have "log' = (if link = [] then opened st @ [path] else (opened st @ [path]) @ [link])"
      using follow_debuglink_log[of sys link h "opened st @ [path]"] by simp
    then show "\<exists>rest. log' = opened st @ path # rest"
      by (cases "link = []") simp_all
  qed
  show ?thesis
    using assms
    by (auto simp add: load_object_with_dwarf_def return_r_def Let_def
        split: option.splits if_splits flow.splits prod.splits dest: f)
qed

lemma read_symbols_readable:
  "n \<le> length buf \<Longrightarrow> list_all symbol_has_name buf \<Longrightarrow> read_symbols n buf cache \<noteq> None"
  by (induction n buf cache rule: read_symbols.induct)
    (auto simp add: symbol_has_name_def)

lemma read_symbols_None:
  "read_symbols n buf cache = None \<Longrightarrow> n \<le> length buf \<Longrightarrow>
     list_all symbol_has_name buf \<Longrightarrow> False"
  using read_symbols_readable by blast

lemma scan_sections_readable:
  "list_all symbol_table_readable secs \<Longrightarrow> scan_inv s \<Longrightarrow>
     scan_sections secs s \<noteq> Trap \<and> (\<forall>s'. scan_sections secs s = Go s' \<longrightarrow> scan_inv s')"
proof (induction secs arbitrary: s)
  case Nil
  then show ?case by simp
next
  case (Cons scn secs)
  have r: "symbol_table_readable scn" and rs: "list_all symbol_table_readable secs"
    using Cons.prems(1) by simp_all
  show ?case
  proof (cases "elf_getshdr scn")
    case None
    then show ?thesis by simp
  next
    case (Some h)
    note h = Some
    show ?thesis
    proof (cases "elf_strptr_name scn")
      case None
      then show ?thesis using h by simp
    next
      case (Some name)
      define s1 where "s1 = (if name = ''.gnu_debuglink'' then
                           (case elf_getdata scn of
                              Some d \<Rightarrow> if d_size d > 0 then s\<lparr>debuglink := d_buf_string d\<rparr> else s
                            | None \<Rightarrow> s)
                         else s)"
      have i1: "scan_inv s1"
        using Cons.prems(2) by (auto simp add: s1_def scan_inv_def split: option.splits)
      have ss: "symbol_section s1 = symbol_section s"
        by (auto simp add: s1_def split: option.splits)
      define s2 where "s2 = s1\<lparr>symbol_section := Some scn,
                                 symbol_count := sh_size h div sh_entsize h,
                                 symbol_strings := ucast (sh_link h)\<rparr>"
      have i2: "sh_type h \<noteq> SHT_OTHER \<Longrightarrow> scan_inv s2 \<and> sh_entsize h \<noteq> 0"
        using r h by (auto simp add: symbol_table_readable_def s2_def scan_inv_def
            split: option.splits)
      have e: "scan_sections (scn # secs) s =
                 (case sh_type h of
                     SHT_SYMTAB \<Rightarrow>
                       if sh_entsize h = 0 then Trap else scan_sections secs s2
                   | SHT_DYNSYM \<Rightarrow>
                       if symbol_section s1 = None then
                         (if sh_entsize h = 0 then Trap else scan_sections secs s2)
                       else scan_sections secs s1
                   | SHT_OTHER \<Rightarrow> scan_sections secs s1)"
        unfolding s1_def s2_def using h Some
        by (cases "sh_type h") (simp_all add: Let_def)
      show ?thesis
        unfolding e
        using Cons.IH[OF rs i1] Cons.IH[OF rs, of s2] i2
        by (cases "sh_type h") auto
    qed
  qed
qed

lemma ELF_GET_DATA_readable:
  assumes "symbol_tables_readable e"
  shows "ELF_GET_DATA e r \<noteq> Trap"
proof -
  have i: "scan_inv elf_scan_init"
    by (simp add: scan_inv_def elf_scan_init_def)
  note s = scan_sections_readable[OF assms[unfolded symbol_tables_readable_def] i]
  show ?thesis
  proof (cases "scan_sections (elf_sections e) elf_scan_init")
    case Return_r
    then show ?thesis by (simp add: ELF_GET_DATA_def)
  next
    case Trap
    then show ?thesis using s by simp
  next
    case (Go s')
    then have "scan_inv s'" using s by simp
    then show ?thesis
      using Go
      by (auto simp add: ELF_GET_DATA_def scan_inv_def split: option.splits
          dest: read_symbols_None)
  qed
qed

lemma load_returns:
  assumes "\<forall>e. elf_begin sys (os_open sys path) = Some e \<longrightarrow> symbol_tables_readable e"
  shows "load_object_with_dwarf sys st path \<noteq> None"
proof -
  have h: "h_val (int_handle_reset (os_open sys path)) = os_open sys path"
    by (simp add: int_handle_reset_def)
  show ?thesis
    using assms ELF_GET_DATA_readable
    by (auto simp add: load_object_with_dwarf_def return_r_def Let_def h
        split: option.splits flow.splits prod.splits)
qed

lemma load_fails_early:
  assumes "load_object_with_dwarf sys st path = Some (r, st1)"
    and "fobj_dwarf_map st path = None" and "fails_before_symbols sys path"
  shows "r = dwarf_fileobject_default"
proof -
  have h: "h_val (int_handle_reset (os_open sys path)) = os_open sys path"
    by (simp add: int_handle_reset_def)
  have g: "\<And>e. scan_sections (elf_sections e) elf_scan_init = Return_r \<Longrightarrow>
             ELF_GET_DATA e dwarf_fileobject_default = Return_r"
    by (simp add: ELF_GET_DATA_def)
  show ?thesis
    using assms
    by (auto simp add: load_object_with_dwarf_def return_r_def Let_def h g
        fails_before_symbols_def split: option.splits if_splits)
qed

lemma load_succeeded:
  assumes "load_object_with_dwarf sys st path = Some (r, st1)"
    and "fobj_dwarf_map st path = None" and "dwarf_handle r \<noteq> None"
  shows "\<exists>e. elf_handle r = Some e \<and> dwarf_elf_init e = dwarf_handle r"
proof -
  have k: "\<And>e link r'. ELF_GET_DATA e dwarf_fileobject_default = Go (link, r') \<Longrightarrow>
             dwarf_handle r' = None"
    by (auto simp add: ELF_GET_DATA_def dwarf_fileobject_default_def
        split: flow.splits option.splits if_splits)
  have d: "dwarf_handle dwarf_fileobject_default = None"
    by (simp add: dwarf_fileobject_default_def)
  show ?thesis
    using assms d
    by (auto simp add: load_object_with_dwarf_def return_r_def Let_def
        split: option.splits if_splits flow.splits prod.splits dest: k)
qed




text \<open>
  Claim C7, as amended. For an object that is loaded for the first time, is an ELF
  object of class 32 or 64, and whose sections give a debug link: the symbol cache of
  the object is the one read from the sections of the original file, whatever the
  external file holds, and both files were opened. When the external file opens with a
  positive descriptor and \<^verbatim>\<open>elf_begin\<close> succeeds on it, the debug information is
  that of the external file, and when there is some the object holds the descriptor and
  the file handle of the external file. When the external file does not open, or
  \<^verbatim>\<open>elf_begin\<close> fails on it, the debug information is that of the original file, and
  when there is some the object holds the descriptor and the file handle of the
  original file.
\<close>

theorem debuglink_replaces_handles:
  assumes "fobj_dwarf_map st path = None"
    and "os_open sys path = fd" and "0 \<le> fd" and "elf_begin sys fd = Some e"
    and "elf_getident e = Some cls" and "cls = ELFCLASS32 \<or> cls = ELFCLASS64"
    and "elf_getshdrnum_ok e" and "elf_getshdrstrndx_ok e"
    and "ELF_GET_DATA e dwarf_fileobject_default = Go (link, r0)" and "link \<noteq> []"
    and "os_open sys link = fd2"
  shows "\<exists>r st1. load_object_with_dwarf sys st path = Some (r, st1) \<and>
           opened st1 = opened st @ [path, link] \<and> symbol_cache r = symbol_cache r0 \<and>
           (\<forall>e2. 0 < fd2 \<and> elf_begin sys fd2 = Some e2 \<longrightarrow>
              dwarf_handle r = dwarf_elf_init e2 \<and>
              (dwarf_elf_init e2 \<noteq> None \<longrightarrow>
                 elf_handle r = Some e2 \<and> file_handle r = int_handle_reset fd2)) \<and>
           (fd2 < 0 \<or> elf_begin sys fd2 = None \<longrightarrow>
              dwarf_handle r = dwarf_elf_init e \<and>
              (dwarf_elf_init e \<noteq> None \<longrightarrow>
                 elf_handle r = Some e \<and> file_handle r = int_handle_reset fd))"
proof -
  have k: "r0 = dwarf_fileobject_default\<lparr>symbol_cache := symbol_cache r0\<rparr>"
    using ELF_GET_DATA_keeps[OF assms(9)] .
  have d: "dwarf_handle r0 = None"
    by (subst k) (simp add: dwarf_fileobject_default_def)
  have h: "h_val (int_handle_reset fd) = fd"
    by (simp add: int_handle_reset_def)
  show ?thesis
    using assms d h
    by (auto simp add: load_object_with_dwarf_def return_r_def Let_def follow_debuglink_def
        split: option.splits)
qed

theorem debuglink_replaces_handles_witness:
  "\<exists>r st1. load_object_with_dwarf split_os app_resolver ''/bin/split'' = Some (r, st1) \<and>
     opened st1 = [''/bin/split'', ''app.debug''] \<and> symbol_cache r = [(4096, ''f'')] \<and>
     dwarf_handle r = Some app_dwarf \<and> elf_handle r = Some debug_elf \<and>
     file_handle r = int_handle_reset 4"
proof -
  have g: "ELF_GET_DATA split_elf dwarf_fileobject_default =
             Go (''app.debug'', dwarf_fileobject_default\<lparr>symbol_cache := [(4096, ''f'')]\<rparr>)"
    by (simp add: ELF_GET_DATA_def split_elf_def symtab_section_def elf_scan_init_def
        dwarf_fileobject_default_def)
  have o: "os_open split_os ''/bin/split'' = 3" "os_open split_os ''app.debug'' = 4"
    "elf_begin split_os 3 = Some split_elf" "elf_begin split_os 4 = Some debug_elf"
    by (simp_all add: split_os_def)
  have e: "elf_getident split_elf = Some ELFCLASS64" "elf_getshdrnum_ok split_elf"
    "elf_getshdrstrndx_ok split_elf" "dwarf_elf_init debug_elf = Some app_dwarf"
    by (simp_all add: split_elf_def debug_elf_def)
  have f: "fobj_dwarf_map app_resolver ''/bin/split'' = None" "opened app_resolver = []"
    by (simp_all add: app_resolver_def dwarf_resolver_init_def)
  show ?thesis
    using debuglink_replaces_handles[where sys=split_os and st=app_resolver
        and path="''/bin/split''" and fd=3 and e=split_elf and cls=ELFCLASS64
        and link="''app.debug''" and ?fd2.0=4
        and ?r0.0="dwarf_fileobject_default\<lparr>symbol_cache := [(4096, ''f'')]\<rparr>"]
      g o e f
    by auto
qed

theorem debuglink_symbols_counterexample:
  "map_option (symbol_cache \<circ> fst)
     (load_object_with_dwarf split_os app_resolver ''/bin/split'') = Some [(4096, ''f'')] \<and>
   map_option (map_option elf_sections \<circ> elf_handle \<circ> fst)
     (load_object_with_dwarf split_os app_resolver ''/bin/split'')
     = Some (Some [symtab_section 8192 ''g'']) \<and>
   ELF_GET_DATA debug_elf dwarf_fileobject_default =
     Go ([], dwarf_fileobject_default\<lparr>symbol_cache := [(8192, ''g'')]\<rparr>)"
proof -
  have a: "map_option (symbol_cache \<circ> fst)
     (load_object_with_dwarf split_os app_resolver ''/bin/split'') = Some [(4096, ''f'')]"
    by code_simp
  have b: "map_option (map_option elf_sections \<circ> elf_handle \<circ> fst)
     (load_object_with_dwarf split_os app_resolver ''/bin/split'')
     = Some (Some [symtab_section 8192 ''g''])"
    by code_simp
  have c: "ELF_GET_DATA debug_elf dwarf_fileobject_default =
     Go ([], dwarf_fileobject_default\<lparr>symbol_cache := [(8192, ''g'')]\<rparr>)"
    by (simp add: ELF_GET_DATA_def debug_elf_def symtab_section_def elf_scan_init_def
        dwarf_fileobject_default_def)
  show ?thesis
    using a b c by simp
qed

section \<open>Where \<^verbatim>\<open>resolve\<close> returns\<close>

text \<open>An address that \<^verbatim>\<open>dladdr1\<close> finds in no object: the trace is returned as it is.\<close>

lemma resolve_dwarf_no_object:
  "dladdr1 sys (addr trace) = None \<Longrightarrow> resolve_dwarf sys st trace = Some (trace, st)"
  by (simp add: resolve_dwarf_def)

lemma resolve_dwarf_wild_address:
  "resolve_dwarf app_os app_resolver (ResolvedTrace_of 1 0) =
     Some (ResolvedTrace_of 1 0, app_resolver)"
proof (rule resolve_dwarf_no_object)
  show "dladdr1 app_os (addr (ResolvedTrace_of 1 0)) = None"
    by code_simp
qed

text \<open>
  Claim C4. \<^verbatim>\<open>resolve\<close> does not return for every trace. For an address in an object
  whose symbol table section has the entry size 0 in its header, the load of the object
  divides by zero in the loop over the sections; for an address in an object whose
  symbol table section has no data, the load reads through the null pointer that
  \<^verbatim>\<open>elf_getdata\<close> returned. In both cases \<^verbatim>\<open>resolve\<close> returns no trace.
\<close>

theorem resolve_traps_on_symbol_table:
  "scan_sections (elf_sections zero_elf) elf_scan_init = Trap \<and>
   resolve_dwarf zero_os (dwarf_resolver_init ''app'' ''/bin/app'')
     (ResolvedTrace_of 4198452 0) = None \<and>
   ELF_GET_DATA cut_elf dwarf_fileobject_default = Trap \<and>
   resolve_dwarf cut_os (dwarf_resolver_init ''app'' ''/bin/app'')
     (ResolvedTrace_of 4198452 0) = None"
proof -
  have a: "scan_sections (elf_sections zero_elf) elf_scan_init = Trap"
    by (simp add: zero_elf_def)
  have b: "ELF_GET_DATA cut_elf dwarf_fileobject_default = Trap"
    by (simp add: ELF_GET_DATA_def cut_elf_def elf_scan_init_def)
  have c: "resolve_dwarf zero_os (dwarf_resolver_init ''app'' ''/bin/app'')
     (ResolvedTrace_of 4198452 0) = None"
    by code_simp
  have d: "resolve_dwarf cut_os (dwarf_resolver_init ''app'' ''/bin/app'')
     (ResolvedTrace_of 4198452 0) = None"
    by code_simp
  show ?thesis
    using a b c d by simp
qed

end
